theory Spec2Isabelle
  imports Complex_Main
begin

section \<open>HONE with damped Kuramoto dynamics: embedding of the simulation code\<close>

text \<open>
  The embedding follows \<^verbatim>\<open>HONE+Kuramoto_ensemble_cpu.py\<close>.  A numpy array of shape
  \<open>(N, D)\<close> is a list of \<open>N\<close> rows, each a list of \<open>D\<close> numbers; an array of shape \<open>(N)\<close> is a
  list.  Numbers are real numbers: the arithmetic of the code is read without rounding.
  An exception raised by the code is an \<open>Inl\<close> result.
\<close>

datatype error = ValueError | IndexError

type_synonym vec = "real list"
type_synonym array2 = "real list list"

subsection \<open>The numpy operations used by the code\<close>

text \<open>\<^verbatim>\<open>a - b\<close> on two rows of the same length.\<close>

definition vsub :: "vec \<Rightarrow> vec \<Rightarrow> vec" where
  "vsub a b = map2 (\<lambda>x y. x - y) a b"

text \<open>\<^verbatim>\<open>np.linalg.norm\<close> of one row (the Euclidean norm).\<close>

definition vnorm :: "vec \<Rightarrow> real" where
  "vnorm v = sqrt (sum_list (map (\<lambda>x. x * x) v))"

text \<open>Boolean mask indexing \<^verbatim>\<open>a[mask]\<close>: the entries whose mask bit is set, in order.\<close>

definition masked :: "bool list \<Rightarrow> 'a list \<Rightarrow> 'a list" where
  "masked msk xs = map snd (filter fst (zip msk xs))"

text \<open>\<^verbatim>\<open>np.min\<close>: raises \<^verbatim>\<open>ValueError\<close> on an array without elements.\<close>

fun np_min :: "real list \<Rightarrow> error + real" where
  "np_min [] = Inl ValueError"
| "np_min (x # xs) = Inr (fold min xs x)"

text \<open>\<^verbatim>\<open>np.sum(rows, axis=0)\<close> for rows of length \<open>d\<close>.\<close>

definition sum_axis0 :: "nat \<Rightarrow> array2 \<Rightarrow> vec" where
  "sum_axis0 d rows = foldr (\<lambda>r acc. map2 (\<lambda>x y. x + y) r acc) rows (replicate d 0)"

text \<open>\<^verbatim>\<open>np.zeros_like\<close>.\<close>

definition zeros_like :: "array2 \<Rightarrow> array2" where
  "zeros_like a = map (\<lambda>r. replicate (length r) 0) a"

subsection \<open>\<^verbatim>\<open>calculate_forces\<close>\<close>

text \<open>
  The body of the loop over \<open>i\<close> (source lines 62 to 67), up to the value assigned to
  \<^verbatim>\<open>forces[i]\<close>.  Line 65 evaluates \<^verbatim>\<open>np.min(distances[mask])\<close> whatever the mask holds;
  line 67 indexes row \<open>i\<close> of the adjacency matrix with the mask, which numpy refuses when
  the row and the mask differ in length.
\<close>

definition force_on :: "array2 \<Rightarrow> array2 \<Rightarrow> nat \<Rightarrow> error + vec" where
  "force_on adj_matrix positions i =
     (let delta = map (\<lambda>p. vsub p (positions ! i)) positions;
          distances = map vnorm delta;
          msk = map (\<lambda>d. d > 1 / 1000000) distances
      in case np_min (masked msk distances) of
           Inl e \<Rightarrow> Inl e
         | Inr m \<Rightarrow>
             (let fl = max (1 / 1000000) m;
                  distances' = map2 (\<lambda>b d. if b then d else fl) msk distances
              in if length (adj_matrix ! i) \<noteq> length msk then Inl IndexError
                 else Inr (sum_axis0 (length (positions ! i))
                        (map2 (\<lambda>w (dl, d). map (\<lambda>x. w * (x / d)) dl)
                           (masked msk (adj_matrix ! i))
                           (zip (masked msk delta) (masked msk distances'))))))"

text \<open>The loop \<^verbatim>\<open>for i in range(num_nodes)\<close>, writing row \<open>i\<close> of \<^verbatim>\<open>forces\<close>.\<close>

fun forces_loop :: "array2 \<Rightarrow> array2 \<Rightarrow> nat list \<Rightarrow> array2 \<Rightarrow> error + array2" where
  "forces_loop adj_matrix positions [] forces = Inr forces"
| "forces_loop adj_matrix positions (i # is) forces =
     (case force_on adj_matrix positions i of
        Inl e \<Rightarrow> Inl e
      | Inr f \<Rightarrow> forces_loop adj_matrix positions is (forces[i := f]))"

definition calculate_forces :: "array2 \<Rightarrow> array2 \<Rightarrow> error + array2" where
  "calculate_forces adj_matrix positions =
     forces_loop adj_matrix positions [0..<length adj_matrix] (zeros_like positions)"

subsection \<open>\<^verbatim>\<open>compute_potential_energy\<close>\<close>

text \<open>The list comprehension of source lines 75 to 78: \<open>i\<close> runs over the nodes, \<open>j\<close> below \<open>i\<close>.\<close>

definition compute_potential_energy :: "array2 \<Rightarrow> array2 \<Rightarrow> real" where
  "compute_potential_energy adj_matrix positions =
     0.5 * sum_list (concat (map (\<lambda>i. map (\<lambda>j.
        adj_matrix ! i ! j * (max (vnorm (vsub (positions ! i) (positions ! j))) (1 / 1000000))\<^sup>2)
        [0..<i]) [0..<length adj_matrix]))"

subsection \<open>The simulation loop\<close>

text \<open>The variables of one realization that the loop reads and writes.\<close>

record sim_state =
  positions :: array2
  velocities :: array2
  phases :: vec
  phase_velocities :: vec
  positions_history :: "array2 list"
  phase_history :: "vec list"
  potential_energy_history :: "real list"
  kinetic_energy_history :: "real list"
  total_energy_history :: "real list"

text \<open>Source lines 38, 42 and 48 to 52: the state before the first step.\<close>

definition initial_state :: "array2 \<Rightarrow> vec \<Rightarrow> sim_state" where
  "initial_state positions0 phases0 =
     \<lparr> positions = positions0, velocities = zeros_like positions0,
       phases = phases0, phase_velocities = replicate (length phases0) 0,
       positions_history = [positions0], phase_history = [phases0],
       potential_energy_history = [], kinetic_energy_history = [],
       total_energy_history = [] \<rparr>"

text \<open>Source lines 90 to 92: the Kuramoto coupling sum of every node.\<close>

definition phase_diffs :: "array2 \<Rightarrow> vec \<Rightarrow> vec" where
  "phase_diffs adj_matrix ph =
     map (\<lambda>i. sum_list (map2 (\<lambda>a p. a * sin (p - ph ! i)) (adj_matrix ! i) ph))
       [0..<length adj_matrix]"

text \<open>Source line 110.\<close>

definition total_movement :: "array2 \<Rightarrow> array2 \<Rightarrow> real" where
  "total_movement new_positions old_positions =
     sum_list (map2 (\<lambda>a b. vnorm (vsub a b)) new_positions old_positions)"

text \<open>
  One pass through the loop body (source lines 83 to 117).  The result carries the flag
  of the \<^verbatim>\<open>break\<close>: when it is set, lines 116 and 117 have not run.
\<close>

definition sim_step ::
  "array2 \<Rightarrow> real \<Rightarrow> real \<Rightarrow> real \<Rightarrow> real \<Rightarrow> real \<Rightarrow> vec \<Rightarrow> sim_state \<Rightarrow> error + (bool \<times> sim_state)" where
  "sim_step adj_matrix tol dt gamma gamma_theta K intrinsic_frequencies s =
     (case calculate_forces adj_matrix (positions s) of
        Inl e \<Rightarrow> Inl e
      | Inr forces \<Rightarrow>
         (let accelerations = forces;
              velocities' = map2 (map2 (\<lambda>v a. v + (a * dt - gamma * v))) (velocities s) accelerations;
              new_positions = map2 (map2 (\<lambda>p v. p + v * dt)) (positions s) velocities';
              pd = phase_diffs adj_matrix (phases s);
              phase_accelerations =
                map2 (\<lambda>(w, c) pv. w + K * c - gamma_theta * pv)
                  (zip intrinsic_frequencies pd) (phase_velocities s);
              phase_velocities' = map2 (\<lambda>pv a. pv + a * dt) (phase_velocities s) phase_accelerations;
              new_phases = map2 (\<lambda>p pv. p + pv * dt) (phases s) phase_velocities';
              kinetic_energy = 0.5 * sum_list (map (\<lambda>v. (vnorm v)\<^sup>2) velocities');
              potential_energy = compute_potential_energy adj_matrix new_positions;
              total_energy = kinetic_energy + potential_energy;
              s1 = s\<lparr> velocities := velocities',
                      phase_velocities := phase_velocities',
                      positions_history := positions_history s @ [new_positions],
                      phase_history := phase_history s @ [new_phases],
                      kinetic_energy_history := kinetic_energy_history s @ [kinetic_energy],
                      potential_energy_history := potential_energy_history s @ [potential_energy],
                      total_energy_history := total_energy_history s @ [total_energy] \<rparr>
          in if total_movement new_positions (positions s) < tol then Inr (True, s1)
             else Inr (False, s1\<lparr> positions := new_positions, phases := new_phases \<rparr>)))"

text \<open>\<^verbatim>\<open>for step in range(iterations)\<close>: the argument counts the steps still to run.\<close>

fun sim_loop ::
  "array2 \<Rightarrow> real \<Rightarrow> real \<Rightarrow> real \<Rightarrow> real \<Rightarrow> real \<Rightarrow> vec \<Rightarrow> nat \<Rightarrow> sim_state \<Rightarrow> error + sim_state" where
  "sim_loop adj_matrix tol dt gamma gamma_theta K freqs 0 s = Inr s"
| "sim_loop adj_matrix tol dt gamma gamma_theta K freqs (Suc n) s =
     (case sim_step adj_matrix tol dt gamma gamma_theta K freqs s of
        Inl e \<Rightarrow> Inl e
      | Inr (converged, s') \<Rightarrow>
          if converged then Inr s'
          else sim_loop adj_matrix tol dt gamma gamma_theta K freqs n s')"

type_synonym histories = "array2 list \<times> vec list \<times> real list \<times> real list \<times> real list"

text \<open>Source line 119.\<close>

definition result_of :: "sim_state \<Rightarrow> histories" where
  "result_of s = (positions_history s, phase_history s, potential_energy_history s,
                  kinetic_energy_history s, total_energy_history s)"

text \<open>
  Source lines 47 to 119: the run of a realization once its random draws are made.
  \<^verbatim>\<open>range(iterations)\<close> is empty for a negative \<^verbatim>\<open>iterations\<close>.
\<close>

definition simulate ::
  "array2 \<Rightarrow> int \<Rightarrow> real \<Rightarrow> real \<Rightarrow> real \<Rightarrow> real \<Rightarrow> real \<Rightarrow> array2 \<Rightarrow> vec \<Rightarrow> vec \<Rightarrow> error + histories" where
  "simulate adj_matrix iterations tol dt gamma gamma_theta K positions0 phases0 freqs =
     (case sim_loop adj_matrix tol dt gamma gamma_theta K freqs (nat iterations)
             (initial_state positions0 phases0) of
        Inl e \<Rightarrow> Inl e
      | Inr s \<Rightarrow> Inr (result_of s))"

subsection \<open>The random generator\<close>

text \<open>
  numpy's generator is not part of the repository: it is a parameter.  \<open>'g\<close> is the state
  of the process-wide generator behind \<^verbatim>\<open>np.random\<close>; \<^verbatim>\<open>np.random.seed\<close> replaces it, and
  each drawing function returns an array of the requested shape and the state left behind.
\<close>

record 'g rng =
  rng_seed :: "nat \<Rightarrow> 'g"
  rng_rand :: "nat \<Rightarrow> nat \<Rightarrow> 'g \<Rightarrow> array2 \<times> 'g"
  rng_uniform :: "nat \<Rightarrow> 'g \<Rightarrow> vec \<times> 'g"
  rng_normal :: "nat \<Rightarrow> 'g \<Rightarrow> vec \<times> 'g"

subsection \<open>\<^verbatim>\<open>HONE_worker_with_damped_kuramoto\<close>, run with no other thread\<close>

definition HONE_worker_with_damped_kuramoto ::
  "'g rng \<Rightarrow> array2 \<Rightarrow> nat \<Rightarrow> int \<Rightarrow> real \<Rightarrow> nat \<Rightarrow> real \<Rightarrow> real \<Rightarrow> real \<Rightarrow> real \<Rightarrow> error + histories" where
  "HONE_worker_with_damped_kuramoto gen adj_matrix dim' iterations tol seed dt gamma gamma_theta K =
     (let g0 = rng_seed gen seed;
          num_nodes = length adj_matrix;
          (positions0, g1) = rng_rand gen num_nodes dim' g0;
          (phases0, g2) = rng_uniform gen num_nodes g1;
          (intrinsic_frequencies, g3) = rng_normal gen num_nodes g2
      in simulate adj_matrix iterations tol dt gamma gamma_theta K
           positions0 phases0 intrinsic_frequencies)"

subsection \<open>\<^verbatim>\<open>HONE_kuramoto_ensemble\<close>\<close>

text \<open>
  networkx is not part of the repository.  Of the graph \<open>G\<close> the code uses two things:
  whether \<^verbatim>\<open>nx.is_weighted(G)\<close> holds, and the square array \<^verbatim>\<open>nx.to_numpy_array\<close> builds
  (both calls of the source pass the same weight attribute, so they build the same array).
\<close>

record graph =
  is_weighted :: bool
  to_numpy_array :: array2

text \<open>Source lines 147 to 151.\<close>

definition adjacency_of :: "graph \<Rightarrow> array2" where
  "adjacency_of G =
     (if is_weighted G then to_numpy_array G
      else map (map (\<lambda>x. if x > 0 then 1 else x)) (to_numpy_array G))"

text \<open>
  The worker threads share the process-wide generator.  Of a worker, only the four calls
  of source lines 33 to 45 touch it; \<open>pc\<close> counts the calls a worker has made, and the
  arrays it has drawn are its own.
\<close>

record worker_thread =
  pc :: nat
  drawn_positions :: array2
  drawn_phases :: vec
  drawn_frequencies :: vec

definition fresh_thread :: worker_thread where
  "fresh_thread = \<lparr> pc = 0, drawn_positions = [], drawn_phases = [], drawn_frequencies = [] \<rparr>"

text \<open>The next call of the worker with the given seed, on the shared generator state.\<close>

definition rng_call ::
  "'g rng \<Rightarrow> nat \<Rightarrow> nat \<Rightarrow> nat \<Rightarrow> 'g \<times> worker_thread \<Rightarrow> 'g \<times> worker_thread" where
  "rng_call gen num_nodes dim' seed st =
     (case st of (g, t) \<Rightarrow>
        if pc t = 0 then (rng_seed gen seed, t\<lparr> pc := 1 \<rparr>)
        else if pc t = 1 then
          (case rng_rand gen num_nodes dim' g of
             (p, g') \<Rightarrow> (g', t\<lparr> pc := 2, drawn_positions := p \<rparr>))
        else if pc t = 2 then
          (case rng_uniform gen num_nodes g of
             (p, g') \<Rightarrow> (g', t\<lparr> pc := 3, drawn_phases := p \<rparr>))
        else if pc t = 3 then
          (case rng_normal gen num_nodes g of
             (p, g') \<Rightarrow> (g', t\<lparr> pc := 4, drawn_frequencies := p \<rparr>))
        else (g, t))"

text \<open>
  A schedule lists, in the order the calls happen, which worker makes its next call on the
  generator.  A worker that has made its four calls, or a number that is no worker, is
  skipped.
\<close>

fun run_schedule ::
  "'g rng \<Rightarrow> nat \<Rightarrow> nat \<Rightarrow> nat list \<Rightarrow> 'g \<times> worker_thread list \<Rightarrow> 'g \<times> worker_thread list" where
  "run_schedule gen num_nodes dim' [] st = st"
| "run_schedule gen num_nodes dim' (k # ks) st =
     run_schedule gen num_nodes dim' ks
       (case st of (g, ts) \<Rightarrow>
          if k < length ts then
            (case rng_call gen num_nodes dim' k (g, ts ! k) of (g', t') \<Rightarrow> (g', ts[k := t']))
          else (g, ts))"

text \<open>Every worker runs to its end: after the schedule, the calls still missing are made.\<close>

definition complete_schedule :: "nat \<Rightarrow> nat list \<Rightarrow> nat list" where
  "complete_schedule m sched = sched @ concat (map (replicate 4) [0..<m])"

text \<open>
  Source lines 164 and 165: \<^verbatim>\<open>future.result()\<close> in the order of the seeds; the first
  exception met is raised.
\<close>

fun join_futures :: "(error + 'a) list \<Rightarrow> error + 'a list" where
  "join_futures [] = Inr []"
| "join_futures (r # rs) =
     (case r of
        Inl e \<Rightarrow> Inl e
      | Inr x \<Rightarrow> (case join_futures rs of Inl e \<Rightarrow> Inl e | Inr xs \<Rightarrow> Inr (x # xs)))"

type_synonym ensemble =
  "array2 list list \<times> vec list list \<times> real list list \<times> real list list \<times> real list list"

text \<open>
  Source lines 146 to 174.  \<open>g0\<close> is the state of the generator when the function is
  entered and \<open>sched\<close> the schedule of the run: the order in which the thread pool lets
  the workers reach the generator is not fixed by the code.
  \<^verbatim>\<open>[None] * ensemble_size\<close> and \<^verbatim>\<open>range(ensemble_size)\<close> are empty for a negative size.
\<close>

definition HONE_kuramoto_ensemble ::
  "'g rng \<Rightarrow> 'g \<Rightarrow> nat list \<Rightarrow> graph \<Rightarrow> nat \<Rightarrow> int \<Rightarrow> int \<Rightarrow> real \<Rightarrow> real \<Rightarrow> real \<Rightarrow> real \<Rightarrow> real
     \<Rightarrow> error + ensemble" where
  "HONE_kuramoto_ensemble gen g0 sched G dim' iterations ensemble_size tol dt gamma gamma_theta K =
     (let adj_matrix = adjacency_of G;
          m = nat ensemble_size;
          threads = snd (run_schedule gen (length adj_matrix) dim' (complete_schedule m sched)
                           (g0, replicate m fresh_thread));
          futures = map (\<lambda>t. simulate adj_matrix iterations tol dt gamma gamma_theta K
                                (drawn_positions t) (drawn_phases t) (drawn_frequencies t)) threads
      in case join_futures futures of
           Inl e \<Rightarrow> Inl e
         | Inr results \<Rightarrow>
             Inr (map (\<lambda>result. fst result) results,
                  map (\<lambda>result. fst (snd result)) results,
                  map (\<lambda>result. fst (snd (snd result))) results,
                  map (\<lambda>result. fst (snd (snd (snd result)))) results,
                  map (\<lambda>result. snd (snd (snd (snd result)))) results))"

subsection \<open>The arrays as mutable objects\<close>

text \<open>
  A numpy array is an object: a variable holds a reference to it, \<^verbatim>\<open>b = a\<close> makes both
  names refer to one object, \<^verbatim>\<open>a += x\<close> changes the object in place, and \<^verbatim>\<open>a.copy()\<close> and
  every arithmetic expression make a new one.  The second model of the loop keeps the
  arrays in a store: references are numbers, and a new object takes the next free one.
  Python floats are values, so the energy histories stay lists of numbers.
\<close>

datatype ndarray = Arr1 vec | Arr2 array2

record store =
  cells :: "nat \<Rightarrow> ndarray"
  next_ref :: nat

definition empty_store :: store where
  "empty_store = \<lparr> cells = (\<lambda>r. Arr1 []), next_ref = 0 \<rparr>"

definition alloc :: "ndarray \<Rightarrow> store \<Rightarrow> nat \<times> store" where
  "alloc v h = (next_ref h, \<lparr> cells = (cells h)(next_ref h := v), next_ref = Suc (next_ref h) \<rparr>)"

definition assign_in_place :: "nat \<Rightarrow> ndarray \<Rightarrow> store \<Rightarrow> store" where
  "assign_in_place r v h = h\<lparr> cells := (cells h)(r := v) \<rparr>"

definition get1 :: "store \<Rightarrow> nat \<Rightarrow> vec" where
  "get1 h r = (case cells h r of Arr1 v \<Rightarrow> v | Arr2 a \<Rightarrow> [])"

definition get2 :: "store \<Rightarrow> nat \<Rightarrow> array2" where
  "get2 h r = (case cells h r of Arr2 a \<Rightarrow> a | Arr1 v \<Rightarrow> [])"

text \<open>The variables of the worker: references into the store, and the history lists.\<close>

record obj_state =
  mem :: store
  r_positions :: nat
  r_velocities :: nat
  r_phases :: nat
  r_phase_velocities :: nat
  r_positions_history :: "nat list"
  r_phase_history :: "nat list"
  v_potential_energy_history :: "real list"
  v_kinetic_energy_history :: "real list"
  v_total_energy_history :: "real list"

text \<open>
  Source lines 37 to 52, given the arrays drawn: \<^verbatim>\<open>positions\<close>, \<^verbatim>\<open>velocities\<close>, \<^verbatim>\<open>phases\<close> and
  \<^verbatim>\<open>phase_velocities\<close> are four objects, and each history starts with a copy.
\<close>

definition obj_initial :: "array2 \<Rightarrow> vec \<Rightarrow> obj_state" where
  "obj_initial positions0 phases0 =
     (case alloc (Arr2 positions0) empty_store of (rp, h1) \<Rightarrow>
      case alloc (Arr2 (zeros_like positions0)) h1 of (rv, h2) \<Rightarrow>
      case alloc (Arr1 phases0) h2 of (rph, h3) \<Rightarrow>
      case alloc (Arr1 (replicate (length phases0) 0)) h3 of (rpv, h4) \<Rightarrow>
      case alloc (cells h4 rp) h4 of (rpc, h5) \<Rightarrow>
      case alloc (cells h5 rph) h5 of (rphc, h6) \<Rightarrow>
        \<lparr> mem = h6, r_positions = rp, r_velocities = rv, r_phases = rph,
          r_phase_velocities = rpv, r_positions_history = [rpc], r_phase_history = [rphc],
          v_potential_energy_history = [], v_kinetic_energy_history = [],
          v_total_energy_history = [] \<rparr>)"

text \<open>
  Source lines 85 to 87.  \<^verbatim>\<open>velocities\<close> is changed in place; \<^verbatim>\<open>new_positions\<close> and its
  copy are new objects, and the copy is appended to the history.  The result carries the
  reference held by \<^verbatim>\<open>new_positions\<close>.  (\<^verbatim>\<open>forces\<close> is read once and never stored, so only
  its value appears; the same holds of \<^verbatim>\<open>phase_diffs\<close> and \<^verbatim>\<open>phase_accelerations\<close> below.)
\<close>

definition obj_move :: "real \<Rightarrow> real \<Rightarrow> array2 \<Rightarrow> obj_state \<Rightarrow> nat \<times> obj_state" where
  "obj_move dt gamma forces s =
     (let h1 = assign_in_place (r_velocities s)
                 (Arr2 (map2 (map2 (\<lambda>v a. v + (a * dt - gamma * v)))
                          (get2 (mem s) (r_velocities s)) forces)) (mem s)
      in case alloc (Arr2 (map2 (map2 (\<lambda>p v. p + v * dt))
                             (get2 h1 (r_positions s)) (get2 h1 (r_velocities s)))) h1
         of (r_new_positions, h2) \<Rightarrow>
         case alloc (cells h2 r_new_positions) h2 of (r_copy, h3) \<Rightarrow>
           (r_new_positions,
            s\<lparr> mem := h3, r_positions_history := r_positions_history s @ [r_copy] \<rparr>))"

text \<open>
  Source lines 90 to 97.  \<^verbatim>\<open>phase_velocities\<close> is changed in place; \<^verbatim>\<open>new_phases\<close> and its
  copy are new objects.  The result carries the reference held by \<^verbatim>\<open>new_phases\<close>.
\<close>

definition obj_phase ::
  "array2 \<Rightarrow> real \<Rightarrow> real \<Rightarrow> real \<Rightarrow> vec \<Rightarrow> obj_state \<Rightarrow> nat \<times> obj_state" where
  "obj_phase adj_matrix dt gamma_theta K intrinsic_frequencies s =
     (let pd = phase_diffs adj_matrix (get1 (mem s) (r_phases s));
          phase_accelerations =
            map2 (\<lambda>(w, c) pv. w + K * c - gamma_theta * pv)
              (zip intrinsic_frequencies pd) (get1 (mem s) (r_phase_velocities s));
          h1 = assign_in_place (r_phase_velocities s)
                 (Arr1 (map2 (\<lambda>pv a. pv + a * dt)
                          (get1 (mem s) (r_phase_velocities s)) phase_accelerations)) (mem s)
      in case alloc (Arr1 (map2 (\<lambda>p pv. p + pv * dt)
                             (get1 h1 (r_phases s)) (get1 h1 (r_phase_velocities s)))) h1
         of (r_new_phases, h2) \<Rightarrow>
         case alloc (cells h2 r_new_phases) h2 of (r_copy, h3) \<Rightarrow>
           (r_new_phases,
            s\<lparr> mem := h3, r_phase_history := r_phase_history s @ [r_copy] \<rparr>))"

text \<open>
  The loop body, source lines 83 to 117.  Lines 116 and 117 make \<^verbatim>\<open>positions\<close> and
  \<^verbatim>\<open>phases\<close> refer to the new objects; they do not run when the loop stops.
\<close>

definition obj_step ::
  "array2 \<Rightarrow> real \<Rightarrow> real \<Rightarrow> real \<Rightarrow> real \<Rightarrow> real \<Rightarrow> vec \<Rightarrow> obj_state \<Rightarrow> error + (bool \<times> obj_state)" where
  "obj_step adj_matrix tol dt gamma gamma_theta K intrinsic_frequencies s =
     (case calculate_forces adj_matrix (get2 (mem s) (r_positions s)) of
        Inl e \<Rightarrow> Inl e
      | Inr forces \<Rightarrow>
         (case obj_move dt gamma forces s of (r_new_positions, s1) \<Rightarrow>
          case obj_phase adj_matrix dt gamma_theta K intrinsic_frequencies s1
          of (r_new_phases, s2) \<Rightarrow>
          let kinetic_energy =
                0.5 * sum_list (map (\<lambda>v. (vnorm v)\<^sup>2) (get2 (mem s2) (r_velocities s2)));
              potential_energy = compute_potential_energy adj_matrix (get2 (mem s2) r_new_positions);
              total_energy = kinetic_energy + potential_energy;
              s3 = s2\<lparr> v_kinetic_energy_history := v_kinetic_energy_history s2 @ [kinetic_energy],
                       v_potential_energy_history := v_potential_energy_history s2 @ [potential_energy],
                       v_total_energy_history := v_total_energy_history s2 @ [total_energy] \<rparr>
          in if total_movement (get2 (mem s3) r_new_positions) (get2 (mem s3) (r_positions s3)) < tol
             then Inr (True, s3)
             else Inr (False, s3\<lparr> r_positions := r_new_positions, r_phases := r_new_phases \<rparr>)))"

fun obj_loop ::
  "array2 \<Rightarrow> real \<Rightarrow> real \<Rightarrow> real \<Rightarrow> real \<Rightarrow> real \<Rightarrow> vec \<Rightarrow> nat \<Rightarrow> obj_state \<Rightarrow> error + obj_state" where
  "obj_loop adj_matrix tol dt gamma gamma_theta K freqs 0 s = Inr s"
| "obj_loop adj_matrix tol dt gamma gamma_theta K freqs (Suc n) s =
     (case obj_step adj_matrix tol dt gamma gamma_theta K freqs s of
        Inl e \<Rightarrow> Inl e
      | Inr (converged, s') \<Rightarrow>
          if converged then Inr s'
          else obj_loop adj_matrix tol dt gamma gamma_theta K freqs n s')"

text \<open>What the variables and the history lists hold when their references are followed.\<close>

definition obj_abs :: "obj_state \<Rightarrow> sim_state" where
  "obj_abs s =
     \<lparr> positions = get2 (mem s) (r_positions s),
       velocities = get2 (mem s) (r_velocities s),
       phases = get1 (mem s) (r_phases s),
       phase_velocities = get1 (mem s) (r_phase_velocities s),
       positions_history = map (get2 (mem s)) (r_positions_history s),
       phase_history = map (get1 (mem s)) (r_phase_history s),
       potential_energy_history = v_potential_energy_history s,
       kinetic_energy_history = v_kinetic_energy_history s,
       total_energy_history = v_total_energy_history s \<rparr>"

text \<open>
  The references of a state are in use, and the two objects that are changed in place
  are referred to by no other variable and by no history entry.
\<close>

definition obj_wf :: "obj_state \<Rightarrow> bool" where
  "obj_wf s \<longleftrightarrow>
     r_positions s < next_ref (mem s) \<and> r_velocities s < next_ref (mem s) \<and>
     r_phases s < next_ref (mem s) \<and> r_phase_velocities s < next_ref (mem s) \<and>
     (\<forall>r \<in> set (r_positions_history s) \<union> set (r_phase_history s).
        r < next_ref (mem s) \<and> r \<noteq> r_velocities s \<and> r \<noteq> r_phase_velocities s) \<and>
     r_velocities s \<noteq> r_positions s \<and> r_velocities s \<noteq> r_phases s \<and>
     r_velocities s \<noteq> r_phase_velocities s \<and>
     r_phase_velocities s \<noteq> r_positions s \<and> r_phase_velocities s \<noteq> r_phases s"

section \<open>Properties\<close>

subsection \<open>Facts about the force computation\<close>

lemma vnorm_vsub_self: "vnorm (vsub p p) = 0"
proof -
  have "map (\<lambda>x. x * x) (vsub p p) = replicate (length p) 0"
    by (induction p) (simp_all add: vsub_def)
  then show ?thesis by (simp add: vnorm_def sum_list_replicate)
qed

lemma force_on_all_close:
  assumes "\<forall>p \<in> set pos. vnorm (vsub p (pos ! i)) \<le> 1 / 1000000"
  shows "force_on adj_matrix pos i = Inl ValueError"
proof -
  define msk where "msk = map (\<lambda>d. d > 1 / 1000000) (map vnorm (map (\<lambda>p. vsub p (pos ! i)) pos))"
  have "\<forall>b \<in> set msk. \<not> b" using assms by (auto simp: msk_def)
  then have "masked msk ys = []" for ys :: "real list"
    by (auto simp: masked_def filter_empty_conv dest: set_zip_leftD)
  then show ?thesis unfolding force_on_def Let_def msk_def[symmetric] by simp
qed

lemma masked_index:
  assumes n: "length xs = n"
  shows "masked (map P [0..<n]) xs = map (\<lambda>j. xs ! j) (filter P [0..<n])"
proof -
  have z: "zip (map P [0..<n]) (map (\<lambda>j. xs ! j) [0..<n]) = map (\<lambda>j. (P j, xs ! j)) [0..<n]"
    by (simp add: zip_map_map zip_same_conv_map)
  have "map (\<lambda>j. xs ! j) [0..<n] = xs" using n map_nth[of xs] by simp
  with z have "zip (map P [0..<n]) xs = map (\<lambda>j. (P j, xs ! j)) [0..<n]" by simp
  then show ?thesis
    by (simp add: masked_def filter_map comp_def)
qed

lemma np_min_Inr: "xs \<noteq> [] \<Longrightarrow> \<exists>m. np_min xs = Inr m"
  by (cases xs) simp_all

lemma force_on_Inr:
  assumes len: "length pos = n" and row: "length (adj_matrix ! i) = n"
    and ex: "\<exists>j<n. vnorm (vsub (pos ! j) (pos ! i)) > 1 / 1000000"
  shows "force_on adj_matrix pos i =
           Inr (sum_axis0 (length (pos ! i))
             (map (\<lambda>j. map (\<lambda>x. adj_matrix ! i ! j * (x / vnorm (vsub (pos ! j) (pos ! i))))
                          (vsub (pos ! j) (pos ! i)))
                (filter (\<lambda>j. vnorm (vsub (pos ! j) (pos ! i)) > 1 / 1000000) [0..<n])))"
proof -
  define D where "D j = vnorm (vsub (pos ! j) (pos ! i))" for j
  define P where "P j \<longleftrightarrow> D j > 1 / 1000000" for j
  define delta where "delta = map (\<lambda>p. vsub p (pos ! i)) pos"
  define distances where "distances = map vnorm delta"
  define msk where "msk = map (\<lambda>d. d > 1 / 1000000) distances"
  have pos_eq: "pos = map (\<lambda>j. pos ! j) [0..<n]"
    using len map_nth[of pos] by simp
  have delta_eq: "delta = map (\<lambda>j. vsub (pos ! j) (pos ! i)) [0..<n]"
    unfolding delta_def by (subst pos_eq) (simp add: comp_def)
  have dist_eq: "distances = map D [0..<n]"
    unfolding distances_def delta_eq by (simp add: comp_def D_def)
  have msk_eq: "msk = map P [0..<n]"
    unfolding msk_def dist_eq by (simp add: comp_def P_def)
  have sel_dist: "masked msk distances = map D (filter P [0..<n])"
    unfolding msk_eq using masked_index[of distances n P] by (simp add: dist_eq)
  from ex obtain j where "j < n" "P j" by (auto simp: P_def D_def)
  then have "filter P [0..<n] \<noteq> []" by (auto simp: filter_empty_conv)
  then have "masked msk distances \<noteq> []" by (simp add: sel_dist)
  then obtain m where m: "np_min (masked msk distances) = Inr m"
    using np_min_Inr by blast
  define fl where "fl = max (1 / 1000000) m"
  define distances' where "distances' = map2 (\<lambda>b d. if b then d else fl) msk distances"
  have dist'_eq: "distances' = map (\<lambda>j. if P j then D j else fl) [0..<n]"
    unfolding distances'_def msk_eq dist_eq by (simp add: zip_map_map zip_same_conv_map comp_def)
  have sel_dist': "masked msk distances' = map D (filter P [0..<n])"
    unfolding msk_eq using masked_index[of distances' n P] by (simp add: dist'_eq)
  have sel_delta: "masked msk delta = map (\<lambda>j. vsub (pos ! j) (pos ! i)) (filter P [0..<n])"
    unfolding msk_eq using masked_index[of delta n P] by (simp add: delta_eq)
  have sel_adj: "masked msk (adj_matrix ! i) = map (\<lambda>j. adj_matrix ! i ! j) (filter P [0..<n])"
    unfolding msk_eq using masked_index[of "adj_matrix ! i" n P] row by simp
  have lenm: "length msk = n" by (simp add: msk_eq)
  have rows: "map2 (\<lambda>w (dl, d). map (\<lambda>x. w * (x / d)) dl) (masked msk (adj_matrix ! i))
                 (zip (masked msk delta) (masked msk distances'))
              = map (\<lambda>j. map (\<lambda>x. adj_matrix ! i ! j * (x / D j)) (vsub (pos ! j) (pos ! i)))
                  (filter P [0..<n])"
    unfolding sel_adj sel_delta sel_dist' by (simp add: zip_map_map zip_same_conv_map comp_def)
  have F: "force_on adj_matrix pos i =
          Inr (sum_axis0 (length (pos ! i))
            (map2 (\<lambda>w (dl, d). map (\<lambda>x. w * (x / d)) dl) (masked msk (adj_matrix ! i))
                 (zip (masked msk delta) (masked msk distances'))))"
    unfolding force_on_def Let_def delta_def[symmetric] distances_def[symmetric] msk_def[symmetric]
      distances'_def fl_def
    using m row lenm by simp
  have Pfun: "P = (\<lambda>j. vnorm (vsub (pos ! j) (pos ! i)) > 1 / 1000000)"
    by (simp add: fun_eq_iff P_def D_def)
  show ?thesis using F unfolding rows D_def Pfun .
qed

lemma sum_axis0_length:
  "\<forall>r \<in> set rows. length r = d \<Longrightarrow> length (sum_axis0 d rows) = d"
  by (induction rows) (simp_all add: sum_axis0_def)

lemma sum_axis0_nth:
  "\<forall>r \<in> set rows. length r = d \<Longrightarrow> k < d \<Longrightarrow>
     sum_axis0 d rows ! k = sum_list (map (\<lambda>r. r ! k) rows)"
proof (induction rows)
  case Nil
  then show ?case by (simp add: sum_axis0_def)
next
  case (Cons r rows)
  have l: "length (sum_axis0 d rows) = d" using Cons.prems by (simp add: sum_axis0_length)
  have "sum_axis0 d (r # rows) = map2 (\<lambda>x y. x + y) r (sum_axis0 d rows)"
    by (simp add: sum_axis0_def)
  then show ?case using Cons l by simp
qed

lemma forces_loop_Inr:
  assumes "\<forall>i \<in> set is. \<exists>f. force_on adj_matrix pos i = Inr f"
  shows "forces_loop adj_matrix pos is forces =
           Inr (fold (\<lambda>i F. F[i := projr (force_on adj_matrix pos i)]) is forces)"
  using assms by (induction "is" arbitrary: forces) auto

lemma fold_update_upt:
  "length F = n \<Longrightarrow> m \<le> n \<Longrightarrow>
     fold (\<lambda>i F. F[i := g i]) [0..<m] F = map g [0..<m] @ drop m F"
proof (induction m)
  case 0
  then show ?case by simp
next
  case (Suc m)
  then have "fold (\<lambda>i F. F[i := g i]) [0..<Suc m] F = (map g [0..<m] @ drop m F)[m := g m]"
    by simp
  also have "\<dots> = map g [0..<m] @ (drop m F)[0 := g m]"
    by (simp add: list_update_append)
  also have "(drop m F)[0 := g m] = g m # drop (Suc m) F"
    using Suc.prems by (metis Cons_nth_drop_Suc Suc_le_lessD list_update_code(2))
  finally show ?case by simp
qed

lemma calculate_forces_Inr:
  assumes len: "length pos = length adj_matrix"
    and ok: "\<forall>i < length adj_matrix. \<exists>f. force_on adj_matrix pos i = Inr f"
  shows "calculate_forces adj_matrix pos =
           Inr (map (\<lambda>i. projr (force_on adj_matrix pos i)) [0..<length adj_matrix])"
proof -
  have "forces_loop adj_matrix pos [0..<length adj_matrix] (zeros_like pos) =
          Inr (fold (\<lambda>i F. F[i := projr (force_on adj_matrix pos i)]) [0..<length adj_matrix] (zeros_like pos))"
    using ok by (intro forces_loop_Inr) simp
  moreover have "length (zeros_like pos) = length adj_matrix"
    using len by (simp add: zeros_like_def)
  ultimately show ?thesis
    by (simp add: calculate_forces_def fold_update_upt)
qed

lemma forces_loop_Inl:
  "i \<in> set is \<Longrightarrow> force_on adj_matrix pos i = Inl e \<Longrightarrow>
     \<exists>e'. forces_loop adj_matrix pos is forces = Inl e'"
  by (induction "is" arbitrary: forces) (auto split: sum.splits)

lemma vsub_nth: "k < length a \<Longrightarrow> k < length b \<Longrightarrow> vsub a b ! k = a ! k - b ! k"
  by (simp add: vsub_def)

lemma vsub_length: "length (vsub a b) = min (length a) (length b)"
  by (simp add: vsub_def)

lemma force_on_far:
  assumes len: "length pos = n" and row: "length (adj_matrix ! i) = n"
    and dims: "\<forall>j<n. length (pos ! j) = d"
    and i: "i < n" and two: "2 \<le> n"
    and far: "\<forall>j<n. j \<noteq> i \<longrightarrow> vnorm (vsub (pos ! j) (pos ! i)) > 1 / 1000000"
  shows "\<exists>f. force_on adj_matrix pos i = Inr f \<and> length f = d \<and>
           (\<forall>k<d. f ! k = sum_list (map (\<lambda>j. adj_matrix ! i ! j *
                ((pos ! j ! k - pos ! i ! k) / max (vnorm (vsub (pos ! j) (pos ! i))) (1 / 1000000)))
                (filter (\<lambda>j. j \<noteq> i) [0..<n])))"
proof -
  define D where "D j = vnorm (vsub (pos ! j) (pos ! i))" for j
  obtain j where j: "j < n" "j \<noteq> i"
  proof (cases "i = 0")
    case True
    with two have "1 < n" "1 \<noteq> i" by auto
    then show ?thesis using that by blast
  next
    case False
    with two have "0 < n" "0 \<noteq> i" by auto
    then show ?thesis using that by blast
  qed
  with far have ex: "\<exists>j<n. vnorm (vsub (pos ! j) (pos ! i)) > 1 / 1000000" by blast
  have sel: "filter (\<lambda>j. vnorm (vsub (pos ! j) (pos ! i)) > 1 / 1000000) [0..<n]
             = filter (\<lambda>j. j \<noteq> i) [0..<n]"
  proof (rule filter_cong[OF refl])
    fix j assume "j \<in> set [0..<n]"
    then have "j < n" by simp
    then show "(vnorm (vsub (pos ! j) (pos ! i)) > 1 / 1000000) = (j \<noteq> i)"
      using far by (auto simp: vnorm_vsub_self)
  qed
  define rows where "rows = map (\<lambda>j. map (\<lambda>x. adj_matrix ! i ! j * (x / D j)) (vsub (pos ! j) (pos ! i)))
                (filter (\<lambda>j. j \<noteq> i) [0..<n])"
  have F: "force_on adj_matrix pos i = Inr (sum_axis0 d rows)"
    using force_on_Inr[OF len row ex] dims i unfolding sel rows_def D_def by simp
  have rl: "\<forall>r \<in> set rows. length r = d"
    using dims i by (auto simp: rows_def vsub_length)
  have comp: "sum_axis0 d rows ! k = sum_list (map (\<lambda>j. adj_matrix ! i ! j *
                ((pos ! j ! k - pos ! i ! k) / max (D j) (1 / 1000000)))
                (filter (\<lambda>j. j \<noteq> i) [0..<n]))" if k: "k < d" for k
  proof -
    have "sum_axis0 d rows ! k = sum_list (map (\<lambda>r. r ! k) rows)"
      using sum_axis0_nth[OF rl k] .
    also have "map (\<lambda>r. r ! k) rows = map (\<lambda>j. adj_matrix ! i ! j *
                ((pos ! j ! k - pos ! i ! k) / max (D j) (1 / 1000000)))
                (filter (\<lambda>j. j \<noteq> i) [0..<n])"
      unfolding rows_def map_map
    proof (rule map_cong[OF refl])
      fix j assume "j \<in> set (filter (\<lambda>j. j \<noteq> i) [0..<n])"
      then have jn: "j < n" "j \<noteq> i" by auto
      then have "D j > 1 / 1000000" using far by (simp add: D_def)
      then have m: "max (D j) (1 / 1000000) = D j" by simp
      have "k < length (vsub (pos ! j) (pos ! i))"
        using dims jn i k by (simp add: vsub_length)
      then show "((\<lambda>r. r ! k) \<circ> (\<lambda>j. map (\<lambda>x. adj_matrix ! i ! j * (x / D j)) (vsub (pos ! j) (pos ! i)))) j
          = adj_matrix ! i ! j * ((pos ! j ! k - pos ! i ! k) / max (D j) (1 / 1000000))"
        using dims jn i k by (simp add: m vsub_nth vsub_length)
    qed
    finally show ?thesis .
  qed
  show ?thesis
    using F comp sum_axis0_length[OF rl] unfolding D_def by auto
qed


lemma sqrt_25: "sqrt 25 = 5"
  by (rule real_sqrt_unique) simp_all

lemma vnorm_vsub_sym: "length a = length b \<Longrightarrow> vnorm (vsub a b) = vnorm (vsub b a)"
proof -
  assume "length a = length b"
  then have "map (\<lambda>x. x * x) (vsub a b) = map (\<lambda>x. x * x) (vsub b a)"
    by (induction a b rule: list_induct2) (simp_all add: vsub_def algebra_simps)
  then show ?thesis by (simp add: vnorm_def)
qed

lemma sum_axis0_single: "length r = d \<Longrightarrow> sum_axis0 d [r] = r"
  by (simp add: sum_axis0_def list_eq_iff_nth_eq)

lemma calculate_forces_two_nodes:
  assumes l: "length p0 = length p1" and far: "vnorm (vsub p1 p0) > 1 / 1000000"
  shows "calculate_forces [[a, w], [w, b]] [p0, p1] =
           Inr [map (\<lambda>x. w * (x / max (vnorm (vsub p1 p0)) (1 / 1000000))) (vsub p1 p0),
                map uminus (map (\<lambda>x. w * (x / max (vnorm (vsub p1 p0)) (1 / 1000000))) (vsub p1 p0))]"
proof -
  have neg: "map (\<lambda>x. w * (x / c)) (vsub p0 p1) = map uminus (map (\<lambda>x. w * (x / c)) (vsub p1 p0))" for c
    using l by (induction p0 p1 rule: list_induct2) (simp_all add: vsub_def algebra_simps diff_divide_distrib)
  have far': "vnorm (vsub p0 p1) > 1 / 1000000" using far l by (simp add: vnorm_vsub_sym)
  have m: "max (vnorm (vsub p1 p0)) (1 / 1000000) = vnorm (vsub p1 p0)" using far by simp
  have s: "vnorm (vsub p0 p1) = vnorm (vsub p1 p0)" using l by (simp add: vnorm_vsub_sym)
  have f0: "force_on [[a, w], [w, b]] [p0, p1] 0 =
              Inr (map (\<lambda>x. w * (x / vnorm (vsub p1 p0))) (vsub p1 p0))"
    using far l by (simp add: force_on_def masked_def vnorm_vsub_self sum_axis0_single vsub_length)
  have f1: "force_on [[a, w], [w, b]] [p0, p1] 1 =
              Inr (map (\<lambda>x. w * (x / vnorm (vsub p0 p1))) (vsub p0 p1))"
    using far' l by (simp add: force_on_def masked_def vnorm_vsub_self sum_axis0_single vsub_length)
  show ?thesis
    using f0 f1 neg[of "vnorm (vsub p1 p0)"] by (simp add: calculate_forces_def upt_rec zeros_like_def m s)
qed

lemma np_min_Inr_iff: "np_min xs = Inr m \<Longrightarrow> xs \<noteq> []"
  by (cases xs) simp_all

lemma force_on_Inr_D:
  assumes "force_on adj_matrix pos i = Inr f"
  shows "length (adj_matrix ! i) = length pos"
    and "\<exists>j<length pos. vnorm (vsub (pos ! j) (pos ! i)) > 1 / 1000000"
proof -
  define ds where "ds = map vnorm (map (\<lambda>p. vsub p (pos ! i)) pos)"
  define msk where "msk = map (\<lambda>d. d > 1 / 1000000) ds"
  from assms obtain m where m: "np_min (masked msk ds) = Inr m"
    unfolding force_on_def Let_def ds_def[symmetric] msk_def[symmetric]
    by (auto split: sum.splits)
  from assms m show "length (adj_matrix ! i) = length pos"
    unfolding force_on_def Let_def ds_def[symmetric] msk_def[symmetric]
    by (auto split: if_splits simp: msk_def ds_def)
  from m have "masked msk ds \<noteq> []" by (rule np_min_Inr_iff)
  then obtain b x where "(b, x) \<in> set (zip msk ds)" "b"
    by (auto simp: masked_def filter_empty_conv)
  then obtain j where "j < length pos" "msk ! j"
    by (auto simp: in_set_zip msk_def ds_def)
  then show "\<exists>j<length pos. vnorm (vsub (pos ! j) (pos ! i)) > 1 / 1000000"
    by (auto simp: msk_def ds_def)
qed

lemma forces_loop_all_Inr:
  assumes "forces_loop adj_matrix pos is forces = Inr F" and "i \<in> set is"
  shows "\<exists>f. force_on adj_matrix pos i = Inr f"
proof (cases "force_on adj_matrix pos i")
  case (Inl e)
  then show ?thesis using forces_loop_Inl[OF assms(2) Inl, of forces] assms(1) by auto
next
  case (Inr f)
  then show ?thesis by blast
qed

lemma calculate_forces_rows:
  assumes c: "calculate_forces adj_matrix pos = Inr F" and len: "length pos = length adj_matrix"
  shows "length F = length adj_matrix"
    and "\<forall>i<length adj_matrix. force_on adj_matrix pos i = Inr (F ! i)"
proof -
  have ok: "\<forall>i<length adj_matrix. \<exists>f. force_on adj_matrix pos i = Inr f"
    using forces_loop_all_Inr c unfolding calculate_forces_def by fastforce
  have F: "F = map (\<lambda>i. projr (force_on adj_matrix pos i)) [0..<length adj_matrix]"
    using calculate_forces_Inr[OF len ok] c by simp
  show "length F = length adj_matrix" by (simp add: F)
  show "\<forall>i<length adj_matrix. force_on adj_matrix pos i = Inr (F ! i)"
    using ok by (auto simp: F)
qed

lemma calculate_forces_shape:
  assumes c: "calculate_forces adj_matrix pos = Inr F" and len: "length pos = length adj_matrix"
    and dims: "\<forall>j<length adj_matrix. length (pos ! j) = d"
  shows "length F = length adj_matrix \<and> (\<forall>i<length adj_matrix. length (F ! i) = d)"
proof (intro conjI allI impI)
  show "length F = length adj_matrix" using calculate_forces_rows(1)[OF c len] .
next
  fix i assume i: "i < length adj_matrix"
  let ?n = "length adj_matrix"
  have f: "force_on adj_matrix pos i = Inr (F ! i)"
    using calculate_forces_rows(2)[OF c len] i by blast
  have row: "length (adj_matrix ! i) = ?n" using force_on_Inr_D(1)[OF f] len by simp
  have ex: "\<exists>j<?n. vnorm (vsub (pos ! j) (pos ! i)) > 1 / 1000000"
    using force_on_Inr_D(2)[OF f] len by simp
  define rows where "rows = map (\<lambda>j. map (\<lambda>x. adj_matrix ! i ! j * (x / vnorm (vsub (pos ! j) (pos ! i))))
                          (vsub (pos ! j) (pos ! i)))
                (filter (\<lambda>j. vnorm (vsub (pos ! j) (pos ! i)) > 1 / 1000000) [0..<?n])"
  have "F ! i = sum_axis0 (length (pos ! i)) rows"
    using force_on_Inr[OF len row ex] f unfolding rows_def by simp
  moreover have "\<forall>r \<in> set rows. length r = d"
    using dims i by (auto simp: rows_def vsub_length)
  ultimately show "length (F ! i) = d"
    using dims i by (simp add: sum_axis0_length)
qed

lemma sim_step_fields:
  assumes "sim_step adj_matrix tol dt gamma gamma_theta K freqs s = Inr (b, s')"
  shows "\<exists>forces. calculate_forces adj_matrix (positions s) = Inr forces \<and>
    velocities s' = map2 (map2 (\<lambda>v a. v + (a * dt - gamma * v))) (velocities s) forces \<and>
    positions_history s' = positions_history s @
       [map2 (map2 (\<lambda>p v. p + v * dt)) (positions s) (velocities s')] \<and>
    phase_velocities s' = map2 (\<lambda>pv a. pv + a * dt) (phase_velocities s)
       (map2 (\<lambda>(w, c) pv. w + K * c - gamma_theta * pv)
          (zip freqs (phase_diffs adj_matrix (phases s))) (phase_velocities s)) \<and>
    phase_history s' = phase_history s @
       [map2 (\<lambda>p pv. p + pv * dt) (phases s) (phase_velocities s')] \<and>
    kinetic_energy_history s' = kinetic_energy_history s @
       [0.5 * sum_list (map (\<lambda>v. (vnorm v)\<^sup>2) (velocities s'))] \<and>
    potential_energy_history s' = potential_energy_history s @
       [compute_potential_energy adj_matrix (last (positions_history s'))] \<and>
    total_energy_history s' = total_energy_history s @
       [last (kinetic_energy_history s') + last (potential_energy_history s')] \<and>
    (b \<longleftrightarrow> total_movement (last (positions_history s')) (positions s) < tol) \<and>
    positions s' = (if b then positions s else last (positions_history s')) \<and>
    phases s' = (if b then phases s else last (phase_history s'))"
  using assms unfolding sim_step_def Let_def
  by (auto split: sum.splits if_splits)

lemma phase_diffs_nth:
  assumes "i < length adj_matrix" "length (adj_matrix ! i) = length ph"
  shows "phase_diffs adj_matrix ph ! i =
           sum_list (map (\<lambda>j. adj_matrix ! i ! j * sin (ph ! j - ph ! i)) [0..<length ph])"
proof -
  have "map2 (\<lambda>a p. a * sin (p - ph ! i)) (adj_matrix ! i) ph =
          map (\<lambda>j. adj_matrix ! i ! j * sin (ph ! j - ph ! i)) [0..<length ph]"
    using assms(2) by (intro nth_equalityI) simp_all
  then show ?thesis using assms(1) by (simp add: phase_diffs_def)
qed

lemma sim_step_returns:
  "calculate_forces adj_matrix (positions s) = Inr forces \<Longrightarrow>
     \<exists>b s'. sim_step adj_matrix tol dt gamma gamma_theta K freqs s = Inr (b, s')"
  by (auto simp: sim_step_def Let_def)

lemma vnorm_vsub_commute: "vnorm (vsub a b) = vnorm (vsub b a)"
proof -
  have "map (\<lambda>x. x * x) (vsub a b) = map (\<lambda>x. x * x) (vsub b a)"
  proof (induction a arbitrary: b)
    case Nil
    then show ?case by (simp add: vsub_def)
  next
    case (Cons x a)
    then show ?case by (cases b) (simp_all add: vsub_def algebra_simps)
  qed
  then show ?thesis by (simp add: vnorm_def)
qed

lemma sum_list_upt_sum: "sum_list (map g [0..<n]) = (\<Sum>j<n. g j)"
  by (simp add: interv_sum_list_conv_sum_set_nat atLeast0LessThan)

lemma sum_list_concat_upt:
  "sum_list (concat (map (\<lambda>i. map (f i) [0..<i]) [0..<n])) = (\<Sum>i<n. \<Sum>j<i. f i j)"
  by (induction n) (simp_all add: sum_list_upt_sum)

lemma compute_potential_energy_pairs:
  assumes sym: "\<forall>i<length adj_matrix. \<forall>j<length adj_matrix. adj_matrix ! i ! j = adj_matrix ! j ! i"
  shows "compute_potential_energy adj_matrix P =
           0.5 * (\<Sum>j<length adj_matrix. \<Sum>i<j.
                    adj_matrix ! i ! j * (max (vnorm (vsub (P ! i) (P ! j))) (1 / 1000000))\<^sup>2)"
proof -
  have "compute_potential_energy adj_matrix P =
          0.5 * (\<Sum>j<length adj_matrix. \<Sum>i<j.
                    adj_matrix ! j ! i * (max (vnorm (vsub (P ! j) (P ! i))) (1 / 1000000))\<^sup>2)"
    unfolding compute_potential_energy_def by (simp only: sum_list_concat_upt)
  also have "(\<Sum>j<length adj_matrix. \<Sum>i<j.
                    adj_matrix ! j ! i * (max (vnorm (vsub (P ! j) (P ! i))) (1 / 1000000))\<^sup>2)
           = (\<Sum>j<length adj_matrix. \<Sum>i<j.
                    adj_matrix ! i ! j * (max (vnorm (vsub (P ! i) (P ! j))) (1 / 1000000))\<^sup>2)"
    using sym by (intro sum.cong refl) (simp add: vnorm_vsub_commute[of "P ! _" "P ! _"])
  finally show ?thesis .
qed

lemma compute_potential_energy_nonneg:
  assumes "\<forall>i<length adj_matrix. \<forall>j<length adj_matrix. 0 \<le> adj_matrix ! i ! j"
  shows "0 \<le> compute_potential_energy adj_matrix P"
proof -
  have "0 \<le> (\<Sum>i<length adj_matrix. \<Sum>j<i.
                    adj_matrix ! i ! j * (max (vnorm (vsub (P ! i) (P ! j))) (1 / 1000000))\<^sup>2)"
    using assms by (intro sum_nonneg mult_nonneg_nonneg) auto
  then show ?thesis
    unfolding compute_potential_energy_def sum_list_concat_upt by simp
qed

lemma kinetic_sum: "sum_list (map (\<lambda>v. (vnorm v)\<^sup>2) V) = (\<Sum>i<length V. (vnorm (V ! i))\<^sup>2)"
  by (simp add: sum_list_sum_nth atLeast0LessThan)

lemma sim_loop_rule:
  assumes "sim_loop adj_matrix tol dt gamma gamma_theta K freqs n s = Inr s'"
    and "I s"
    and step: "\<And>s b s1. I s \<Longrightarrow> sim_step adj_matrix tol dt gamma gamma_theta K freqs s = Inr (b, s1)
                  \<Longrightarrow> Q s1 \<and> (\<not> b \<longrightarrow> I s1)"
    and fin: "\<And>s. I s \<Longrightarrow> Q s"
  shows "Q s'"
  using assms(1,2)
proof (induction n arbitrary: s)
  case 0
  then show ?case using fin by simp
next
  case (Suc n)
  from Suc.prems(1) obtain b s1 where
    st: "sim_step adj_matrix tol dt gamma gamma_theta K freqs s = Inr (b, s1)"
    by (auto split: sum.splits)
  show ?case
  proof (cases b)
    case True
    then have "s' = s1" using Suc.prems(1) st by simp
    then show ?thesis using step[OF Suc.prems(2) st] by simp
  next
    case False
    then have "sim_loop adj_matrix tol dt gamma gamma_theta K freqs n s1 = Inr s'"
      using Suc.prems(1) st by simp
    moreover have "I s1" using step[OF Suc.prems(2) st] False by simp
    ultimately show ?thesis by (rule Suc.IH)
  qed
qed

lemma sim_step_appends:
  assumes "sim_step adj_matrix tol dt gamma gamma_theta K freqs s = Inr (b, s1)"
  shows "\<exists>np nph pe ke te.
           positions_history s1 = positions_history s @ [np] \<and>
           phase_history s1 = phase_history s @ [nph] \<and>
           potential_energy_history s1 = potential_energy_history s @ [pe] \<and>
           kinetic_energy_history s1 = kinetic_energy_history s @ [ke] \<and>
           total_energy_history s1 = total_energy_history s @ [te] \<and>
           (b \<longleftrightarrow> total_movement np (positions s) < tol) \<and>
           positions s1 = (if b then positions s else np) \<and>
           phases s1 = (if b then phases s else nph)"
proof -
  from sim_step_fields[OF assms] obtain np nph pe ke te where
    1: "positions_history s1 = positions_history s @ [np]" and
    2: "phase_history s1 = phase_history s @ [nph]" and
    3: "potential_energy_history s1 = potential_energy_history s @ [pe]" and
    4: "kinetic_energy_history s1 = kinetic_energy_history s @ [ke]" and
    5: "total_energy_history s1 = total_energy_history s @ [te]" and
    6: "b \<longleftrightarrow> total_movement (last (positions_history s1)) (positions s) < tol" and
    7: "positions s1 = (if b then positions s else last (positions_history s1))" and
    8: "phases s1 = (if b then phases s else last (phase_history s1))"
    by blast
  have l: "last (positions_history s1) = np" "last (phase_history s1) = nph"
    by (simp_all add: 1 2)
  show ?thesis
    using 1 2 3 4 5 6 7 8 unfolding l by blast
qed

lemma sim_loop_lengths:
  assumes "sim_loop adj_matrix tol dt gamma gamma_theta K freqs n s = Inr s'"
    and "length (positions_history s) = length (total_energy_history s) + 1"
    and "length (phase_history s) = length (total_energy_history s) + 1"
    and "length (potential_energy_history s) = length (total_energy_history s)"
    and "length (kinetic_energy_history s) = length (total_energy_history s)"
    and "positions s = last (positions_history s)"
    and "\<forall>t<length (total_energy_history s).
           \<not> total_movement (positions_history s ! (t + 1)) (positions_history s ! t) < tol"
  shows "length (positions_history s') = length (total_energy_history s') + 1 \<and>
         length (phase_history s') = length (total_energy_history s') + 1 \<and>
         length (potential_energy_history s') = length (total_energy_history s') \<and>
         length (kinetic_energy_history s') = length (total_energy_history s') \<and>
         length (total_energy_history s') \<le> length (total_energy_history s) + n \<and>
         (\<forall>t<length (total_energy_history s').
            total_movement (positions_history s' ! (t + 1)) (positions_history s' ! t) < tol
              \<longrightarrow> length (total_energy_history s') = t + 1) \<and>
         ((\<forall>t<length (total_energy_history s').
            \<not> total_movement (positions_history s' ! (t + 1)) (positions_history s' ! t) < tol)
              \<longrightarrow> length (total_energy_history s') = length (total_energy_history s) + n)"
  using assms
proof (induction n arbitrary: s)
  case 0
  then show ?case by auto
next
  case (Suc n)
  let ?m = "length (total_energy_history s)"
  from Suc.prems(1) obtain b s1 where
    st: "sim_step adj_matrix tol dt gamma gamma_theta K freqs s = Inr (b, s1)"
    by (auto split: sum.splits)
  from sim_step_appends[OF st] obtain np where
    h: "positions_history s1 = positions_history s @ [np]" and
    hp: "\<exists>x. phase_history s1 = phase_history s @ [x]" and
    k: "\<exists>x. kinetic_energy_history s1 = kinetic_energy_history s @ [x]" and
    p: "\<exists>x. potential_energy_history s1 = potential_energy_history s @ [x]" and
    e: "\<exists>x. total_energy_history s1 = total_energy_history s @ [x]" and
    b: "b \<longleftrightarrow> total_movement np (positions s) < tol" and
    nb: "positions s1 = (if b then positions s else np)"
    by blast
  have np: "last (positions_history s1) = np" by (simp add: h)
  have l1: "length (total_energy_history s1) = ?m + 1" using e by auto
  have lens1: "length (positions_history s1) = length (total_energy_history s1) + 1"
    "length (phase_history s1) = length (total_energy_history s1) + 1"
    "length (potential_energy_history s1) = length (total_energy_history s1)"
    "length (kinetic_energy_history s1) = length (total_energy_history s1)"
    using Suc.prems(2-5) h hp k p e by auto
  have "positions_history s \<noteq> []" using Suc.prems(2) by auto
  then have "last (positions_history s) = positions_history s ! ?m"
    using Suc.prems(2) by (simp add: last_conv_nth)
  then have at_m: "positions_history s1 ! ?m = positions s"
    using Suc.prems(2,6) by (simp add: h nth_append)
  have at_m1: "positions_history s1 ! (?m + 1) = np"
    using Suc.prems(2) by (simp add: h nth_append)
  have old: "positions_history s1 ! (t + 1) = positions_history s ! (t + 1) \<and>
             positions_history s1 ! t = positions_history s ! t" if "t < ?m" for t
    using that Suc.prems(2) by (simp add: h nth_append)
  have before: "\<not> total_movement (positions_history s1 ! (t + 1)) (positions_history s1 ! t) < tol"
    if "t < ?m" for t
    using that old Suc.prems(7) by simp
  have now: "total_movement (positions_history s1 ! (?m + 1)) (positions_history s1 ! ?m) < tol \<longleftrightarrow> b"
    using at_m at_m1 b by simp
  show ?case
  proof (cases b)
    case True
    then have s': "s' = s1" using Suc.prems(1) st by simp
    have "\<forall>t<length (total_energy_history s1).
            total_movement (positions_history s1 ! (t + 1)) (positions_history s1 ! t) < tol
              \<longrightarrow> length (total_energy_history s1) = t + 1"
      using before l1 by (auto simp: less_Suc_eq)
    moreover have "\<not> (\<forall>t<length (total_energy_history s1).
            \<not> total_movement (positions_history s1 ! (t + 1)) (positions_history s1 ! t) < tol)"
      using now True l1 by auto
    ultimately show ?thesis unfolding s' using lens1 l1 by auto
  next
    case False
    then have loop: "sim_loop adj_matrix tol dt gamma gamma_theta K freqs n s1 = Inr s'"
      using Suc.prems(1) st by simp
    have head: "positions s1 = last (positions_history s1)" using nb False np by simp
    have none: "\<forall>t<length (total_energy_history s1).
           \<not> total_movement (positions_history s1 ! (t + 1)) (positions_history s1 ! t) < tol"
      using before now False l1 by (auto simp: less_Suc_eq)
    from Suc.IH[OF loop lens1 head none] show ?thesis using l1 by auto
  qed
qed

lemma simulate_lengths:
  assumes run: "simulate adj_matrix iterations tol dt gamma gamma_theta K positions0 phases0 freqs
                  = Inr (ph, phh, pe, ke, te)"
  shows "length ph = length te + 1 \<and> length phh = length te + 1 \<and>
         length pe = length te \<and> length ke = length te \<and>
         length te \<le> nat iterations \<and>
         (\<forall>t<length te. total_movement (ph ! (t + 1)) (ph ! t) < tol \<longrightarrow> length te = t + 1) \<and>
         ((\<forall>t<length te. \<not> total_movement (ph ! (t + 1)) (ph ! t) < tol)
             \<longrightarrow> length te = nat iterations)"
proof -
  from run obtain s' where
    loop: "sim_loop adj_matrix tol dt gamma gamma_theta K freqs (nat iterations)
             (initial_state positions0 phases0) = Inr s'"
    and res: "result_of s' = (ph, phh, pe, ke, te)"
    by (auto simp: simulate_def split: sum.splits)
  have r: "positions_history s' = ph" "phase_history s' = phh" "potential_energy_history s' = pe"
    "kinetic_energy_history s' = ke" "total_energy_history s' = te"
    using res by (simp_all add: result_of_def)
  show ?thesis
    using sim_loop_lengths[OF loop] unfolding r by (simp add: initial_state_def)
qed

lemma worker_simulate:
  "\<exists>positions0 phases0 freqs.
     HONE_worker_with_damped_kuramoto gen adj_matrix dim' iterations tol seed dt gamma gamma_theta K
       = simulate adj_matrix iterations tol dt gamma gamma_theta K positions0 phases0 freqs"
  by (auto simp: HONE_worker_with_damped_kuramoto_def Let_def split: prod.splits)

lemma total_movement_same: "total_movement P P = 0"
proof -
  have "map2 (\<lambda>a b. vnorm (vsub a b)) P P = replicate (length P) 0"
    by (induction P) (simp_all add: vnorm_vsub_self)
  then show ?thesis by (simp add: total_movement_def sum_list_replicate)
qed

lemma phase_diffs_length: "length (phase_diffs adj_matrix ph) = length adj_matrix"
  by (simp add: phase_diffs_def)

lemma calculate_forces_zero_pair:
  "calculate_forces [[0, 0], [0, 0]] [[0, 0], [3, 4]] = Inr [[0, 0], [0, 0]]"
  using calculate_forces_two_nodes[of "[0, 0]" "[3, 4]" 0 0 0]
  by (simp add: vnorm_def vsub_def sqrt_25)

lemma sum_axis0_zero_rows:
  "\<forall>r \<in> set rows. r = replicate d 0 \<Longrightarrow> sum_axis0 d rows = replicate d 0"
proof (induction rows)
  case Nil
  then show ?case by (simp add: sum_axis0_def)
next
  case (Cons r rows)
  then have ih: "sum_axis0 d rows = replicate d 0" by simp
  have e: "sum_axis0 d (x # rows) = map2 (\<lambda>x y. x + y) x (sum_axis0 d rows)" for x
    by (simp add: sum_axis0_def)
  have r: "r = replicate d 0" using Cons.prems by simp
  show ?case unfolding r e ih by (simp add: list_eq_iff_nth_eq)
qed

lemma force_on_zero_adjacency:
  assumes zero: "\<forall>row \<in> set adj_matrix. \<forall>x \<in> set row. x = 0"
    and f: "force_on adj_matrix pos i = Inr f"
    and i: "i < length adj_matrix" and len: "length pos = length adj_matrix"
    and dims: "\<forall>j<length adj_matrix. length (pos ! j) = d"
  shows "f = replicate d 0"
proof -
  let ?n = "length adj_matrix"
  have row: "length (adj_matrix ! i) = ?n" using force_on_Inr_D(1)[OF f] len by simp
  have ex: "\<exists>j<?n. vnorm (vsub (pos ! j) (pos ! i)) > 1 / 1000000"
    using force_on_Inr_D(2)[OF f] len by simp
  define rows where "rows = map (\<lambda>j. map (\<lambda>x. adj_matrix ! i ! j * (x / vnorm (vsub (pos ! j) (pos ! i))))
                          (vsub (pos ! j) (pos ! i)))
                (filter (\<lambda>j. vnorm (vsub (pos ! j) (pos ! i)) > 1 / 1000000) [0..<?n])"
  have F: "f = sum_axis0 d rows"
    using force_on_Inr[OF len row ex] f dims i unfolding rows_def by simp
  have z: "adj_matrix ! i ! j = 0" if "j < ?n" for j
    using zero i row that by (metis nth_mem)
  have "\<forall>r \<in> set rows. r = replicate d 0"
  proof
    fix r assume "r \<in> set rows"
    then obtain j where j: "j < ?n"
      and r: "r = map (\<lambda>x. adj_matrix ! i ! j * (x / vnorm (vsub (pos ! j) (pos ! i))))
                          (vsub (pos ! j) (pos ! i))"
      by (auto simp: rows_def)
    have "length (vsub (pos ! j) (pos ! i)) = d" using dims i j by (simp add: vsub_length)
    then show "r = replicate d 0"
      unfolding r z[OF j] by (simp add: list_eq_iff_nth_eq)
  qed
  then show ?thesis unfolding F by (rule sum_axis0_zero_rows)
qed

lemma calculate_forces_zero_adjacency:
  assumes zero: "\<forall>row \<in> set adj_matrix. \<forall>x \<in> set row. x = 0"
    and c: "calculate_forces adj_matrix pos = Inr F"
    and len: "length pos = length adj_matrix"
    and dims: "\<forall>j<length adj_matrix. length (pos ! j) = d"
  shows "F = replicate (length adj_matrix) (replicate d 0)"
proof (rule nth_equalityI)
  show "length F = length (replicate (length adj_matrix) (replicate d (0::real)))"
    using calculate_forces_rows(1)[OF c len] by simp
next
  fix i assume "i < length F"
  then have i: "i < length adj_matrix" using calculate_forces_rows(1)[OF c len] by simp
  then have "force_on adj_matrix pos i = Inr (F ! i)"
    using calculate_forces_rows(2)[OF c len] by blast
  from force_on_zero_adjacency[OF zero this i len dims] i
  show "F ! i = replicate (length adj_matrix) (replicate d 0) ! i" by simp
qed

lemma sum_list_zeros: "\<forall>x \<in> set xs. x = 0 \<Longrightarrow> sum_list xs = (0 :: real)"
  by (induction xs) auto

lemma phase_diffs_zero_adjacency:
  assumes zero: "\<forall>row \<in> set adj_matrix. \<forall>x \<in> set row. x = 0"
  shows "phase_diffs adj_matrix ph = replicate (length adj_matrix) 0"
proof -
  have z: "sum_list (map2 (\<lambda>a p. a * sin (p - ph ! i)) (adj_matrix ! i) ph) = 0"
    if "i < length adj_matrix" for i
  proof (rule sum_list_zeros, rule ballI)
    fix y assume "y \<in> set (map2 (\<lambda>a p. a * sin (p - ph ! i)) (adj_matrix ! i) ph)"
    then obtain a p where ap: "(a, p) \<in> set (zip (adj_matrix ! i) ph)"
      and y: "y = a * sin (p - ph ! i)"
      by auto
    from ap have "a \<in> set (adj_matrix ! i)" by (rule set_zip_leftD)
    moreover have "adj_matrix ! i \<in> set adj_matrix" using that by simp
    ultimately have "a = 0" using zero by blast
    then show "y = 0" by (simp add: y)
  qed
  have "map (\<lambda>i. sum_list (map2 (\<lambda>a p. a * sin (p - ph ! i)) (adj_matrix ! i) ph))
          [0..<length adj_matrix] = map (\<lambda>i. 0) [0..<length adj_matrix]"
    by (rule map_cong[OF refl]) (simp add: z)
  then show ?thesis by (simp add: phase_diffs_def map_replicate_const)
qed

lemma vnorm_scale: "vnorm (map (\<lambda>v. c * v) xs) = \<bar>c\<bar> * vnorm xs"
proof -
  have "sum_list (map (\<lambda>x. x * x) (map (\<lambda>v. c * v) xs)) = c\<^sup>2 * sum_list (map (\<lambda>x. x * x) xs)"
    by (induction xs) (simp_all add: algebra_simps power2_eq_square)
  then show ?thesis by (simp add: vnorm_def real_sqrt_mult)
qed

lemma damp_zero_force:
  "length v = d \<Longrightarrow> map2 (\<lambda>v a. v + (a * dt - gamma * v)) v (replicate d 0)
     = map (\<lambda>v. (1 - gamma) * v) (v :: real list)"
  by (simp add: list_eq_iff_nth_eq algebra_simps)

lemma zeros_like_shape:
  "length P = n \<Longrightarrow> \<forall>i<n. length (P ! i) = d \<Longrightarrow> zeros_like P = replicate n (replicate d 0)"
  by (simp add: zeros_like_def list_eq_iff_nth_eq)

lemma move_zero_velocity:
  assumes "length P = n" "\<forall>i<n. length (P ! i) = d"
  shows "map2 (map2 (\<lambda>p v. p + v * dt)) P (replicate n (replicate d 0)) = (P :: array2)"
proof (rule nth_equalityI)
  show "length (map2 (map2 (\<lambda>p v. p + v * dt)) P (replicate n (replicate d 0))) = length P"
    using assms by simp
next
  fix i assume "i < length (map2 (map2 (\<lambda>p v. p + v * dt)) P (replicate n (replicate d 0)))"
  then have i: "i < n" using assms by simp
  then have "length (P ! i) = d" using assms by simp
  then have "map2 (\<lambda>p v. p + v * dt) (P ! i) (replicate d 0) = P ! i"
    by (simp add: list_eq_iff_nth_eq)
  then show "map2 (map2 (\<lambda>p v. p + v * dt)) P (replicate n (replicate d 0)) ! i = P ! i"
    using i assms by simp
qed

lemma damp_zeros:
  "map2 (map2 (\<lambda>v a. v + (a * dt - gamma * v))) (replicate n (replicate d 0)) (replicate n (replicate d 0))
     = replicate n (replicate d (0 :: real))"
  by (simp add: list_eq_iff_nth_eq)

lemma vnorm_zeros: "vnorm (replicate d 0) = 0"
  by (simp add: vnorm_def sum_list_replicate)

lemma kinetic_zeros: "sum_list (map (\<lambda>v. (vnorm v)\<^sup>2) (replicate n (replicate d 0))) = 0"
  by (simp add: vnorm_zeros sum_list_replicate)

lemma zero_adjacency_run:
  assumes zero: "\<forall>row \<in> set adj_matrix. \<forall>x \<in> set row. x = 0"
    and loop: "sim_loop adj_matrix tol dt gamma gamma_theta K freqs n
                 (initial_state positions0 phases0) = Inr s'"
    and l0: "length positions0 = length adj_matrix"
    and d0: "\<forall>i<length adj_matrix. length (positions0 ! i) = d"
  shows "(\<forall>P \<in> set (positions_history s'). P = positions0) \<and>
         (\<forall>k \<in> set (kinetic_energy_history s'). k = 0)"
proof -
  let ?Z = "replicate (length adj_matrix) (replicate d (0 :: real))"
  define Q where "Q s \<longleftrightarrow> (\<forall>P \<in> set (positions_history s). P = positions0) \<and>
         (\<forall>k \<in> set (kinetic_energy_history s). k = 0)" for s :: sim_state
  define I where "I s \<longleftrightarrow> Q s \<and> velocities s = ?Z \<and> positions s = positions0" for s :: sim_state
  have init: "I (initial_state positions0 phases0)"
    using zeros_like_shape[OF l0 d0] by (simp add: I_def Q_def initial_state_def)
  have step: "Q s1 \<and> (\<not> b \<longrightarrow> I s1)"
    if Is: "I s" and st: "sim_step adj_matrix tol dt gamma gamma_theta K freqs s = Inr (b, s1)"
    for s b s1
  proof -
    from Is have Qs: "Q s" and v: "velocities s = ?Z" and p: "positions s = positions0"
      by (simp_all add: I_def)
    from sim_step_fields[OF st] obtain forces where
      c: "calculate_forces adj_matrix (positions s) = Inr forces" and
      v1: "velocities s1 = map2 (map2 (\<lambda>v a. v + (a * dt - gamma * v))) (velocities s) forces" and
      h1: "positions_history s1 = positions_history s @
             [map2 (map2 (\<lambda>p v. p + v * dt)) (positions s) (velocities s1)]" and
      k1: "kinetic_energy_history s1 = kinetic_energy_history s @
             [0.5 * sum_list (map (\<lambda>v. (vnorm v)\<^sup>2) (velocities s1))]" and
      p1: "positions s1 = (if b then positions s else last (positions_history s1))"
      by blast
    have F: "forces = ?Z"
      using calculate_forces_zero_adjacency[OF zero c] l0 d0 unfolding p by blast
    have V: "velocities s1 = ?Z" unfolding v1 v F by (rule damp_zeros)
    have H: "positions_history s1 = positions_history s @ [positions0]"
      unfolding h1 V p using move_zero_velocity[OF l0 d0] by simp
    have Kn: "kinetic_energy_history s1 = kinetic_energy_history s @ [0]"
      unfolding k1 V by (simp add: vnorm_zeros sum_list_replicate)
    have P: "positions s1 = positions0" unfolding p1 H p by simp
    have "Q s1" using Qs unfolding Q_def H Kn by auto
    then show ?thesis using V P by (simp add: I_def)
  qed
  have "Q s'"
    by (rule sim_loop_rule[where I = I and Q = Q, OF loop init step]) (simp_all add: I_def)
  then show ?thesis by (simp add: Q_def)
qed

lemma sqrt_4: "sqrt 4 = 2"
  by (rule real_sqrt_unique) simp_all

lemma zero_adjacency_step_eval:
  "sim_step [[0, 0], [0, 0]] (1 / 10) (1 / 2) 3 (1 / 10) 0 [0, 0]
     \<lparr> positions = [[0, 0], [3, 4]], velocities = [[1, 0], [0, 0]],
       phases = [0, 0], phase_velocities = [0, 0],
       positions_history = [[[0, 0], [3, 4]]], phase_history = [[0, 0]],
       potential_energy_history = [], kinetic_energy_history = [],
       total_energy_history = [] \<rparr>
   = Inr (False,
     \<lparr> positions = [[- 1, 0], [3, 4]], velocities = [[- 2, 0], [0, 0]],
       phases = [0, 0], phase_velocities = [0, 0],
       positions_history = [[[0, 0], [3, 4]], [[- 1, 0], [3, 4]]],
       phase_history = [[0, 0], [0, 0]],
       potential_energy_history = [0], kinetic_energy_history = [2],
       total_energy_history = [2] \<rparr>)"
  by (simp add: sim_step_def calculate_forces_zero_pair Let_def
        phase_diffs_def total_movement_def compute_potential_energy_def
        vnorm_def vsub_def upt_rec sqrt_4)

lemma zero_adjacency_first_step_eval:
  "sim_step [[0, 0], [0, 0]] (1 / 10) (1 / 2) (1 / 4) (1 / 10) 0 [0, 0]
     (initial_state [[0, 0], [3, 4]] [0, 0])
   = Inr (True,
     \<lparr> positions = [[0, 0], [3, 4]], velocities = [[0, 0], [0, 0]],
       phases = [0, 0], phase_velocities = [0, 0],
       positions_history = [[[0, 0], [3, 4]], [[0, 0], [3, 4]]],
       phase_history = [[0, 0], [0, 0]],
       potential_energy_history = [0], kinetic_energy_history = [0],
       total_energy_history = [0] \<rparr>)"
  by (simp add: sim_step_def initial_state_def zeros_like_def calculate_forces_zero_pair Let_def
        phase_diffs_def total_movement_def compute_potential_energy_def
        vnorm_def vsub_def upt_rec)

lemma vnorm_nonneg: "0 \<le> vnorm v"
proof -
  have "0 \<le> sum_list (map (\<lambda>x. x * x) v)" by (rule sum_list_nonneg) auto
  then show ?thesis by (simp add: vnorm_def)
qed

lemma run_schedule_length:
  "length (snd (run_schedule gen n d sched (g, ts))) = length ts"
proof (induction sched arbitrary: g ts)
  case Nil
  then show ?case by simp
next
  case (Cons k ks)
  show ?case
  proof (cases "k < length ts")
    case True
    obtain g' t' where c: "rng_call gen n d k (g, ts ! k) = (g', t')"
      by (cases "rng_call gen n d k (g, ts ! k)") auto
    show ?thesis using True c Cons.IH[of g' "ts[k := t']"] by simp
  next
    case False
    then show ?thesis using Cons.IH[of g ts] by simp
  qed
qed

lemma join_futures_Inr: "join_futures (map Inr xs) = Inr xs"
  by (induction xs) simp_all

lemma join_futures_length: "join_futures rs = Inr xs \<Longrightarrow> length xs = length rs"
  by (induction rs arbitrary: xs) (auto split: sum.splits)

lemma join_futures_nth:
  "join_futures rs = Inr xs \<Longrightarrow> i < length rs \<Longrightarrow> rs ! i = Inr (xs ! i)"
proof (induction rs arbitrary: xs i)
  case Nil
  then show ?case by simp
next
  case (Cons r rs)
  then show ?case by (cases i) (auto split: sum.splits)
qed

lemma simulate_no_iterations:
  "iterations \<le> 0 \<Longrightarrow>
     simulate adj_matrix iterations tol dt gamma gamma_theta K positions0 phases0 freqs
       = Inr ([positions0], [phases0], [], [], [])"
  by (simp add: simulate_def result_of_def initial_state_def)

lemma total_movement_nonneg: "0 \<le> total_movement P Q"
  unfolding total_movement_def by (rule sum_list_nonneg) (auto simp: vnorm_nonneg)

lemma simulate_negative_tol:
  assumes "simulate adj_matrix iterations tol dt gamma gamma_theta K positions0 phases0 freqs
             = Inr (ph, phh, pe, ke, te)"
    and "tol < 0"
  shows "length ph = nat iterations + 1 \<and> length te = nat iterations"
proof -
  have "\<not> total_movement P Q < tol" for P Q
    using total_movement_nonneg[of P Q] assms(2) by simp
  then show ?thesis using simulate_lengths[OF assms(1)] by simp
qed

lemma sqrt_36: "sqrt 36 = 6"
  by (rule real_sqrt_unique) simp_all

lemma sqrt_quarter: "sqrt (1 / 4) = 1 / 2"
  by (rule real_sqrt_unique) (simp_all add: power2_eq_square)

lemma calculate_forces_negative_pair:
  "calculate_forces [[0, - 2], [- 2, 0]] [[0, 0], [3, 4]] = Inr [[- (6 / 5), - (8 / 5)], [6 / 5, 8 / 5]]"
  using calculate_forces_two_nodes[of "[0, 0]" "[3, 4]" 0 "- 2" 0]
  by (simp add: vnorm_def vsub_def sqrt_25)

lemma simulate_negative_eval:
  "simulate [[0, - 2], [- 2, 0]] 1 (- 1) (- (1 / 2)) 1 (1 / 10) 0 [[0, 0], [3, 4]] [0, 1] [5, 7]
     = Inr ([[[0, 0], [3, 4]], [[- (3 / 10), - (2 / 5)], [33 / 10, 22 / 5]]],
            [[0, 1], [5 / 4, 11 / 4]], [- 36], [1], [- 35])"
  by (simp add: simulate_def sim_step_def initial_state_def calculate_forces_negative_pair
        zeros_like_def phase_diffs_def total_movement_def compute_potential_energy_def
        result_of_def vnorm_def vsub_def upt_rec Let_def sqrt_36 sqrt_quarter)

lemma complete_schedule_none: "complete_schedule 0 sched = sched"
  by (simp add: complete_schedule_def)

lemma stub_one_worker:
  "snd (run_schedule \<lparr> rng_seed = (\<lambda>s. ()), rng_rand = (\<lambda>n d g. (P, g)),
          rng_uniform = (\<lambda>n g. (U, g)), rng_normal = (\<lambda>n g. (F, g)) \<rparr> n d
        (complete_schedule (Suc 0) []) ((), [fresh_thread]))
   = [\<lparr> pc = 4, drawn_positions = P, drawn_phases = U, drawn_frequencies = F \<rparr>]"
  by (simp add: complete_schedule_def rng_call_def fresh_thread_def upt_rec eval_nat_numeral)

lemma ensemble_negative_eval:
  "HONE_kuramoto_ensemble
     \<lparr> rng_seed = (\<lambda>s. ()), rng_rand = (\<lambda>n d g. ([[0, 0], [3, 4]], g)),
       rng_uniform = (\<lambda>n g. ([0, 1], g)), rng_normal = (\<lambda>n g. ([5, 7], g)) \<rparr> () []
     \<lparr> is_weighted = True, to_numpy_array = [[0, - 2], [- 2, 0]] \<rparr>
     2 1 1 (- 1) (- (1 / 2)) 1 (1 / 10) 0
   = Inr ([[[[0, 0], [3, 4]], [[- (3 / 10), - (2 / 5)], [33 / 10, 22 / 5]]]],
          [[[0, 1], [5 / 4, 11 / 4]]], [[- 36]], [[1]], [[- 35]])"
  by (simp add: HONE_kuramoto_ensemble_def adjacency_of_def stub_one_worker
        simulate_negative_eval)

lemma sim_loop_trace:
  assumes "sim_loop adj_matrix tol dt gamma gamma_theta K freqs n s = Inr s'"
  shows "\<exists>sts. sts \<noteq> [] \<and> sts ! 0 = s \<and> last sts = s' \<and>
           (\<forall>t. t + 1 < length sts \<longrightarrow>
              (\<exists>b. sim_step adj_matrix tol dt gamma gamma_theta K freqs (sts ! t)
                     = Inr (b, sts ! (t + 1))))"
  using assms
proof (induction n arbitrary: s)
  case 0
  then have "s' = s" by simp
  then show ?case by (intro exI[of _ "[s]"]) simp
next
  case (Suc n)
  from Suc.prems obtain b s1 where
    st: "sim_step adj_matrix tol dt gamma gamma_theta K freqs s = Inr (b, s1)"
    by (auto split: sum.splits)
  show ?case
  proof (cases b)
    case True
    then have "s' = s1" using Suc.prems st by simp
    then show ?thesis using st by (intro exI[of _ "[s, s1]"]) auto
  next
    case False
    then have "sim_loop adj_matrix tol dt gamma gamma_theta K freqs n s1 = Inr s'"
      using Suc.prems st by simp
    from Suc.IH[OF this] obtain sts where
      sts: "sts \<noteq> []" "sts ! 0 = s1" "last sts = s'"
      and ch: "\<forall>t. t + 1 < length sts \<longrightarrow>
              (\<exists>b. sim_step adj_matrix tol dt gamma gamma_theta K freqs (sts ! t)
                     = Inr (b, sts ! (t + 1)))"
      by blast
    have "\<exists>b. sim_step adj_matrix tol dt gamma gamma_theta K freqs ((s # sts) ! t)
                     = Inr (b, (s # sts) ! (t + 1))" if "t + 1 < length (s # sts)" for t
    proof (cases t)
      case 0
      then show ?thesis using st sts(2) by auto
    next
      case (Suc u)
      then show ?thesis using ch that by auto
    qed
    then show ?thesis using sts by (intro exI[of _ "s # sts"]) auto
  qed
qed

lemma chain_histories:
  assumes ch: "\<forall>t. t + 1 < length sts \<longrightarrow>
              (\<exists>b. sim_step adj_matrix tol dt gamma gamma_theta K freqs (sts ! t)
                     = Inr (b, sts ! (t + 1)))"
    and t: "t < length sts"
  shows "kinetic_energy_history (sts ! t) = kinetic_energy_history (sts ! 0) @
           map (\<lambda>u. 0.5 * sum_list (map (\<lambda>v. (vnorm v)\<^sup>2) (velocities (sts ! (u + 1))))) [0..<t] \<and>
         potential_energy_history (sts ! t) = potential_energy_history (sts ! 0) @
           map (\<lambda>u. compute_potential_energy adj_matrix (last (positions_history (sts ! (u + 1))))) [0..<t] \<and>
         total_energy_history (sts ! t) = total_energy_history (sts ! 0) @
           map (\<lambda>u. 0.5 * sum_list (map (\<lambda>v. (vnorm v)\<^sup>2) (velocities (sts ! (u + 1))))
                    + compute_potential_energy adj_matrix (last (positions_history (sts ! (u + 1)))))
               [0..<t] \<and>
         positions_history (sts ! t) = positions_history (sts ! 0) @
           map (\<lambda>u. last (positions_history (sts ! (u + 1)))) [0..<t]"
  using t
proof (induction t)
  case 0
  then show ?case by simp
next
  case (Suc t)
  then have t: "t + 1 < length sts" by simp
  with ch obtain b where
    st: "sim_step adj_matrix tol dt gamma gamma_theta K freqs (sts ! t) = Inr (b, sts ! (t + 1))"
    by blast
  from sim_step_fields[OF st] have
    k: "kinetic_energy_history (sts ! (t + 1)) = kinetic_energy_history (sts ! t) @
       [0.5 * sum_list (map (\<lambda>v. (vnorm v)\<^sup>2) (velocities (sts ! (t + 1))))]" and
    p: "potential_energy_history (sts ! (t + 1)) = potential_energy_history (sts ! t) @
       [compute_potential_energy adj_matrix (last (positions_history (sts ! (t + 1))))]" and
    e: "total_energy_history (sts ! (t + 1)) = total_energy_history (sts ! t) @
       [last (kinetic_energy_history (sts ! (t + 1))) + last (potential_energy_history (sts ! (t + 1)))]"
    and h: "\<exists>x. positions_history (sts ! (t + 1)) = positions_history (sts ! t) @ [x]"
    by auto
  from h obtain x where hx: "positions_history (sts ! (t + 1)) = positions_history (sts ! t) @ [x]"
    by blast
  then have lx: "last (positions_history (sts ! (t + 1))) = x" by simp
  have lk: "last (kinetic_energy_history (sts ! (t + 1)))
              = 0.5 * sum_list (map (\<lambda>v. (vnorm v)\<^sup>2) (velocities (sts ! (t + 1))))"
    by (subst k) simp
  have lp: "last (potential_energy_history (sts ! (t + 1)))
              = compute_potential_energy adj_matrix (last (positions_history (sts ! (t + 1))))"
    by (subst p) simp
  from Suc.IH t have IH:
    "kinetic_energy_history (sts ! t) = kinetic_energy_history (sts ! 0) @
           map (\<lambda>u. 0.5 * sum_list (map (\<lambda>v. (vnorm v)\<^sup>2) (velocities (sts ! (u + 1))))) [0..<t]"
    "potential_energy_history (sts ! t) = potential_energy_history (sts ! 0) @
           map (\<lambda>u. compute_potential_energy adj_matrix (last (positions_history (sts ! (u + 1))))) [0..<t]"
    "total_energy_history (sts ! t) = total_energy_history (sts ! 0) @
           map (\<lambda>u. 0.5 * sum_list (map (\<lambda>v. (vnorm v)\<^sup>2) (velocities (sts ! (u + 1))))
                    + compute_potential_energy adj_matrix (last (positions_history (sts ! (u + 1)))))
               [0..<t]"
    "positions_history (sts ! t) = positions_history (sts ! 0) @
           map (\<lambda>u. last (positions_history (sts ! (u + 1)))) [0..<t]"
    by simp_all
  have K: "kinetic_energy_history (sts ! Suc t) = kinetic_energy_history (sts ! 0) @
           map (\<lambda>u. 0.5 * sum_list (map (\<lambda>v. (vnorm v)\<^sup>2) (velocities (sts ! (u + 1))))) [0..<Suc t]"
    using k IH(1) by simp
  have P: "potential_energy_history (sts ! Suc t) = potential_energy_history (sts ! 0) @
           map (\<lambda>u. compute_potential_energy adj_matrix (last (positions_history (sts ! (u + 1))))) [0..<Suc t]"
    using p IH(2) by simp
  have E: "total_energy_history (sts ! Suc t) = total_energy_history (sts ! 0) @
           map (\<lambda>u. 0.5 * sum_list (map (\<lambda>v. (vnorm v)\<^sup>2) (velocities (sts ! (u + 1))))
                    + compute_potential_energy adj_matrix (last (positions_history (sts ! (u + 1)))))
               [0..<Suc t]"
    using e IH(3) lk lp by simp
  have H: "positions_history (sts ! Suc t) = positions_history (sts ! 0) @
           map (\<lambda>u. last (positions_history (sts ! (u + 1)))) [0..<Suc t]"
    using hx lx IH(4) by simp
  from K P E H show ?case by blast
qed

lemma sqrt_16: "sqrt 16 = 4"
  by (rule real_sqrt_unique) simp_all

lemma simulate_pair_eval:
  "simulate [[0, 2], [2, 0]] 1 (1 / 10) (1 / 2) (1 / 4) (1 / 10) 0 [[0, 0], [3, 4]] [0, 1] [5, 7]
     = Inr ([[[0, 0], [3, 4]], [[3 / 10, 2 / 5], [27 / 10, 18 / 5]]],
            [[0, 1], [5 / 4, 11 / 4]], [16], [1], [17])"
proof -
  have c: "calculate_forces [[0, 2], [2, 0]] [[0, 0], [3, 4]] = Inr [[6 / 5, 8 / 5], [- (6 / 5), - (8 / 5)]]"
    using calculate_forces_two_nodes[of "[0, 0]" "[3, 4]" 0 2 0]
    by (simp add: vnorm_def vsub_def sqrt_25)
  show ?thesis
    by (simp add: simulate_def sim_step_def initial_state_def c
        zeros_like_def phase_diffs_def total_movement_def compute_potential_energy_def
        result_of_def vnorm_def vsub_def upt_rec Let_def sqrt_16 sqrt_quarter)
qed

lemma join_futures_all_Inr:
  "\<forall>i<length rs. \<exists>r. rs ! i = Inr r \<Longrightarrow> \<exists>xs. join_futures rs = Inr xs"
proof (induction rs)
  case Nil
  then show ?case by simp
next
  case (Cons r rs)
  from Cons.prems have "\<exists>x. r = Inr x" by (metis length_greater_0_conv list.distinct(1) nth_Cons_0)
  moreover have "\<forall>i<length rs. \<exists>x. rs ! i = Inr x"
    using Cons.prems by (metis Suc_less_eq length_Cons nth_Cons_Suc)
  ultimately show ?case using Cons.IH by auto
qed

lemma join_futures_Inl:
  "join_futures rs = Inl e \<Longrightarrow> \<exists>i<length rs. rs ! i = Inl e"
proof (induction rs)
  case Nil
  then show ?case by simp
next
  case (Cons r rs)
  show ?case
  proof (cases r)
    case (Inl e')
    then have "e' = e" using Cons.prems by simp
    then show ?thesis using Inl by (intro exI[of _ 0]) simp
  next
    case (Inr x)
    then have "join_futures rs = Inl e" using Cons.prems by (auto split: sum.splits)
    from Cons.IH[OF this] obtain i where "i < length rs" "rs ! i = Inl e" by blast
    then show ?thesis by (intro exI[of _ "Suc i"]) simp
  qed
qed

lemma simulate_single_node:
  "0 < iterations \<Longrightarrow>
     simulate [[w]] iterations tol dt gamma gamma_theta K [p] phases0 freqs = Inl ValueError"
proof -
  assume "0 < iterations"
  then obtain n where n: "nat iterations = Suc n" by (cases "nat iterations") auto
  have "force_on [[w]] [p] 0 = Inl ValueError"
    by (rule force_on_all_close) (simp add: vnorm_vsub_self)
  then have c: "calculate_forces [[w]] [p] = Inl ValueError"
    by (simp add: calculate_forces_def)
  show ?thesis
    by (simp add: simulate_def n sim_step_def initial_state_def c)
qed

lemma ensemble_single_node_eval:
  "HONE_kuramoto_ensemble
     \<lparr> rng_seed = (\<lambda>s. ()), rng_rand = (\<lambda>n d g. ([[1, 2]], g)),
       rng_uniform = (\<lambda>n g. ([0], g)), rng_normal = (\<lambda>n g. ([5], g)) \<rparr> () []
     \<lparr> is_weighted = True, to_numpy_array = [[0]] \<rparr>
     2 1 1 (1 / 10000) (1 / 100) 1 (1 / 10) (1 / 2)
   = Inl ValueError"
  by (simp add: HONE_kuramoto_ensemble_def adjacency_of_def stub_one_worker simulate_single_node)

lemma complete_schedule_two:
  "complete_schedule (Suc (Suc 0)) sched = sched @ [0, 0, 0, 0, Suc 0, Suc 0, Suc 0, Suc 0]"
  by (simp add: complete_schedule_def upt_rec eval_nat_numeral)

lemma sequential_draws:
  "map drawn_positions (snd (run_schedule gen n d (complete_schedule (Suc (Suc 0)) [])
          (g0, [fresh_thread, fresh_thread])))
   = [fst (rng_rand gen n d (rng_seed gen 0)), fst (rng_rand gen n d (rng_seed gen (Suc 0)))]"
  by (simp add: complete_schedule_two rng_call_def fresh_thread_def split_beta)

lemma racy_draws:
  "map drawn_positions (snd (run_schedule gen n d (complete_schedule (Suc (Suc 0)) [0, Suc 0])
          (g0, [fresh_thread, fresh_thread])))
   = [fst (rng_rand gen n d (rng_seed gen (Suc 0))),
      fst (rng_rand gen n d
             (snd (rng_normal gen n (snd (rng_uniform gen n
                (snd (rng_rand gen n d (rng_seed gen (Suc 0)))))))))]"
  by (simp add: complete_schedule_two rng_call_def fresh_thread_def split_beta)

lemma simulate_first_snapshot:
  assumes "simulate adj_matrix iterations tol dt gamma gamma_theta K positions0 phases0 freqs
             = Inr (ph, phh, pe, ke, te)"
  shows "ph ! 0 = positions0"
proof -
  let ?s0 = "initial_state positions0 phases0"
  from assms obtain s' where
    loop: "sim_loop adj_matrix tol dt gamma gamma_theta K freqs (nat iterations) ?s0 = Inr s'"
    and res: "result_of s' = (ph, phh, pe, ke, te)"
    by (auto simp: simulate_def split: sum.splits)
  from sim_loop_trace[OF loop] obtain sts where
    ne: "sts \<noteq> []" and s0: "sts ! 0 = ?s0" and sl: "last sts = s'"
    and ch: "\<forall>t. t + 1 < length sts \<longrightarrow>
              (\<exists>b. sim_step adj_matrix tol dt gamma gamma_theta K freqs (sts ! t)
                     = Inr (b, sts ! (t + 1)))"
    by blast
  have L: "length sts - 1 < length sts" using ne by simp
  have "sts ! (length sts - 1) = s'" using sl ne by (simp add: last_conv_nth)
  with chain_histories[OF ch L] have
    "positions_history s' = positions_history ?s0 @
           map (\<lambda>u. last (positions_history (sts ! (u + 1)))) [0..<length sts - 1]"
    by (simp add: s0)
  then have "positions_history s' ! 0 = positions0" by (simp add: initial_state_def)
  then show ?thesis using res by (simp add: result_of_def)
qed

lemma ensemble_slots:
  assumes R: "HONE_kuramoto_ensemble gen g0 sched G dim' iterations ensemble_size tol dt gamma gamma_theta K
           = Inr (ps, phs, pes, kes, tes)"
    and i: "i < nat ensemble_size"
  shows "simulate (adjacency_of G) iterations tol dt gamma gamma_theta K
           (drawn_positions (snd (run_schedule gen (length (adjacency_of G)) dim'
               (complete_schedule (nat ensemble_size) sched)
               (g0, replicate (nat ensemble_size) fresh_thread)) ! i))
           (drawn_phases (snd (run_schedule gen (length (adjacency_of G)) dim'
               (complete_schedule (nat ensemble_size) sched)
               (g0, replicate (nat ensemble_size) fresh_thread)) ! i))
           (drawn_frequencies (snd (run_schedule gen (length (adjacency_of G)) dim'
               (complete_schedule (nat ensemble_size) sched)
               (g0, replicate (nat ensemble_size) fresh_thread)) ! i))
         = Inr (ps ! i, phs ! i, pes ! i, kes ! i, tes ! i)"
proof -
  let ?m = "nat ensemble_size"
  let ?A = "adjacency_of G"
  define threads where "threads = snd (run_schedule gen (length ?A) dim' (complete_schedule ?m sched)
                           (g0, replicate ?m fresh_thread))"
  define futures where "futures = map (\<lambda>t. simulate ?A iterations tol dt gamma gamma_theta K
                                (drawn_positions t) (drawn_phases t) (drawn_frequencies t)) threads"
  have lt: "length threads = ?m" unfolding threads_def by (simp add: run_schedule_length)
  have E: "HONE_kuramoto_ensemble gen g0 sched G dim' iterations ensemble_size tol dt gamma gamma_theta K
     = (case join_futures futures of
           Inl e \<Rightarrow> Inl e
         | Inr results \<Rightarrow>
             Inr (map (\<lambda>result. fst result) results,
                  map (\<lambda>result. fst (snd result)) results,
                  map (\<lambda>result. fst (snd (snd result))) results,
                  map (\<lambda>result. fst (snd (snd (snd result)))) results,
                  map (\<lambda>result. snd (snd (snd (snd result)))) results))"
    unfolding HONE_kuramoto_ensemble_def Let_def futures_def threads_def ..
  from R obtain results where J: "join_futures futures = Inr results"
    and ps: "ps = map (\<lambda>result. fst result) results"
    and phs: "phs = map (\<lambda>result. fst (snd result)) results"
    and pes: "pes = map (\<lambda>result. fst (snd (snd result))) results"
    and kes: "kes = map (\<lambda>result. fst (snd (snd (snd result)))) results"
    and tes: "tes = map (\<lambda>result. snd (snd (snd (snd result)))) results"
    unfolding E by (auto split: sum.splits)
  have lf: "length futures = ?m" by (simp add: futures_def lt)
  have lr: "length results = ?m" using join_futures_length[OF J] lf by simp
  have "futures ! i = Inr (results ! i)" using join_futures_nth[OF J] i lf by simp
  moreover have "futures ! i = simulate ?A iterations tol dt gamma gamma_theta K
        (drawn_positions (threads ! i)) (drawn_phases (threads ! i)) (drawn_frequencies (threads ! i))"
    using i lt by (simp add: futures_def)
  ultimately show ?thesis
    unfolding threads_def[symmetric] using i lr by (simp add: ps phs pes kes tes)
qed

lemma toy_sequential_eval:
  "HONE_kuramoto_ensemble
     \<lparr> rng_seed = (\<lambda>s. 10 * s), rng_rand = (\<lambda>n d g. ([[real g]], Suc g)),
       rng_uniform = (\<lambda>n g. ([real g], Suc g)), rng_normal = (\<lambda>n g. ([real g], Suc g)) \<rparr> 0 []
     \<lparr> is_weighted = True, to_numpy_array = [[0]] \<rparr>
     1 0 2 (1 / 10000) (1 / 100) 1 (1 / 10) (1 / 2)
   = Inr ([[[[0]]], [[[10]]]], [[[1]], [[11]]], [[], []], [[], []], [[], []])"
  by (simp add: HONE_kuramoto_ensemble_def adjacency_of_def simulate_no_iterations
        complete_schedule_two rng_call_def fresh_thread_def eval_nat_numeral)

lemma toy_racy_eval:
  "HONE_kuramoto_ensemble
     \<lparr> rng_seed = (\<lambda>s. 10 * s), rng_rand = (\<lambda>n d g. ([[real g]], Suc g)),
       rng_uniform = (\<lambda>n g. ([real g], Suc g)), rng_normal = (\<lambda>n g. ([real g], Suc g)) \<rparr> 0 [0, 1]
     \<lparr> is_weighted = True, to_numpy_array = [[0]] \<rparr>
     1 0 2 (1 / 10000) (1 / 100) 1 (1 / 10) (1 / 2)
   = Inr ([[[[10]]], [[[13]]]], [[[11]], [[14]]], [[], []], [[], []], [[], []])"
  by (simp add: HONE_kuramoto_ensemble_def adjacency_of_def simulate_no_iterations
        complete_schedule_two rng_call_def fresh_thread_def eval_nat_numeral)

lemma obj_move_result:
  assumes rv: "r_velocities s < next_ref (mem s)" and rp: "r_positions s < next_ref (mem s)"
    and ne: "r_velocities s \<noteq> r_positions s"
  shows "obj_move dt gamma forces s =
     (next_ref (mem s),
      s\<lparr> mem := \<lparr> cells = (cells (mem s))
               (r_velocities s := Arr2 (map2 (map2 (\<lambda>v a. v + (a * dt - gamma * v)))
                                          (get2 (mem s) (r_velocities s)) forces),
                next_ref (mem s) := Arr2 (map2 (map2 (\<lambda>p v. p + v * dt))
                   (get2 (mem s) (r_positions s))
                   (map2 (map2 (\<lambda>v a. v + (a * dt - gamma * v)))
                                          (get2 (mem s) (r_velocities s)) forces)),
                Suc (next_ref (mem s)) := Arr2 (map2 (map2 (\<lambda>p v. p + v * dt))
                   (get2 (mem s) (r_positions s))
                   (map2 (map2 (\<lambda>v a. v + (a * dt - gamma * v)))
                                          (get2 (mem s) (r_velocities s)) forces))),
             next_ref = Suc (Suc (next_ref (mem s))) \<rparr>,
         r_positions_history := r_positions_history s @ [Suc (next_ref (mem s))] \<rparr>)"
proof -
  define V where "V = map2 (map2 (\<lambda>v a. v + (a * dt - gamma * v))) (get2 (mem s) (r_velocities s)) forces"
  define h1 where "h1 = assign_in_place (r_velocities s) (Arr2 V) (mem s)"
  have g1: "get2 h1 (r_positions s) = get2 (mem s) (r_positions s)" "get2 h1 (r_velocities s) = V"
    using ne by (simp_all add: h1_def assign_in_place_def get2_def)
  have n1: "next_ref h1 = next_ref (mem s)" "cells h1 = (cells (mem s))(r_velocities s := Arr2 V)"
    by (simp_all add: h1_def assign_in_place_def)
  show ?thesis
    unfolding obj_move_def Let_def V_def[symmetric] h1_def[symmetric] g1
    by (simp add: alloc_def n1)
qed


lemma obj_phase_result:
  assumes ne: "r_phase_velocities s \<noteq> r_phases s"
  shows "obj_phase adj_matrix dt gamma_theta K freqs s =
     (next_ref (mem s),
      s\<lparr> mem := \<lparr> cells = (cells (mem s))
               (r_phase_velocities s := Arr1 (map2 (\<lambda>pv a. pv + a * dt)
                   (get1 (mem s) (r_phase_velocities s))
                   (map2 (\<lambda>(w, c) pv. w + K * c - gamma_theta * pv)
                      (zip freqs (phase_diffs adj_matrix (get1 (mem s) (r_phases s))))
                      (get1 (mem s) (r_phase_velocities s)))),
                next_ref (mem s) := Arr1 (map2 (\<lambda>p pv. p + pv * dt)
                   (get1 (mem s) (r_phases s))
                   (map2 (\<lambda>pv a. pv + a * dt)
                   (get1 (mem s) (r_phase_velocities s))
                   (map2 (\<lambda>(w, c) pv. w + K * c - gamma_theta * pv)
                      (zip freqs (phase_diffs adj_matrix (get1 (mem s) (r_phases s))))
                      (get1 (mem s) (r_phase_velocities s))))),
                Suc (next_ref (mem s)) := Arr1 (map2 (\<lambda>p pv. p + pv * dt)
                   (get1 (mem s) (r_phases s))
                   (map2 (\<lambda>pv a. pv + a * dt)
                   (get1 (mem s) (r_phase_velocities s))
                   (map2 (\<lambda>(w, c) pv. w + K * c - gamma_theta * pv)
                      (zip freqs (phase_diffs adj_matrix (get1 (mem s) (r_phases s))))
                      (get1 (mem s) (r_phase_velocities s)))))),
             next_ref = Suc (Suc (next_ref (mem s))) \<rparr>,
         r_phase_history := r_phase_history s @ [Suc (next_ref (mem s))] \<rparr>)"
proof -
  define PV where "PV = map2 (\<lambda>pv a. pv + a * dt)
                   (get1 (mem s) (r_phase_velocities s))
                   (map2 (\<lambda>(w, c) pv. w + K * c - gamma_theta * pv)
                      (zip freqs (phase_diffs adj_matrix (get1 (mem s) (r_phases s))))
                      (get1 (mem s) (r_phase_velocities s)))"
  define h1 where "h1 = assign_in_place (r_phase_velocities s) (Arr1 PV) (mem s)"
  have g1: "get1 h1 (r_phases s) = get1 (mem s) (r_phases s)" "get1 h1 (r_phase_velocities s) = PV"
    using ne by (simp_all add: h1_def assign_in_place_def get1_def)
  have n1: "next_ref h1 = next_ref (mem s)" "cells h1 = (cells (mem s))(r_phase_velocities s := Arr1 PV)"
    by (simp_all add: h1_def assign_in_place_def)
  show ?thesis
    unfolding obj_phase_def Let_def PV_def[symmetric] h1_def[symmetric] g1
    by (simp add: alloc_def n1)
qed


lemma obj_step_sound:
  assumes wf: "obj_wf s"
    and st: "obj_step adj_matrix tol dt gamma gamma_theta K freqs s = Inr (b, s')"
  shows "sim_step adj_matrix tol dt gamma gamma_theta K freqs (obj_abs s) = Inr (b, obj_abs s') \<and>
         obj_wf s' \<and> next_ref (mem s) \<le> next_ref (mem s') \<and>
         (\<exists>r. r_positions_history s' = r_positions_history s @ [r]) \<and>
         (\<exists>r. r_phase_history s' = r_phase_history s @ [r]) \<and>
         (\<forall>r \<in> set (r_positions_history s) \<union> set (r_phase_history s).
              cells (mem s') r = cells (mem s) r)"
proof -
  let ?n = "next_ref (mem s)"
  let ?c = "cells (mem s)"
  let ?rv = "r_velocities s" let ?rp = "r_positions s"
  let ?rph = "r_phases s" let ?rpv = "r_phase_velocities s"
  from wf have b1: "?rp < ?n" "?rv < ?n" "?rph < ?n" "?rpv < ?n"
    and d: "?rv \<noteq> ?rp" "?rv \<noteq> ?rph" "?rv \<noteq> ?rpv" "?rpv \<noteq> ?rp" "?rpv \<noteq> ?rph"
    and hist: "\<forall>r \<in> set (r_positions_history s) \<union> set (r_phase_history s).
        r < ?n \<and> r \<noteq> ?rv \<and> r \<noteq> ?rpv"
    unfolding obj_wf_def by blast+
  from st obtain forces where c: "calculate_forces adj_matrix (get2 (mem s) ?rp) = Inr forces"
    unfolding obj_step_def by (auto split: sum.splits)
  define V where "V = map2 (map2 (\<lambda>v a. v + (a * dt - gamma * v))) (get2 (mem s) ?rv) forces"
  define NP where "NP = map2 (map2 (\<lambda>p v. p + v * dt)) (get2 (mem s) ?rp) V"
  define PV where "PV = map2 (\<lambda>pv a. pv + a * dt) (get1 (mem s) ?rpv)
                   (map2 (\<lambda>(w, c) pv. w + K * c - gamma_theta * pv)
                      (zip freqs (phase_diffs adj_matrix (get1 (mem s) ?rph))) (get1 (mem s) ?rpv))"
  define NPH where "NPH = map2 (\<lambda>p pv. p + pv * dt) (get1 (mem s) ?rph) PV"
  define s1 where "s1 = s\<lparr> mem := \<lparr> cells = ?c(?rv := Arr2 V, ?n := Arr2 NP, Suc ?n := Arr2 NP),
                                     next_ref = Suc (Suc ?n) \<rparr>,
                           r_positions_history := r_positions_history s @ [Suc ?n] \<rparr>"
  have m1: "obj_move dt gamma forces s = (?n, s1)"
    using obj_move_result[OF b1(2) b1(1) d(1), of dt gamma forces]
    unfolding s1_def NP_def V_def .
  have r1: "get1 (mem s1) ?rph = get1 (mem s) ?rph" "get1 (mem s1) ?rpv = get1 (mem s) ?rpv"
    "next_ref (mem s1) = Suc (Suc ?n)" "r_phases s1 = ?rph" "r_phase_velocities s1 = ?rpv"
    using b1 d by (simp_all add: s1_def get1_def)
  define s2 where "s2 = s1\<lparr> mem := \<lparr> cells = (cells (mem s1))
                               (?rpv := Arr1 PV, Suc (Suc ?n) := Arr1 NPH,
                                Suc (Suc (Suc ?n)) := Arr1 NPH),
                             next_ref = Suc (Suc (Suc (Suc ?n))) \<rparr>,
                           r_phase_history := r_phase_history s1 @ [Suc (Suc (Suc ?n))] \<rparr>"
  have m2: "obj_phase adj_matrix dt gamma_theta K freqs s1 = (Suc (Suc ?n), s2)"
    using obj_phase_result[of s1 adj_matrix dt gamma_theta K freqs] d(5)
    unfolding r1 s2_def NPH_def PV_def by simp
  have c2: "cells (mem s2) = ?c(?rv := Arr2 V, ?n := Arr2 NP, Suc ?n := Arr2 NP,
                               ?rpv := Arr1 PV, Suc (Suc ?n) := Arr1 NPH,
                               Suc (Suc (Suc ?n)) := Arr1 NPH)"
    by (simp add: s2_def s1_def)
  have rd: "get2 (mem s2) ?rv = V" "get2 (mem s2) ?n = NP" "get2 (mem s2) (Suc ?n) = NP"
    "get2 (mem s2) ?rp = get2 (mem s) ?rp"
    "get1 (mem s2) ?rpv = PV" "get1 (mem s2) (Suc (Suc ?n)) = NPH"
    "get1 (mem s2) (Suc (Suc (Suc ?n))) = NPH" "get1 (mem s2) ?rph = get1 (mem s) ?rph"
    using b1 d unfolding get1_def get2_def c2 by simp_all
  have old: "cells (mem s2) r = ?c r" if "r \<in> set (r_positions_history s) \<union> set (r_phase_history s)" for r
  proof -
    from hist that have "r < ?n" "r \<noteq> ?rv" "r \<noteq> ?rpv" by blast+
    then show ?thesis unfolding c2 by simp
  qed
  have f2: "r_velocities s2 = ?rv" "r_positions s2 = ?rp" "r_phases s2 = ?rph"
    "r_phase_velocities s2 = ?rpv"
    "r_positions_history s2 = r_positions_history s @ [Suc ?n]"
    "r_phase_history s2 = r_phase_history s @ [Suc (Suc (Suc ?n))]"
    "v_kinetic_energy_history s2 = v_kinetic_energy_history s"
    "v_potential_energy_history s2 = v_potential_energy_history s"
    "v_total_energy_history s2 = v_total_energy_history s"
    "next_ref (mem s2) = Suc (Suc (Suc (Suc ?n)))"
    by (simp_all add: s2_def s1_def)
  define ke where "ke = 0.5 * sum_list (map (\<lambda>v. (vnorm v)\<^sup>2) V)"
  define pe where "pe = compute_potential_energy adj_matrix NP"
  define s3 where "s3 = s2\<lparr> v_kinetic_energy_history := v_kinetic_energy_history s @ [ke],
                       v_potential_energy_history := v_potential_energy_history s @ [pe],
                       v_total_energy_history := v_total_energy_history s @ [ke + pe] \<rparr>"
  have S: "obj_step adj_matrix tol dt gamma gamma_theta K freqs s =
             (if total_movement NP (get2 (mem s) ?rp) < tol then Inr (True, s3)
              else Inr (False, s3\<lparr> r_positions := ?n, r_phases := Suc (Suc ?n) \<rparr>))"
    by (simp add: obj_step_def c m1 m2 Let_def rd f2 s3_def ke_def pe_def)
  have bdef: "b \<longleftrightarrow> total_movement NP (get2 (mem s) ?rp) < tol"
    using st unfolding S by (auto split: if_splits)
  have s': "s' = (if b then s3 else s3\<lparr> r_positions := ?n, r_phases := Suc (Suc ?n) \<rparr>)"
    using st unfolding S by (auto split: if_splits)
  have m3: "mem s' = mem s2" by (simp add: s' s3_def)
  have hp: "map (get2 (mem s2)) (r_positions_history s) = map (get2 (mem s)) (r_positions_history s)"
    by (rule map_cong[OF refl]) (simp add: get2_def old)
  have hph: "map (get1 (mem s2)) (r_phase_history s) = map (get1 (mem s)) (r_phase_history s)"
    by (rule map_cong[OF refl]) (simp add: get1_def old)
  have abs: "obj_abs s' =
      (let t = (obj_abs s)\<lparr> velocities := V, phase_velocities := PV,
                 positions_history := positions_history (obj_abs s) @ [NP],
                 phase_history := phase_history (obj_abs s) @ [NPH],
                 kinetic_energy_history := kinetic_energy_history (obj_abs s) @ [ke],
                 potential_energy_history := potential_energy_history (obj_abs s) @ [pe],
                 total_energy_history := total_energy_history (obj_abs s) @ [ke + pe] \<rparr>
       in if b then t else t\<lparr> positions := NP, phases := NPH \<rparr>)"
    unfolding s' by (simp add: obj_abs_def Let_def s3_def f2 rd hp hph)
  have sim: "sim_step adj_matrix tol dt gamma gamma_theta K freqs (obj_abs s) = Inr (b, obj_abs s')"
    unfolding abs
    by (simp add: sim_step_def obj_abs_def c Let_def V_def[symmetric] NP_def[symmetric]
          PV_def[symmetric] NPH_def[symmetric] ke_def pe_def bdef)
  have h4: "r < Suc (Suc (Suc (Suc ?n))) \<and> r \<noteq> ?rv \<and> r \<noteq> ?rpv"
    if "r \<in> set (r_positions_history s) \<union> set (r_phase_history s)" for r
  proof -
    from hist that have "r < ?n" "r \<noteq> ?rv" "r \<noteq> ?rpv" by blast+
    then show ?thesis by simp
  qed
  have wf': "obj_wf s'"
    unfolding obj_wf_def s' using b1 d h4 by (auto simp: s3_def f2)
  have fr: "\<forall>r \<in> set (r_positions_history s) \<union> set (r_phase_history s).
              cells (mem s') r = cells (mem s) r"
    using old m3 by simp
  from sim wf' fr show ?thesis by (auto simp: s' s3_def f2)
qed

lemma obj_step_error:
  "obj_step adj_matrix tol dt gamma gamma_theta K freqs s = Inl e \<Longrightarrow>
     sim_step adj_matrix tol dt gamma gamma_theta K freqs (obj_abs s) = Inl e"
  by (auto simp: obj_step_def sim_step_def obj_abs_def Let_def split: sum.splits prod.splits if_splits)

lemma obj_initial_fields:
  "mem (obj_initial positions0 phases0) =
     \<lparr> cells = (\<lambda>r. Arr1 [])(0 := Arr2 positions0, 1 := Arr2 (zeros_like positions0),
                 2 := Arr1 phases0, 3 := Arr1 (replicate (length phases0) 0),
                 4 := Arr2 positions0, 5 := Arr1 phases0),
       next_ref = 6 \<rparr>"
  "r_positions (obj_initial positions0 phases0) = 0"
  "r_velocities (obj_initial positions0 phases0) = 1"
  "r_phases (obj_initial positions0 phases0) = 2"
  "r_phase_velocities (obj_initial positions0 phases0) = 3"
  "r_positions_history (obj_initial positions0 phases0) = [4]"
  "r_phase_history (obj_initial positions0 phases0) = [5]"
  "v_potential_energy_history (obj_initial positions0 phases0) = []"
  "v_kinetic_energy_history (obj_initial positions0 phases0) = []"
  "v_total_energy_history (obj_initial positions0 phases0) = []"
  by (simp_all add: obj_initial_def alloc_def empty_store_def eval_nat_numeral)

lemma obj_initial_wf: "obj_wf (obj_initial positions0 phases0)"
  by (simp add: obj_wf_def obj_initial_fields)

lemma obj_initial_abs: "obj_abs (obj_initial positions0 phases0) = initial_state positions0 phases0"
  by (simp add: obj_abs_def obj_initial_fields initial_state_def get1_def get2_def)


lemma obj_loop_sound:
  assumes wf: "obj_wf s"
  shows "map_sum id obj_abs (obj_loop adj_matrix tol dt gamma gamma_theta K freqs n s)
           = sim_loop adj_matrix tol dt gamma gamma_theta K freqs n (obj_abs s) \<and>
         (\<forall>s'. obj_loop adj_matrix tol dt gamma gamma_theta K freqs n s = Inr s' \<longrightarrow>
            obj_wf s' \<and>
            take (length (r_positions_history s)) (r_positions_history s') = r_positions_history s \<and>
            take (length (r_phase_history s)) (r_phase_history s') = r_phase_history s \<and>
            (\<forall>r \<in> set (r_positions_history s) \<union> set (r_phase_history s).
               cells (mem s') r = cells (mem s) r))"
  using wf
proof (induction n arbitrary: s)
  case 0
  then show ?case by simp
next
  case (Suc n)
  show ?case
  proof (cases "obj_step adj_matrix tol dt gamma gamma_theta K freqs s")
    case (Inl e)
    then show ?thesis using obj_step_error[OF Inl] by simp
  next
    case (Inr bs)
    obtain b s1 where bs: "bs = (b, s1)" by (cases bs) auto
    have st: "obj_step adj_matrix tol dt gamma gamma_theta K freqs s = Inr (b, s1)"
      using Inr bs by simp
    from obj_step_sound[OF Suc.prems st] obtain rp rph where
      sim: "sim_step adj_matrix tol dt gamma gamma_theta K freqs (obj_abs s) = Inr (b, obj_abs s1)"
      and wf1: "obj_wf s1"
      and hp: "r_positions_history s1 = r_positions_history s @ [rp]"
      and hph: "r_phase_history s1 = r_phase_history s @ [rph]"
      and fr: "\<forall>r \<in> set (r_positions_history s) \<union> set (r_phase_history s).
              cells (mem s1) r = cells (mem s) r"
      by blast
    show ?thesis
    proof (cases b)
      case True
      then show ?thesis using st sim wf1 hp hph fr by simp
    next
      case False
      from Suc.IH[OF wf1] have
        eq: "map_sum id obj_abs (obj_loop adj_matrix tol dt gamma gamma_theta K freqs n s1)
           = sim_loop adj_matrix tol dt gamma gamma_theta K freqs n (obj_abs s1)"
        and rest: "\<And>s'. obj_loop adj_matrix tol dt gamma gamma_theta K freqs n s1 = Inr s' \<Longrightarrow>
            obj_wf s' \<and>
            take (length (r_positions_history s1)) (r_positions_history s') = r_positions_history s1 \<and>
            take (length (r_phase_history s1)) (r_phase_history s') = r_phase_history s1 \<and>
            (\<forall>r \<in> set (r_positions_history s1) \<union> set (r_phase_history s1).
               cells (mem s') r = cells (mem s1) r)"
        by blast+
      have L: "obj_loop adj_matrix tol dt gamma gamma_theta K freqs (Suc n) s
                 = obj_loop adj_matrix tol dt gamma gamma_theta K freqs n s1"
        using st False by simp
      have R: "sim_loop adj_matrix tol dt gamma gamma_theta K freqs (Suc n) (obj_abs s)
                 = sim_loop adj_matrix tol dt gamma gamma_theta K freqs n (obj_abs s1)"
        using sim False by simp
      have fin: "obj_wf s' \<and>
            take (length (r_positions_history s)) (r_positions_history s') = r_positions_history s \<and>
            take (length (r_phase_history s)) (r_phase_history s') = r_phase_history s \<and>
            (\<forall>r \<in> set (r_positions_history s) \<union> set (r_phase_history s).
               cells (mem s') r = cells (mem s) r)"
        if "obj_loop adj_matrix tol dt gamma gamma_theta K freqs n s1 = Inr s'" for s'
      proof -
        from rest[OF that] have w: "obj_wf s'"
          and t1: "take (length (r_positions_history s1)) (r_positions_history s') = r_positions_history s1"
          and t2: "take (length (r_phase_history s1)) (r_phase_history s') = r_phase_history s1"
          and f1: "\<forall>r \<in> set (r_positions_history s1) \<union> set (r_phase_history s1).
               cells (mem s') r = cells (mem s1) r"
          by blast+
        have "take (length (r_positions_history s)) (take (length (r_positions_history s1)) (r_positions_history s'))
                = r_positions_history s"
          unfolding t1 by (simp add: hp)
        then have p1: "take (length (r_positions_history s)) (r_positions_history s') = r_positions_history s"
          by (simp add: hp min_def)
        have "take (length (r_phase_history s)) (take (length (r_phase_history s1)) (r_phase_history s'))
                = r_phase_history s"
          unfolding t2 by (simp add: hph)
        then have p2: "take (length (r_phase_history s)) (r_phase_history s') = r_phase_history s"
          by (simp add: hph min_def)
        have "cells (mem s') r = cells (mem s) r"
          if "r \<in> set (r_positions_history s) \<union> set (r_phase_history s)" for r
        proof -
          from that have "r \<in> set (r_positions_history s1) \<union> set (r_phase_history s1)"
            by (auto simp: hp hph)
          then have "cells (mem s') r = cells (mem s1) r" using f1 by blast
          then show ?thesis using fr that by simp
        qed
        then show ?thesis using w p1 p2 by blast
      qed
      show ?thesis unfolding L R using eq fin by blast
    qed
  qed
qed

subsection \<open>Coincident nodes\<close>

text \<open>
  C1.  The claim: for a position array with coincident nodes, \<^verbatim>\<open>calculate_forces\<close> returns
  a finite force for every node and never fails; for two nodes at identical coordinates
  joined by an edge of weight \<open>w\<close> the force is bounded by \<open>w / 1e-6\<close>.
  The code at that input: the distances seen from node 0 are both zero, the mask selects
  nothing, and \<^verbatim>\<open>np.min\<close> of the empty selection raises \<^verbatim>\<open>ValueError\<close> before any force
  is computed.  This holds for every weight and every common coordinate pair.
\<close>

theorem calculate_forces_coincident:
  "calculate_forces [[0, w], [w, 0]] [[x, y], [x, y]] = Inl ValueError"
  by (simp add: calculate_forces_def force_on_def masked_def vsub_def vnorm_def upt_rec)

subsection \<open>The force law\<close>

text \<open>
  The law itself, where a pair of nodes exists.  For a position array of at least two
  nodes in which every two distinct nodes are more than \<open>1e-6\<close> apart,
  \<^verbatim>\<open>calculate_forces\<close> returns, and component \<open>k\<close> of the force on node \<open>i\<close> is the sum over
  the other nodes \<open>j\<close> (the included ones, in index order) of
  \<open>adjacency[i,j] * (p\<^sub>j[k] - p\<^sub>i[k]) / max(d\<^sub>j, 1e-6)\<close>.  The array shapes are those numpy
  guarantees: \<open>N\<close> rows of \<open>d\<close> coordinates, and a square adjacency matrix.  The instance
  after it is the literal pair of the specification: \<open>p0 = (0,0)\<close>, \<open>p1 = (3,4)\<close>, \<open>w = 2\<close>
  gives \<open>(1.2, 1.6)\<close> and \<open>(-1.2, -1.6)\<close>.
\<close>

theorem calculate_forces_far_apart:
  assumes len: "length pos = length adj_matrix"
    and square: "\<forall>i<length adj_matrix. length (adj_matrix ! i) = length adj_matrix"
    and dims: "\<forall>j<length adj_matrix. length (pos ! j) = d"
    and two: "2 \<le> length adj_matrix"
    and far: "\<forall>i<length adj_matrix. \<forall>j<length adj_matrix.
                j \<noteq> i \<longrightarrow> vnorm (vsub (pos ! j) (pos ! i)) > 1 / 1000000"
  shows "\<exists>forces. calculate_forces adj_matrix pos = Inr forces \<and>
           length forces = length adj_matrix \<and>
           (\<forall>i<length adj_matrix. length (forces ! i) = d \<and>
              (\<forall>k<d. forces ! i ! k =
                 sum_list (map (\<lambda>j. adj_matrix ! i ! j *
                    ((pos ! j ! k - pos ! i ! k) /
                       max (vnorm (vsub (pos ! j) (pos ! i))) (1 / 1000000)))
                    (filter (\<lambda>j. j \<noteq> i) [0..<length adj_matrix]))))"
proof -
  let ?n = "length adj_matrix"
  have node: "\<exists>f. force_on adj_matrix pos i = Inr f \<and> length f = d \<and>
           (\<forall>k<d. f ! k = sum_list (map (\<lambda>j. adj_matrix ! i ! j *
                ((pos ! j ! k - pos ! i ! k) / max (vnorm (vsub (pos ! j) (pos ! i))) (1 / 1000000)))
                (filter (\<lambda>j. j \<noteq> i) [0..<?n])))" if "i < ?n" for i
    using force_on_far[OF len _ dims that two] square far that by simp
  then have ok: "\<forall>i<?n. \<exists>f. force_on adj_matrix pos i = Inr f" by blast
  have C: "calculate_forces adj_matrix pos =
             Inr (map (\<lambda>i. projr (force_on adj_matrix pos i)) [0..<?n])"
    using calculate_forces_Inr[OF len ok] .
  show ?thesis
  proof (intro exI conjI allI impI)
    show "calculate_forces adj_matrix pos =
             Inr (map (\<lambda>i. projr (force_on adj_matrix pos i)) [0..<?n])" by (rule C)
  next
    show "length (map (\<lambda>i. projr (force_on adj_matrix pos i)) [0..<?n]) = ?n" by simp
  next
    fix i assume "i < ?n"
    then show "length (map (\<lambda>i. projr (force_on adj_matrix pos i)) [0..<?n] ! i) = d"
      using node[of i] by auto
  next
    fix i k assume "i < ?n" "k < d"
    then show "map (\<lambda>i. projr (force_on adj_matrix pos i)) [0..<?n] ! i ! k =
       sum_list (map (\<lambda>j. adj_matrix ! i ! j *
                    ((pos ! j ! k - pos ! i ! k) /
                       max (vnorm (vsub (pos ! j) (pos ! i))) (1 / 1000000)))
                    (filter (\<lambda>j. j \<noteq> i) [0..<?n]))"
      using node[of i] by auto
  qed
qed

theorem calculate_forces_far_apart_witness:
  "\<exists>forces. calculate_forces [[0, 2], [2, 0]] [[0, 0], [3, 4]] = Inr forces \<and>
     forces ! 0 ! 0 = 6 / 5 \<and> forces ! 0 ! 1 = 8 / 5 \<and>
     forces ! 1 ! 0 = - (6 / 5) \<and> forces ! 1 ! 1 = - (8 / 5)"
proof -
  have n: "length [[0, 2], [2, 0 :: real]] = 2" by simp
  have h1: "length [[0, 0], [3, 4 :: real]] = length [[0, 2], [2, 0 :: real]]" by simp
  have h2: "\<forall>i<length [[0, 2], [2, 0 :: real]]. length ([[0, 2], [2, 0 :: real]] ! i) = length [[0, 2], [2, 0 :: real]]"
    by (simp add: All_less_Suc eval_nat_numeral)
  have h3: "\<forall>j<length [[0, 2], [2, 0 :: real]]. length ([[0, 0], [3, 4 :: real]] ! j) = 2"
    by (simp add: All_less_Suc eval_nat_numeral)
  have h4: "2 \<le> length [[0, 2], [2, 0 :: real]]" by simp
  have h5: "\<forall>i<length [[0, 2], [2, 0 :: real]]. \<forall>j<length [[0, 2], [2, 0 :: real]].
       j \<noteq> i \<longrightarrow> vnorm (vsub ([[0, 0], [3, 4 :: real]] ! j) ([[0, 0], [3, 4 :: real]] ! i)) > 1 / 1000000"
    by (simp add: All_less_Suc eval_nat_numeral vnorm_def vsub_def sqrt_25)
  from calculate_forces_far_apart[OF h1 h2 h3 h4 h5]
  obtain forces where f: "calculate_forces [[0, 2], [2, 0]] [[0, 0], [3, 4]] = Inr forces"
    and c: "\<forall>i<2. \<forall>k<2. forces ! i ! k =
                 sum_list (map (\<lambda>j. [[0, 2], [2, 0 :: real]] ! i ! j *
                    (([[0, 0], [3, 4 :: real]] ! j ! k - [[0, 0], [3, 4 :: real]] ! i ! k) /
                       max (vnorm (vsub ([[0, 0], [3, 4 :: real]] ! j) ([[0, 0], [3, 4 :: real]] ! i))) (1 / 1000000)))
                    (filter (\<lambda>j. j \<noteq> i) [0..<2]))"
    unfolding n by blast
  have u: "[0..<2] = [0, Suc 0]" by (simp add: upt_rec)
  have "forces ! 0 ! 0 = 6 / 5" "forces ! 0 ! 1 = 8 / 5"
       "forces ! 1 ! 0 = - (6 / 5)" "forces ! 1 ! 1 = - (8 / 5)"
    using c by (simp_all add: u vnorm_def vsub_def sqrt_25)
  with f show ?thesis by blast
qed

text \<open>
  C6.  The claim: for every position array whose pairwise distances all exceed \<open>1e-6\<close>,
  the force on node \<open>i\<close> is the sum over the included \<open>j\<close> of
  \<open>adjacency[i,j] * (delta\<^sub>j / max(d\<^sub>j, floor))\<close>.  An array of one node has no pair of
  nodes, so it meets the condition, and the sum over its included nodes is empty: the
  claim gives it the force zero.  The code at that input: the only distance is the one
  from the node to itself, the mask selects nothing, and \<^verbatim>\<open>np.min\<close> of the empty selection
  raises \<^verbatim>\<open>ValueError\<close>, whatever the weight and the coordinates are.
\<close>

theorem calculate_forces_single_node:
  "calculate_forces [[w]] [p] = Inl ValueError"
proof -
  have "force_on [[w]] [p] 0 = Inl ValueError"
    by (rule force_on_all_close) (simp add: vnorm_vsub_self)
  then show ?thesis by (simp add: calculate_forces_def)
qed

subsection \<open>The integrator\<close>

text \<open>
  C3.  One pass of the loop body that returns performs exactly these updates, for every
  node \<open>i\<close> and coordinate \<open>k\<close>: the new velocity is
  \<open>velocity + force * dt - gamma * velocity\<close> with the velocity of the previous step in the
  damping term, the recorded position is \<open>position + velocity * dt\<close> with the new velocity;
  the new phase velocity is the old one plus
  \<open>(intrinsic_frequency\<^sub>i + K * coupling\<^sub>i - gamma_theta * phase_velocity\<^sub>i) * dt\<close> with the phase
  velocity of the previous step in the damping term and \<open>coupling\<^sub>i\<close> the Kuramoto sum, and
  the recorded phase is \<open>phase + phase_velocity * dt\<close> with the new phase velocity.  Unless
  the loop stops at this step, the recorded position and phase become the current ones.
\<close>

theorem integrator_step:
  assumes step: "sim_step adj_matrix tol dt gamma gamma_theta K freqs s = Inr (b, s')"
    and lp: "length (positions s) = length adj_matrix"
    and lv: "length (velocities s) = length adj_matrix"
    and dims: "\<forall>i<length adj_matrix. length (positions s ! i) = d \<and> length (velocities s ! i) = d"
    and lph: "length (phases s) = length adj_matrix"
    and lpv: "length (phase_velocities s) = length adj_matrix"
    and lf: "length freqs = length adj_matrix"
  shows "\<exists>forces. calculate_forces adj_matrix (positions s) = Inr forces \<and>
     (\<forall>i<length adj_matrix. \<forall>k<d.
         velocities s' ! i ! k =
           velocities s ! i ! k + forces ! i ! k * dt - gamma * velocities s ! i ! k \<and>
         last (positions_history s') ! i ! k =
           positions s ! i ! k + velocities s' ! i ! k * dt) \<and>
     (\<forall>i<length adj_matrix.
         phase_velocities s' ! i =
           phase_velocities s ! i +
             (freqs ! i
              + K * sum_list (map (\<lambda>j. adj_matrix ! i ! j * sin (phases s ! j - phases s ! i))
                                [0..<length adj_matrix])
              - gamma_theta * phase_velocities s ! i) * dt \<and>
         last (phase_history s') ! i = phases s ! i + phase_velocities s' ! i * dt) \<and>
     (\<not> b \<longrightarrow> positions s' = last (positions_history s') \<and> phases s' = last (phase_history s'))"
proof -
  let ?n = "length adj_matrix"
  from sim_step_fields[OF step] obtain forces where
    c: "calculate_forces adj_matrix (positions s) = Inr forces" and
    v: "velocities s' = map2 (map2 (\<lambda>v a. v + (a * dt - gamma * v))) (velocities s) forces" and
    ph: "positions_history s' = positions_history s @
       [map2 (map2 (\<lambda>p v. p + v * dt)) (positions s) (velocities s')]" and
    pv: "phase_velocities s' = map2 (\<lambda>pv a. pv + a * dt) (phase_velocities s)
       (map2 (\<lambda>(w, c) pv. w + K * c - gamma_theta * pv)
          (zip freqs (phase_diffs adj_matrix (phases s))) (phase_velocities s))" and
    phh: "phase_history s' = phase_history s @
       [map2 (\<lambda>p pv. p + pv * dt) (phases s) (phase_velocities s')]" and
    nb: "positions s' = (if b then positions s else last (positions_history s'))"
        "phases s' = (if b then phases s else last (phase_history s'))"
    by blast
  have dp: "\<forall>j<?n. length (positions s ! j) = d" using dims by blast
  from calculate_forces_shape[OF c lp dp]
  have lF: "length forces = ?n" and dF: "\<forall>i<?n. length (forces ! i) = d" by blast+
  have rows: "\<forall>i<?n. length (adj_matrix ! i) = ?n"
    using calculate_forces_rows(2)[OF c lp] force_on_Inr_D(1) lp by metis
  have lv': "length (velocities s') = ?n" using lv lF by (simp add: v)
  have A: "velocities s' ! i ! k =
           velocities s ! i ! k + forces ! i ! k * dt - gamma * velocities s ! i ! k \<and>
         last (positions_history s') ! i ! k =
           positions s ! i ! k + velocities s' ! i ! k * dt" if "i < ?n" "k < d" for i k
  proof -
    have 1: "velocities s' ! i ! k =
           velocities s ! i ! k + forces ! i ! k * dt - gamma * velocities s ! i ! k"
      using that lv lF dims dF by (simp add: v)
    have "length (velocities s' ! i) = d" using that lv lF dims dF by (simp add: v)
    then have 2: "last (positions_history s') ! i ! k =
           positions s ! i ! k + velocities s' ! i ! k * dt"
      using that lp lv' dims by (simp add: ph)
    from 1 2 show ?thesis by blast
  qed
  have lpd: "length (phase_diffs adj_matrix (phases s)) = ?n" by (simp add: phase_diffs_def)
  have B: "phase_velocities s' ! i =
           phase_velocities s ! i +
             (freqs ! i
              + K * sum_list (map (\<lambda>j. adj_matrix ! i ! j * sin (phases s ! j - phases s ! i))
                                [0..<?n])
              - gamma_theta * phase_velocities s ! i) * dt \<and>
         last (phase_history s') ! i = phases s ! i + phase_velocities s' ! i * dt" if "i < ?n" for i
  proof -
    have pd: "phase_diffs adj_matrix (phases s) ! i =
        sum_list (map (\<lambda>j. adj_matrix ! i ! j * sin (phases s ! j - phases s ! i)) [0..<?n])"
      using phase_diffs_nth[of i adj_matrix "phases s"] that rows lph by simp
    have 1: "phase_velocities s' ! i =
           phase_velocities s ! i +
             (freqs ! i + K * phase_diffs adj_matrix (phases s) ! i
              - gamma_theta * phase_velocities s ! i) * dt"
      using that lpv lf lpd by (simp add: pv)
    have "length (phase_velocities s') = ?n" using lpv lf lpd by (simp add: pv)
    then have 2: "last (phase_history s') ! i = phases s ! i + phase_velocities s' ! i * dt"
      using that lph by (simp add: phh)
    from 1 2 pd show ?thesis by simp
  qed
  show ?thesis using c A B nb by auto
qed

theorem integrator_step_witness:
  "\<exists>b s'. sim_step [[0, 2], [2, 0]] (1 / 10) (1 / 2) (1 / 4) (1 / 10) 3 [5, 7]
            \<lparr> positions = [[0, 0], [3, 4]], velocities = [[1, 0], [0, 0]],
              phases = [0, 1], phase_velocities = [2, 0],
              positions_history = [[[0, 0], [3, 4]]], phase_history = [[0, 1]],
              potential_energy_history = [], kinetic_energy_history = [],
              total_energy_history = [] \<rparr> = Inr (b, s') \<and>
     velocities s' = [[27 / 20, 4 / 5], [- (3 / 5), - (4 / 5)]] \<and>
     last (positions_history s') = [[27 / 40, 2 / 5], [27 / 10, 18 / 5]] \<and>
     phase_velocities s' ! 0 = 2 + (5 + 3 * (2 * sin 1) - 1 / 10 * 2) * (1 / 2) \<and>
     last (phase_history s') ! 0 = 0 + phase_velocities s' ! 0 * (1 / 2)"
proof -
  let ?A = "[[0, 2], [2, 0 :: real]]"
  let ?s = "\<lparr> positions = [[0, 0], [3, 4 :: real]], velocities = [[1, 0], [0, 0 :: real]],
              phases = [0, 1 :: real], phase_velocities = [2, 0 :: real],
              positions_history = [[[0, 0], [3, 4 :: real]]], phase_history = [[0, 1 :: real]],
              potential_energy_history = [], kinetic_energy_history = [],
              total_energy_history = [] \<rparr>"
  have c: "calculate_forces ?A (positions ?s) = Inr [[6 / 5, 8 / 5], [- (6 / 5), - (8 / 5)]]"
    using calculate_forces_two_nodes[of "[0, 0]" "[3, 4]" 0 2 0]
    by (simp add: vnorm_def vsub_def sqrt_25)
  obtain b s' where st: "sim_step ?A (1 / 10) (1 / 2) (1 / 4) (1 / 10) 3 [5, 7] ?s = Inr (b, s')"
    using sim_step_returns[OF c] by blast
  have h2: "\<forall>i<length ?A. length (positions ?s ! i) = 2 \<and> length (velocities ?s ! i) = 2"
    by (simp add: All_less_Suc eval_nat_numeral)
  from integrator_step[OF st _ _ h2]
  obtain forces where f: "calculate_forces ?A (positions ?s) = Inr forces"
    and v: "\<forall>i<length ?A. \<forall>k<2.
         velocities s' ! i ! k =
           velocities ?s ! i ! k + forces ! i ! k * (1 / 2) - 1 / 4 * velocities ?s ! i ! k \<and>
         last (positions_history s') ! i ! k =
           positions ?s ! i ! k + velocities s' ! i ! k * (1 / 2)"
    and p: "\<forall>i<length ?A.
         phase_velocities s' ! i =
           phase_velocities ?s ! i +
             ([5, 7] ! i
              + 3 * sum_list (map (\<lambda>j. ?A ! i ! j * sin (phases ?s ! j - phases ?s ! i))
                                [0..<length ?A])
              - 1 / 10 * phase_velocities ?s ! i) * (1 / 2) \<and>
         last (phase_history s') ! i = phases ?s ! i + phase_velocities s' ! i * (1 / 2)"
    by auto
  have forces: "forces = [[6 / 5, 8 / 5], [- (6 / 5), - (8 / 5)]]" using f c by simp
  from sim_step_fields[OF st] have lens:
    "length (velocities s') = 2" "length (velocities s' ! 0) = 2" "length (velocities s' ! 1) = 2"
    "length (last (positions_history s')) = 2" "length (last (positions_history s') ! 0) = 2"
    "length (last (positions_history s') ! 1) = 2"
    using c by auto
  have u: "[0..<2] = [0, Suc 0]" by (simp add: upt_rec)
  have vs: "velocities s' ! 0 ! 0 = 27 / 20" "velocities s' ! 0 ! 1 = 4 / 5"
           "velocities s' ! 1 ! 0 = - (3 / 5)" "velocities s' ! 1 ! 1 = - (4 / 5)"
    using v by (simp_all add: forces All_less_Suc eval_nat_numeral)
  have ps: "last (positions_history s') ! 0 ! 0 = 27 / 40" "last (positions_history s') ! 0 ! 1 = 2 / 5"
           "last (positions_history s') ! 1 ! 0 = 27 / 10" "last (positions_history s') ! 1 ! 1 = 18 / 5"
    using v vs by (simp_all add: forces All_less_Suc eval_nat_numeral)
  have two: "xs = [x, y]" if "length xs = 2" "xs ! 0 = x" "xs ! 1 = y" for xs :: "'a list" and x y
    using that by (intro nth_equalityI) (auto simp: less_Suc_eq eval_nat_numeral)
  have V: "velocities s' = [[27 / 20, 4 / 5], [- (3 / 5), - (4 / 5)]]"
    by (rule two[OF lens(1) two[OF lens(2) vs(1) vs(2)] two[OF lens(3) vs(3) vs(4)]])
  have P: "last (positions_history s') = [[27 / 40, 2 / 5], [27 / 10, 18 / 5]]"
    by (rule two[OF lens(4) two[OF lens(5) ps(1) ps(2)] two[OF lens(6) ps(3) ps(4)]])
  have PV: "phase_velocities s' ! 0 = 2 + (5 + 3 * (2 * sin 1) - 1 / 10 * 2) * (1 / 2)"
           "last (phase_history s') ! 0 = 0 + phase_velocities s' ! 0 * (1 / 2)"
    using p by (simp_all add: u All_less_Suc eval_nat_numeral)
  show ?thesis using st V P PV by blast
qed

subsection \<open>Energy bookkeeping\<close>

text \<open>
  C7.  A realization that returns has passed through a sequence of states, one more than
  it recorded steps: the first is the state before the loop, and the loop body takes each
  state to the next.  For every recorded step \<open>t\<close>, with the state the body returned at that
  step: the position entry \<open>t + 1\<close> is the position the step computed from the updated
  velocity; the kinetic entry is \<open>0.5 * \<Sum>\<^sub>i \<parallel>v\<^sub>i\<parallel>\<^sup>2\<close> over the rows of the velocity array of
  that state, the velocity after the update; the potential entry is \<open>0.5\<close> times the sum
  over the pairs \<open>i < j\<close> of \<open>adjacency[i,j] * max(\<parallel>p\<^sub>i - p\<^sub>j\<parallel>, 1e-6)\<^sup>2\<close> at position \<open>t + 1\<close>,
  nonnegative when the adjacency is; and the total entry is the sum of the two.  The
  three energy histories have one entry per step.  The adjacency matrix is symmetric, as
  that of an undirected graph is: the code reads entry \<open>[i, j]\<close> with \<open>j < i\<close>.
\<close>

theorem energy_histories:
  assumes run: "simulate adj_matrix iterations tol dt gamma gamma_theta K positions0 phases0 freqs
                  = Inr (ph, phh, pe, ke, te)"
    and sym: "\<forall>i<length adj_matrix. \<forall>j<length adj_matrix. adj_matrix ! i ! j = adj_matrix ! j ! i"
  shows "\<exists>sts. length sts = length te + 1 \<and> sts ! 0 = initial_state positions0 phases0 \<and>
     length ke = length te \<and> length pe = length te \<and> length ph = length te + 1 \<and>
     (\<forall>t<length te.
        (\<exists>b. sim_step adj_matrix tol dt gamma gamma_theta K freqs (sts ! t) = Inr (b, sts ! (t + 1))) \<and>
        ph ! (t + 1) = map2 (map2 (\<lambda>p v. p + v * dt)) (positions (sts ! t)) (velocities (sts ! (t + 1))) \<and>
        ke ! t = 0.5 * (\<Sum>i<length (velocities (sts ! (t + 1))).
                           (vnorm (velocities (sts ! (t + 1)) ! i))\<^sup>2) \<and>
        pe ! t = 0.5 * (\<Sum>j<length adj_matrix. \<Sum>i<j.
                   adj_matrix ! i ! j *
                     (max (vnorm (vsub (ph ! (t + 1) ! i) (ph ! (t + 1) ! j))) (1 / 1000000))\<^sup>2) \<and>
        ((\<forall>i<length adj_matrix. \<forall>j<length adj_matrix. 0 \<le> adj_matrix ! i ! j) \<longrightarrow> 0 \<le> pe ! t) \<and>
        te ! t = ke ! t + pe ! t)"
proof -
  let ?s0 = "initial_state positions0 phases0"
  from run obtain s' where
    loop: "sim_loop adj_matrix tol dt gamma gamma_theta K freqs (nat iterations) ?s0 = Inr s'"
    and res: "result_of s' = (ph, phh, pe, ke, te)"
    by (auto simp: simulate_def split: sum.splits)
  have r: "positions_history s' = ph" "potential_energy_history s' = pe"
    "kinetic_energy_history s' = ke" "total_energy_history s' = te"
    using res by (simp_all add: result_of_def)
  from sim_loop_trace[OF loop] obtain sts where
    ne: "sts \<noteq> []" and s0: "sts ! 0 = ?s0" and sl: "last sts = s'"
    and ch: "\<forall>t. t + 1 < length sts \<longrightarrow>
              (\<exists>b. sim_step adj_matrix tol dt gamma gamma_theta K freqs (sts ! t)
                     = Inr (b, sts ! (t + 1)))"
    by blast
  define L where "L = length sts - 1"
  have L: "L < length sts" "length sts = L + 1" using ne by (simp_all add: L_def)
  have last: "sts ! L = s'" using sl ne by (simp add: L_def last_conv_nth)
  define kin where "kin u = 0.5 * sum_list (map (\<lambda>v. (vnorm v)\<^sup>2) (velocities (sts ! (u + 1))))" for u
  define pot where "pot u = compute_potential_energy adj_matrix (last (positions_history (sts ! (u + 1))))" for u
  from chain_histories[OF ch L(1)] have
    K: "ke = map kin [0..<L]" and P: "pe = map pot [0..<L]"
    and E: "te = map (\<lambda>u. kin u + pot u) [0..<L]"
    and H: "ph = positions0 # map (\<lambda>u. last (positions_history (sts ! (u + 1)))) [0..<L]"
    unfolding last r s0 kin_def pot_def by (simp_all add: initial_state_def)
  have lte: "length te = L" by (simp add: E)
  have body: "(\<exists>b. sim_step adj_matrix tol dt gamma gamma_theta K freqs (sts ! t) = Inr (b, sts ! (t + 1))) \<and>
        ph ! (t + 1) = map2 (map2 (\<lambda>p v. p + v * dt)) (positions (sts ! t)) (velocities (sts ! (t + 1))) \<and>
        ke ! t = 0.5 * (\<Sum>i<length (velocities (sts ! (t + 1))).
                           (vnorm (velocities (sts ! (t + 1)) ! i))\<^sup>2) \<and>
        pe ! t = 0.5 * (\<Sum>j<length adj_matrix. \<Sum>i<j.
                   adj_matrix ! i ! j *
                     (max (vnorm (vsub (ph ! (t + 1) ! i) (ph ! (t + 1) ! j))) (1 / 1000000))\<^sup>2) \<and>
        ((\<forall>i<length adj_matrix. \<forall>j<length adj_matrix. 0 \<le> adj_matrix ! i ! j) \<longrightarrow> 0 \<le> pe ! t) \<and>
        te ! t = ke ! t + pe ! t" if t: "t < L" for t
  proof -
    from ch t L(2) obtain b where
      st: "sim_step adj_matrix tol dt gamma gamma_theta K freqs (sts ! t) = Inr (b, sts ! (t + 1))"
      by auto
    from sim_step_fields[OF st] have
      "positions_history (sts ! (t + 1)) = positions_history (sts ! t) @
         [map2 (map2 (\<lambda>p v. p + v * dt)) (positions (sts ! t)) (velocities (sts ! (t + 1)))]"
      by auto
    then have np: "last (positions_history (sts ! (t + 1)))
        = map2 (map2 (\<lambda>p v. p + v * dt)) (positions (sts ! t)) (velocities (sts ! (t + 1)))"
      by simp
    have pht: "ph ! (t + 1) = last (positions_history (sts ! (t + 1)))"
      using t by (simp add: H)
    have ket: "ke ! t = kin t" and pet: "pe ! t = pot t" and tet: "te ! t = kin t + pot t"
      using t by (simp_all add: K P E)
    have k2: "kin t = 0.5 * (\<Sum>i<length (velocities (sts ! (t + 1))).
                           (vnorm (velocities (sts ! (t + 1)) ! i))\<^sup>2)"
      unfolding kin_def by (simp only: kinetic_sum)
    have p2: "pot t = compute_potential_energy adj_matrix (ph ! (t + 1))"
      unfolding pot_def pht ..
    show ?thesis
      using st pht np ket pet tet k2 p2
        compute_potential_energy_pairs[OF sym, of "ph ! (t + 1)"]
        compute_potential_energy_nonneg[of adj_matrix "ph ! (t + 1)"]
      by auto
  qed
  show ?thesis
    using L(2) s0 lte body by (intro exI[of _ sts]) (simp add: K P H)
qed

theorem energy_histories_witness:
  "simulate [[0, 2], [2, 0]] 1 (1 / 10) (1 / 2) (1 / 4) (1 / 10) 0 [[0, 0], [3, 4]] [0, 1] [5, 7]
     = Inr ([[[0, 0], [3, 4]], [[3 / 10, 2 / 5], [27 / 10, 18 / 5]]],
            [[0, 1], [5 / 4, 11 / 4]], [16], [1], [17]) \<and>
   (\<exists>sts. length sts = length [17 :: real] + 1 \<and>
      sts ! 0 = initial_state [[0, 0], [3, 4]] [0, 1] \<and>
      length [1 :: real] = length [17 :: real] \<and> length [16 :: real] = length [17 :: real] \<and>
      length [[[0, 0], [3, 4]], [[3 / 10, 2 / 5], [27 / 10, 18 / 5 :: real]]] = length [17 :: real] + 1 \<and>
      (\<forall>t<length [17 :: real].
        (\<exists>b. sim_step [[0, 2], [2, 0]] (1 / 10) (1 / 2) (1 / 4) (1 / 10) 0 [5, 7] (sts ! t)
               = Inr (b, sts ! (t + 1))) \<and>
        [[[0, 0], [3, 4]], [[3 / 10, 2 / 5], [27 / 10, 18 / 5]]] ! (t + 1)
          = map2 (map2 (\<lambda>p v. p + v * (1 / 2))) (positions (sts ! t)) (velocities (sts ! (t + 1))) \<and>
        [1] ! t = 0.5 * (\<Sum>i<length (velocities (sts ! (t + 1))).
                           (vnorm (velocities (sts ! (t + 1)) ! i))\<^sup>2) \<and>
        [16] ! t = 0.5 * (\<Sum>j<length [[0, 2], [2, 0 :: real]]. \<Sum>i<j.
                   [[0, 2], [2, 0]] ! i ! j *
                     (max (vnorm (vsub ([[[0, 0], [3, 4]], [[3 / 10, 2 / 5], [27 / 10, 18 / 5]]] ! (t + 1) ! i)
                                       ([[[0, 0], [3, 4]], [[3 / 10, 2 / 5], [27 / 10, 18 / 5]]] ! (t + 1) ! j)))
                          (1 / 1000000))\<^sup>2) \<and>
        ((\<forall>i<length [[0, 2], [2, 0 :: real]]. \<forall>j<length [[0, 2], [2, 0 :: real]].
             0 \<le> [[0, 2], [2, 0 :: real]] ! i ! j) \<longrightarrow> 0 \<le> [16 :: real] ! t) \<and>
        [17] ! t = [1] ! t + [16 :: real] ! t))"
proof (rule conjI)
  show "simulate [[0, 2], [2, 0]] 1 (1 / 10) (1 / 2) (1 / 4) (1 / 10) 0 [[0, 0], [3, 4]] [0, 1] [5, 7]
     = Inr ([[[0, 0], [3, 4]], [[3 / 10, 2 / 5], [27 / 10, 18 / 5]]],
            [[0, 1], [5 / 4, 11 / 4]], [16], [1], [17])"
    by (rule simulate_pair_eval)
next
  have sym: "\<forall>i<length [[0, 2], [2, 0 :: real]]. \<forall>j<length [[0, 2], [2, 0 :: real]].
               [[0, 2], [2, 0 :: real]] ! i ! j = [[0, 2], [2, 0]] ! j ! i"
    by (simp add: All_less_Suc eval_nat_numeral)
  show "\<exists>sts. length sts = length [17 :: real] + 1 \<and>
      sts ! 0 = initial_state [[0, 0], [3, 4]] [0, 1] \<and>
      length [1 :: real] = length [17 :: real] \<and> length [16 :: real] = length [17 :: real] \<and>
      length [[[0, 0], [3, 4]], [[3 / 10, 2 / 5], [27 / 10, 18 / 5 :: real]]] = length [17 :: real] + 1 \<and>
      (\<forall>t<length [17 :: real].
        (\<exists>b. sim_step [[0, 2], [2, 0]] (1 / 10) (1 / 2) (1 / 4) (1 / 10) 0 [5, 7] (sts ! t)
               = Inr (b, sts ! (t + 1))) \<and>
        [[[0, 0], [3, 4]], [[3 / 10, 2 / 5], [27 / 10, 18 / 5]]] ! (t + 1)
          = map2 (map2 (\<lambda>p v. p + v * (1 / 2))) (positions (sts ! t)) (velocities (sts ! (t + 1))) \<and>
        [1] ! t = 0.5 * (\<Sum>i<length (velocities (sts ! (t + 1))).
                           (vnorm (velocities (sts ! (t + 1)) ! i))\<^sup>2) \<and>
        [16] ! t = 0.5 * (\<Sum>j<length [[0, 2], [2, 0 :: real]]. \<Sum>i<j.
                   [[0, 2], [2, 0]] ! i ! j *
                     (max (vnorm (vsub ([[[0, 0], [3, 4]], [[3 / 10, 2 / 5], [27 / 10, 18 / 5]]] ! (t + 1) ! i)
                                       ([[[0, 0], [3, 4]], [[3 / 10, 2 / 5], [27 / 10, 18 / 5]]] ! (t + 1) ! j)))
                          (1 / 1000000))\<^sup>2) \<and>
        ((\<forall>i<length [[0, 2], [2, 0 :: real]]. \<forall>j<length [[0, 2], [2, 0 :: real]].
             0 \<le> [[0, 2], [2, 0 :: real]] ! i ! j) \<longrightarrow> 0 \<le> [16 :: real] ! t) \<and>
        [17] ! t = [1] ! t + [16 :: real] ! t)"
    by (rule energy_histories[OF simulate_pair_eval sym])
qed

subsection \<open>Convergence and the length of the histories\<close>

text \<open>
  C2.  For the histories a realization returns: the position and phase histories have one
  entry more than each energy history, and at most \<open>iterations\<close> steps are recorded.  The
  movement measure of step \<open>t\<close> is the one between entries \<open>t\<close> and \<open>t + 1\<close> of the position
  history.  If it is below \<open>tol\<close> at a recorded step \<open>t\<close> (counted from 0), that step is the
  last one: the position and phase histories have \<open>t + 2\<close> entries and the energy histories
  \<open>t + 1\<close>, so the triggering step is recorded and none follows.  If it is below \<open>tol\<close> at no
  recorded step, all \<open>iterations\<close> steps ran.  So the number of recorded steps is the smaller
  of \<open>iterations\<close> and the count of steps through the first convergent one.
\<close>

theorem worker_history_lengths:
  assumes run: "HONE_worker_with_damped_kuramoto gen adj_matrix dim' iterations tol seed
                  dt gamma gamma_theta K = Inr (ph, phh, pe, ke, te)"
  shows "length ph = length te + 1 \<and> length phh = length te + 1 \<and>
         length pe = length te \<and> length ke = length te \<and>
         length te \<le> nat iterations \<and>
         (\<forall>t<length te. total_movement (ph ! (t + 1)) (ph ! t) < tol \<longrightarrow>
              length ph = t + 2 \<and> length phh = t + 2 \<and>
              length pe = t + 1 \<and> length ke = t + 1 \<and> length te = t + 1) \<and>
         ((\<forall>t<length te. \<not> total_movement (ph ! (t + 1)) (ph ! t) < tol) \<longrightarrow>
              length ph = nat iterations + 1 \<and> length te = nat iterations)"
proof -
  from worker_simulate[of gen adj_matrix dim' iterations tol seed dt gamma gamma_theta K] run
  obtain positions0 phases0 freqs where
    "simulate adj_matrix iterations tol dt gamma gamma_theta K positions0 phases0 freqs
       = Inr (ph, phh, pe, ke, te)"
    by auto
  from simulate_lengths[OF this] show ?thesis by auto
qed

theorem worker_history_lengths_witness:
  "\<exists>ph phh pe ke te.
      HONE_worker_with_damped_kuramoto
        \<lparr> rng_seed = (\<lambda>s. ()), rng_rand = (\<lambda>n d g. ([[0, 0], [3, 4]], g)),
          rng_uniform = (\<lambda>n g. ([0, 1], g)), rng_normal = (\<lambda>n g. ([5, 7], g)) \<rparr>
        [[0, 0], [0, 0]] 2 5 (1 / 10) 0 (1 / 2) (1 / 4) (1 / 10) 3 = Inr (ph, phh, pe, ke, te) \<and>
      total_movement (ph ! 1) (ph ! 0) < 1 / 10 \<and>
      length ph = 2 \<and> length phh = 2 \<and> length pe = 1 \<and> length ke = 1 \<and> length te = 1"
proof -
  let ?A = "[[0, 0], [0, 0 :: real]]"
  let ?P = "[[0, 0], [3, 4 :: real]]"
  let ?gen = "\<lparr> rng_seed = (\<lambda>s. ()), rng_rand = (\<lambda>n d g. (?P, g)),
          rng_uniform = (\<lambda>n g. ([0, 1 :: real], g)), rng_normal = (\<lambda>n g. ([5, 7 :: real], g)) \<rparr>"
  let ?s0 = "initial_state ?P [0, 1]"
  have c: "calculate_forces ?A (positions ?s0) = Inr [[0, 0], [0, 0]]"
    using calculate_forces_two_nodes[of "[0, 0]" "[3, 4]" 0 0 0]
    by (simp add: vnorm_def vsub_def sqrt_25 initial_state_def)
  obtain b s1 where st: "sim_step ?A (1 / 10) (1 / 2) (1 / 4) (1 / 10) 3 [5, 7] ?s0 = Inr (b, s1)"
    using sim_step_returns[OF c] by blast
  from sim_step_fields[OF st] have
    v: "velocities s1 = [[0, 0], [0, 0]]"
    using c by (auto simp: initial_state_def zeros_like_def)
  from sim_step_fields[OF st] have
    h: "positions_history s1 = [?P, ?P]"
    unfolding v by (auto simp: initial_state_def)
  from sim_step_fields[OF st] have
    b: "b \<longleftrightarrow> total_movement (last (positions_history s1)) (positions ?s0) < 1 / 10"
    and lens: "length (phase_history s1) = 2" "length (total_energy_history s1) = 1"
    by (auto simp: initial_state_def)
  have "b" unfolding b h by (simp add: initial_state_def total_movement_same)
  have loop: "sim_loop ?A (1 / 10) (1 / 2) (1 / 4) (1 / 10) 3 [5, 7] (nat 5) ?s0 = Inr s1"
    using st \<open>b\<close> by (simp add: eval_nat_numeral)
  obtain ph phh pe ke te where r: "result_of s1 = (ph, phh, pe, ke, te)"
    by (cases "result_of s1") auto
  have run: "HONE_worker_with_damped_kuramoto ?gen ?A 2 5 (1 / 10) 0 (1 / 2) (1 / 4) (1 / 10) 3
        = Inr (ph, phh, pe, ke, te)"
    using loop r by (simp add: HONE_worker_with_damped_kuramoto_def simulate_def)
  have ph: "ph = [?P, ?P]" and te: "length te = 1"
    using r h lens by (simp_all add: result_of_def)
  have mv: "total_movement (ph ! 1) (ph ! 0) < 1 / 10"
    by (simp add: ph total_movement_same)
  from worker_history_lengths[OF run] te mv
  have "length ph = 2 \<and> length phh = 2 \<and> length pe = 1 \<and> length ke = 1 \<and> length te = 1"
    by simp
  with run mv show ?thesis by blast
qed

subsection \<open>Decoupled phases\<close>

text \<open>
  C9.  The claim gives the phase after step 1 as \<open>f * h\<^sup>2\<close>.  The code adds the increment to
  the phase the node starts from, which is drawn at random and is not zero in general.
  As amended: with \<open>K = 0\<close> a step that completes gives every node \<open>i\<close> the phase velocity
  \<open>phase_velocity\<^sub>i + (f\<^sub>i - gamma_theta * phase_velocity\<^sub>i) * dt\<close> and the phase
  \<open>phase\<^sub>i\<close> plus the new phase velocity times \<open>dt\<close>, whatever the other nodes hold; from a
  zero phase velocity (the first step) the phase velocity after the step is \<open>f\<^sub>i * dt\<close> and
  the phase is \<open>phase\<^sub>i + f\<^sub>i * dt\<^sup>2\<close>.  The counterexample runs one step with \<open>f = 1\<close>,
  \<open>h = 1\<close> and initial phase \<open>1\<close> on node 0: the recorded phase is \<open>2\<close>, not \<open>f * h\<^sup>2 = 1\<close>.
\<close>

theorem decoupled_phase_step:
  assumes step: "sim_step adj_matrix tol dt gamma gamma_theta 0 freqs s = Inr (b, s')"
    and lph: "length (phases s) = length adj_matrix"
    and lpv: "length (phase_velocities s) = length adj_matrix"
    and lf: "length freqs = length adj_matrix"
  shows "\<forall>i<length adj_matrix.
           phase_velocities s' ! i =
             phase_velocities s ! i + (freqs ! i - gamma_theta * phase_velocities s ! i) * dt \<and>
           last (phase_history s') ! i = phases s ! i + phase_velocities s' ! i * dt \<and>
           (phase_velocities s ! i = 0 \<longrightarrow>
              phase_velocities s' ! i = freqs ! i * dt \<and>
              last (phase_history s') ! i = phases s ! i + freqs ! i * dt\<^sup>2)"
proof (intro allI impI)
  fix i assume i: "i < length adj_matrix"
  from sim_step_fields[OF step] have
    pv: "phase_velocities s' = map2 (\<lambda>pv a. pv + a * dt) (phase_velocities s)
       (map2 (\<lambda>(w, c) pv. w + 0 * c - gamma_theta * pv)
          (zip freqs (phase_diffs adj_matrix (phases s))) (phase_velocities s))" and
    phh: "phase_history s' = phase_history s @
       [map2 (\<lambda>p pv. p + pv * dt) (phases s) (phase_velocities s')]"
    by auto
  have 1: "phase_velocities s' ! i =
             phase_velocities s ! i + (freqs ! i - gamma_theta * phase_velocities s ! i) * dt"
    using i lf lpv by (simp add: pv phase_diffs_length)
  have "length (phase_velocities s') = length adj_matrix"
    using lf lpv by (simp add: pv phase_diffs_length)
  then have 2: "last (phase_history s') ! i = phases s ! i + phase_velocities s' ! i * dt"
    using i lph by (simp add: phh)
  show "phase_velocities s' ! i =
             phase_velocities s ! i + (freqs ! i - gamma_theta * phase_velocities s ! i) * dt \<and>
           last (phase_history s') ! i = phases s ! i + phase_velocities s' ! i * dt \<and>
           (phase_velocities s ! i = 0 \<longrightarrow>
              phase_velocities s' ! i = freqs ! i * dt \<and>
              last (phase_history s') ! i = phases s ! i + freqs ! i * dt\<^sup>2)"
    using 1 2 by (simp add: power2_eq_square)
qed

theorem decoupled_phase_step_witness:
  "\<exists>b s'. sim_step [[0, 0], [0, 0]] (1 / 10) (1 / 2) (1 / 4) (1 / 10) 0 [5, 7]
             (initial_state [[0, 0], [3, 4]] [1, 2]) = Inr (b, s') \<and>
     phase_velocities s' ! 0 = 5 / 2 \<and> last (phase_history s') ! 0 = 9 / 4 \<and>
     phase_velocities s' ! 1 = 7 / 2 \<and> last (phase_history s') ! 1 = 15 / 4"
proof -
  let ?A = "[[0, 0], [0, 0 :: real]]"
  have c: "calculate_forces ?A (positions (initial_state [[0, 0], [3, 4]] [1, 2])) = Inr [[0, 0], [0, 0]]"
    by (simp add: initial_state_def calculate_forces_zero_pair)
  obtain b s' where st: "sim_step ?A (1 / 10) (1 / 2) (1 / 4) (1 / 10) 0 [5, 7]
             (initial_state [[0, 0], [3, 4]] [1, 2]) = Inr (b, s')"
    using sim_step_returns[OF c] by blast
  have "length (phases (initial_state [[0, 0], [3, 4]] [1, 2])) = length ?A"
    "length (phase_velocities (initial_state [[0, 0], [3, 4]] [1, 2])) = length ?A"
    "length [5, 7 :: real] = length ?A"
    by (simp_all add: initial_state_def)
  from decoupled_phase_step[OF st this]
  have "phase_velocities s' ! 0 = 5 / 2" "last (phase_history s') ! 0 = 9 / 4"
    "phase_velocities s' ! 1 = 7 / 2" "last (phase_history s') ! 1 = 15 / 4"
    by (simp_all add: All_less_Suc eval_nat_numeral power2_eq_square initial_state_def)
  with st show ?thesis by blast
qed

theorem decoupled_phase_counterexample:
  "simulate [[0, 0], [0, 0]] 1 (1 / 10) 1 (1 / 4) (1 / 10) 0 [[0, 0], [3, 4]] [1, 0] [1, 0]
     = Inr ([[[0, 0], [3, 4]], [[0, 0], [3, 4]]], [[1, 0], [2, 0]], [0], [0], [0])
   \<and> (2 :: real) \<noteq> 1 * 1\<^sup>2"
  by (simp add: simulate_def sim_step_def initial_state_def calculate_forces_zero_pair
        zeros_like_def phase_diffs_def total_movement_def compute_potential_energy_def
        result_of_def vnorm_def vsub_def upt_rec Let_def)

subsection \<open>A network without edges\<close>

text \<open>
  C8.  The claim has every velocity magnitude strictly decreasing whenever
  \<open>0 < gamma * dt < 2\<close>.  The code's damping term is \<open>gamma * velocity\<close>, without \<open>dt\<close>, so
  with zero force a step multiplies every velocity by \<open>1 - gamma\<close>.
  As amended: for an adjacency matrix of zeros, a step that completes has all-zero forces
  and all-zero coupling sums, and turns the velocity \<open>v\<close> of every node into
  \<open>(1 - gamma) * v\<close>, of magnitude \<open>\<bar>1 - gamma\<bar> * \<parallel>v\<parallel>\<close>: strictly smaller for a nonzero velocity
  when \<open>0 < gamma < 2\<close>, whatever \<open>dt\<close> is.  In a realization the velocities start at zero,
  so they stay zero: every recorded position is the initial position and every kinetic
  energy is zero.  The counterexample: with \<open>gamma = 3\<close> and \<open>dt = 1/2\<close> (so
  \<open>gamma * dt = 1.5\<close>) the velocity \<open>(1, 0)\<close> becomes \<open>(-2, 0)\<close>, of twice the magnitude; and
  the first step of a realization leaves the zero velocities at zero, which is no strict
  decrease either.
\<close>

theorem zero_adjacency_dynamics:
  assumes zero: "\<forall>row \<in> set adj_matrix. \<forall>x \<in> set row. x = 0"
    and step: "sim_step adj_matrix tol dt gamma gamma_theta K freqs s = Inr (b, s')"
    and lp: "length (positions s) = length adj_matrix"
    and lv: "length (velocities s) = length adj_matrix"
    and dims: "\<forall>i<length adj_matrix. length (positions s ! i) = d \<and> length (velocities s ! i) = d"
    and run: "simulate adj_matrix iterations tol dt gamma gamma_theta K positions0 phases0 freqs
                = Inr (ph, phh, pe, ke, te)"
    and l0: "length positions0 = length adj_matrix"
    and d0: "\<forall>i<length adj_matrix. length (positions0 ! i) = d"
  shows "calculate_forces adj_matrix (positions s) = Inr (replicate (length adj_matrix) (replicate d 0)) \<and>
         phase_diffs adj_matrix (phases s) = replicate (length adj_matrix) 0 \<and>
         (\<forall>i<length adj_matrix.
            velocities s' ! i = map (\<lambda>v. (1 - gamma) * v) (velocities s ! i) \<and>
            vnorm (velocities s' ! i) = \<bar>1 - gamma\<bar> * vnorm (velocities s ! i) \<and>
            (0 < gamma \<and> gamma < 2 \<and> vnorm (velocities s ! i) \<noteq> 0 \<longrightarrow>
               vnorm (velocities s' ! i) < vnorm (velocities s ! i))) \<and>
         (\<forall>P \<in> set ph. P = positions0) \<and> (\<forall>k \<in> set ke. k = 0)"
proof -
  let ?n = "length adj_matrix"
  from sim_step_fields[OF step] obtain forces where
    c: "calculate_forces adj_matrix (positions s) = Inr forces" and
    v1: "velocities s' = map2 (map2 (\<lambda>v a. v + (a * dt - gamma * v))) (velocities s) forces"
    by blast
  have dp: "\<forall>j<?n. length (positions s ! j) = d" using dims by blast
  have F: "forces = replicate ?n (replicate d 0)"
    using calculate_forces_zero_adjacency[OF zero c lp dp] .
  have V: "velocities s' ! i = map (\<lambda>v. (1 - gamma) * v) (velocities s ! i)" if "i < ?n" for i
  proof -
    have "velocities s' ! i = map2 (\<lambda>v a. v + (a * dt - gamma * v)) (velocities s ! i) (replicate d 0)"
      using that lv by (simp add: v1 F)
    also have "\<dots> = map (\<lambda>v. (1 - gamma) * v) (velocities s ! i)"
      using dims that by (intro damp_zero_force) simp
    finally show ?thesis .
  qed
  have N: "vnorm (velocities s' ! i) = \<bar>1 - gamma\<bar> * vnorm (velocities s ! i)" if "i < ?n" for i
    unfolding V[OF that] by (rule vnorm_scale)
  have D: "vnorm (velocities s' ! i) < vnorm (velocities s ! i)"
    if "i < ?n" "0 < gamma" "gamma < 2" "vnorm (velocities s ! i) \<noteq> 0" for i
  proof -
    have "0 < vnorm (velocities s ! i)"
      using that(4) vnorm_nonneg[of "velocities s ! i"] by simp
    moreover have "\<bar>1 - gamma\<bar> < 1" using that(2,3) by simp
    ultimately have "\<bar>1 - gamma\<bar> * vnorm (velocities s ! i) < 1 * vnorm (velocities s ! i)"
      by (intro mult_strict_right_mono)
    then show ?thesis by (simp add: N[OF that(1)])
  qed
  from run obtain sf where
    loop: "sim_loop adj_matrix tol dt gamma gamma_theta K freqs (nat iterations)
             (initial_state positions0 phases0) = Inr sf"
    and res: "result_of sf = (ph, phh, pe, ke, te)"
    by (auto simp: simulate_def split: sum.splits)
  have R: "(\<forall>P \<in> set ph. P = positions0) \<and> (\<forall>k \<in> set ke. k = 0)"
    using zero_adjacency_run[OF zero loop l0 d0] res by (simp add: result_of_def)
  show ?thesis
    using c F phase_diffs_zero_adjacency[OF zero, of "phases s"] V N D R by auto
qed

theorem zero_adjacency_dynamics_witness:
  "calculate_forces [[0, 0], [0, 0]] [[0, 0], [3, 4]] = Inr [[0, 0], [0, 0]] \<and>
   phase_diffs [[0, 0], [0, 0]] [0, 0] = [0, 0] \<and>
   vnorm [- 2, 0] = \<bar>1 - 3\<bar> * vnorm [1, 0] \<and>
   simulate [[0, 0], [0, 0]] 1 (1 / 10) (1 / 2) 3 (1 / 10) 0 [[0, 0], [3, 4]] [0, 0] [0, 0]
     = Inr ([[[0, 0], [3, 4]], [[0, 0], [3, 4]]], [[0, 0], [0, 0]], [0], [0], [0])"
proof -
  let ?A = "[[0, 0], [0, 0 :: real]]"
  let ?s = "\<lparr> positions = [[0, 0], [3, 4 :: real]], velocities = [[1, 0], [0, 0 :: real]],
       phases = [0, 0 :: real], phase_velocities = [0, 0 :: real],
       positions_history = [[[0, 0], [3, 4 :: real]]], phase_history = [[0, 0 :: real]],
       potential_energy_history = [], kinetic_energy_history = [],
       total_energy_history = [] \<rparr>"
  let ?s' = "\<lparr> positions = [[- 1, 0], [3, 4 :: real]], velocities = [[- 2, 0], [0, 0 :: real]],
       phases = [0, 0 :: real], phase_velocities = [0, 0 :: real],
       positions_history = [[[0, 0], [3, 4]], [[- 1, 0], [3, 4 :: real]]],
       phase_history = [[0, 0], [0, 0 :: real]],
       potential_energy_history = [0], kinetic_energy_history = [2],
       total_energy_history = [2 :: real] \<rparr>"
  have zero: "\<forall>row \<in> set ?A. \<forall>x \<in> set row. x = 0" by simp
  have step: "sim_step ?A (1 / 10) (1 / 2) 3 (1 / 10) 0 [0, 0] ?s = Inr (False, ?s')"
    by (rule zero_adjacency_step_eval)
  have lp: "length (positions ?s) = length ?A" and lv: "length (velocities ?s) = length ?A" by simp_all
  have dims: "\<forall>i<length ?A. length (positions ?s ! i) = 2 \<and> length (velocities ?s ! i) = 2"
    by (simp add: All_less_Suc eval_nat_numeral)
  have run: "simulate ?A 1 (1 / 10) (1 / 2) 3 (1 / 10) 0 [[0, 0], [3, 4]] [0, 0] [0, 0]
     = Inr ([[[0, 0], [3, 4]], [[0, 0], [3, 4]]], [[0, 0], [0, 0]], [0], [0], [0])"
    by (simp add: simulate_def sim_step_def initial_state_def calculate_forces_zero_pair
        zeros_like_def phase_diffs_def total_movement_def compute_potential_energy_def
        result_of_def vnorm_def vsub_def upt_rec Let_def)
  have l0: "length [[0, 0], [3, 4 :: real]] = length ?A" by simp
  have d0: "\<forall>i<length ?A. length ([[0, 0], [3, 4 :: real]] ! i) = 2"
    by (simp add: All_less_Suc eval_nat_numeral)
  from zero_adjacency_dynamics[OF zero step lp lv dims run l0 d0]
  have "calculate_forces ?A (positions ?s) = Inr (replicate (length ?A) (replicate 2 0))"
    "phase_diffs ?A (phases ?s) = replicate (length ?A) 0"
    "vnorm (velocities ?s' ! 0) = \<bar>1 - 3\<bar> * vnorm (velocities ?s ! 0)"
    by (simp_all add: All_less_Suc)
  then show ?thesis using run by (simp add: eval_nat_numeral)
qed

theorem zero_adjacency_counterexample:
  "sim_step [[0, 0], [0, 0]] (1 / 10) (1 / 2) 3 (1 / 10) 0 [0, 0]
     \<lparr> positions = [[0, 0], [3, 4]], velocities = [[1, 0], [0, 0]],
       phases = [0, 0], phase_velocities = [0, 0],
       positions_history = [[[0, 0], [3, 4]]], phase_history = [[0, 0]],
       potential_energy_history = [], kinetic_energy_history = [],
       total_energy_history = [] \<rparr>
   = Inr (False,
     \<lparr> positions = [[- 1, 0], [3, 4]], velocities = [[- 2, 0], [0, 0]],
       phases = [0, 0], phase_velocities = [0, 0],
       positions_history = [[[0, 0], [3, 4]], [[- 1, 0], [3, 4]]],
       phase_history = [[0, 0], [0, 0]],
       potential_energy_history = [0], kinetic_energy_history = [2],
       total_energy_history = [2] \<rparr>)
   \<and> (0 :: real) < 3 * (1 / 2) \<and> (3 :: real) * (1 / 2) < 2
   \<and> vnorm [1, 0] = 1 \<and> vnorm [- 2, 0] = 2
   \<and> sim_step [[0, 0], [0, 0]] (1 / 10) (1 / 2) (1 / 4) (1 / 10) 0 [0, 0]
     (initial_state [[0, 0], [3, 4]] [0, 0])
   = Inr (True,
     \<lparr> positions = [[0, 0], [3, 4]], velocities = [[0, 0], [0, 0]],
       phases = [0, 0], phase_velocities = [0, 0],
       positions_history = [[[0, 0], [3, 4]], [[0, 0], [3, 4]]],
       phase_history = [[0, 0], [0, 0]],
       potential_energy_history = [0], kinetic_energy_history = [0],
       total_energy_history = [0] \<rparr>)
   \<and> velocities (initial_state [[0, 0], [3, 4]] [0, 0]) = [[0, 0], [0, 0]]"
  using zero_adjacency_step_eval zero_adjacency_first_step_eval
  by (simp add: vnorm_def sqrt_4 initial_state_def zeros_like_def)

subsection \<open>Inputs the specification calls invalid\<close>

text \<open>
  C5.  The claim has the orchestrator reject a negative-weighted adjacency, a non-positive
  \<open>dt\<close>, a negative \<open>tol\<close>, and non-positive \<open>iterations\<close> or \<open>ensemble_size\<close> before any
  realization starts.  The code holds no such check: it converts the graph and runs the
  realizations with what it was given.
  As amended, for every graph, every \<open>dt\<close>, \<open>tol\<close> and damping, and every order in which the
  workers reach the generator: the ensemble fails only with the error of one of its
  realizations, and when every realization returns it returns their histories, slot \<open>i\<close>
  those of worker \<open>i\<close>; the adjacency the realizations receive holds every weight of a
  weighted graph, and every weight that is not positive, unchanged; a non-positive
  \<open>ensemble_size\<close> gives five empty sequences; non-positive \<open>iterations\<close> give, for every
  seed, histories that hold the initial snapshot only and empty energy histories; with a
  negative \<open>tol\<close> no step ever counts as converged, so every realization of an ensemble
  that returns has run all \<open>iterations\<close> steps.
  The counterexample: a weighted graph with the weight \<open>-2\<close>, \<open>dt = -1/2\<close> and \<open>tol = -1\<close> is
  accepted, the realization runs its step and returns a potential energy of \<open>-36\<close>; and an
  ensemble of size \<open>0\<close>, or of \<open>0\<close> iterations, returns normally.
\<close>

theorem ensemble_no_validation:
  "(ensemble_size \<le> 0 \<longrightarrow>
      HONE_kuramoto_ensemble gen g0 sched G dim' iterations ensemble_size tol dt gamma gamma_theta K
        = Inr ([], [], [], [], [])) \<and>
   (iterations \<le> 0 \<longrightarrow>
      (\<exists>ps phs. length ps = nat ensemble_size \<and> length phs = nat ensemble_size \<and>
         HONE_kuramoto_ensemble gen g0 sched G dim' iterations ensemble_size tol dt gamma gamma_theta K
           = Inr (map (\<lambda>p. [p]) ps, map (\<lambda>p. [p]) phs,
                  replicate (nat ensemble_size) [], replicate (nat ensemble_size) [],
                  replicate (nat ensemble_size) []))) \<and>
   (tol < 0 \<longrightarrow>
      (\<forall>ps phs pes kes tes.
         HONE_kuramoto_ensemble gen g0 sched G dim' iterations ensemble_size tol dt gamma gamma_theta K
           = Inr (ps, phs, pes, kes, tes) \<longrightarrow>
         (\<forall>i<nat ensemble_size.
            length (ps ! i) = nat iterations + 1 \<and> length (tes ! i) = nat iterations))) \<and>
   (\<forall>threads.
      threads = snd (run_schedule gen (length (adjacency_of G)) dim'
                      (complete_schedule (nat ensemble_size) sched)
                      (g0, replicate (nat ensemble_size) fresh_thread)) \<longrightarrow>
      ((\<forall>i<nat ensemble_size. \<exists>r.
           simulate (adjacency_of G) iterations tol dt gamma gamma_theta K
             (drawn_positions (threads ! i)) (drawn_phases (threads ! i))
             (drawn_frequencies (threads ! i)) = Inr r) \<longrightarrow>
       (\<exists>ps phs pes kes tes.
           HONE_kuramoto_ensemble gen g0 sched G dim' iterations ensemble_size tol dt gamma gamma_theta K
             = Inr (ps, phs, pes, kes, tes) \<and>
           length ps = nat ensemble_size \<and>
           (\<forall>i<nat ensemble_size.
              simulate (adjacency_of G) iterations tol dt gamma gamma_theta K
                (drawn_positions (threads ! i)) (drawn_phases (threads ! i))
                (drawn_frequencies (threads ! i))
                = Inr (ps ! i, phs ! i, pes ! i, kes ! i, tes ! i)))) \<and>
      (\<forall>e.
         HONE_kuramoto_ensemble gen g0 sched G dim' iterations ensemble_size tol dt gamma gamma_theta K
           = Inl e \<longrightarrow>
         (\<exists>i<nat ensemble_size.
            simulate (adjacency_of G) iterations tol dt gamma gamma_theta K
              (drawn_positions (threads ! i)) (drawn_phases (threads ! i))
              (drawn_frequencies (threads ! i)) = Inl e))) \<and>
   (\<forall>i j. i < length (to_numpy_array G) \<longrightarrow> j < length (to_numpy_array G ! i) \<longrightarrow>
      adjacency_of G ! i ! j =
        (if is_weighted G \<or> to_numpy_array G ! i ! j \<le> 0 then to_numpy_array G ! i ! j else 1))"
proof -
  let ?m = "nat ensemble_size"
  let ?A = "adjacency_of G"
  define threads where "threads = snd (run_schedule gen (length ?A) dim' (complete_schedule ?m sched)
                           (g0, replicate ?m fresh_thread))"
  define futures where "futures = map (\<lambda>t. simulate ?A iterations tol dt gamma gamma_theta K
                                (drawn_positions t) (drawn_phases t) (drawn_frequencies t)) threads"
  have lt: "length threads = ?m" unfolding threads_def by (simp add: run_schedule_length)
  have E: "HONE_kuramoto_ensemble gen g0 sched G dim' iterations ensemble_size tol dt gamma gamma_theta K
     = (case join_futures futures of
           Inl e \<Rightarrow> Inl e
         | Inr results \<Rightarrow>
             Inr (map (\<lambda>result. fst result) results,
                  map (\<lambda>result. fst (snd result)) results,
                  map (\<lambda>result. fst (snd (snd result))) results,
                  map (\<lambda>result. fst (snd (snd (snd result)))) results,
                  map (\<lambda>result. snd (snd (snd (snd result)))) results))"
    unfolding HONE_kuramoto_ensemble_def Let_def futures_def threads_def ..
  have A: "HONE_kuramoto_ensemble gen g0 sched G dim' iterations ensemble_size tol dt gamma gamma_theta K
        = Inr ([], [], [], [], [])" if "ensemble_size \<le> 0"
  proof -
    have "threads = []" using lt that by simp
    then show ?thesis unfolding E futures_def by simp
  qed
  have B: "\<exists>ps phs. length ps = ?m \<and> length phs = ?m \<and>
         HONE_kuramoto_ensemble gen g0 sched G dim' iterations ensemble_size tol dt gamma gamma_theta K
           = Inr (map (\<lambda>p. [p]) ps, map (\<lambda>p. [p]) phs,
                  replicate ?m [], replicate ?m [], replicate ?m [])" if it: "iterations \<le> 0"
  proof -
    have "futures = map Inr (map (\<lambda>t. ([drawn_positions t], [drawn_phases t], [], [], [])) threads)"
      unfolding futures_def using it by (simp add: simulate_no_iterations)
    then have J: "join_futures futures =
        Inr (map (\<lambda>t. ([drawn_positions t], [drawn_phases t], [], [], [])) threads)"
      by (simp only: join_futures_Inr)
    have "HONE_kuramoto_ensemble gen g0 sched G dim' iterations ensemble_size tol dt gamma gamma_theta K
           = Inr (map (\<lambda>p. [p]) (map drawn_positions threads),
                  map (\<lambda>p. [p]) (map drawn_phases threads),
                  replicate ?m [], replicate ?m [], replicate ?m [])"
      unfolding E J using lt by (simp add: comp_def map_replicate_const)
    then show ?thesis
      using lt by (intro exI[of _ "map drawn_positions threads"]
                         exI[of _ "map drawn_phases threads"]) simp
  qed
  have C: "length (ps ! i) = nat iterations + 1 \<and> length (tes ! i) = nat iterations"
    if tol: "tol < 0"
      and R: "HONE_kuramoto_ensemble gen g0 sched G dim' iterations ensemble_size tol dt gamma gamma_theta K
           = Inr (ps, phs, pes, kes, tes)"
      and i: "i < ?m" for ps phs pes kes tes i
  proof -
    from R obtain results where J: "join_futures futures = Inr results"
      and ps: "ps = map (\<lambda>result. fst result) results"
      and tes: "tes = map (\<lambda>result. snd (snd (snd (snd result)))) results"
      unfolding E by (auto split: sum.splits)
    have lf: "length futures = ?m" by (simp add: futures_def lt)
    have lr: "length results = ?m" using join_futures_length[OF J] lf by simp
    have "futures ! i = Inr (results ! i)" using join_futures_nth[OF J] i lf by simp
    moreover have "futures ! i = simulate ?A iterations tol dt gamma gamma_theta K
        (drawn_positions (threads ! i)) (drawn_phases (threads ! i)) (drawn_frequencies (threads ! i))"
      using i lt by (simp add: futures_def)
    ultimately have S: "simulate ?A iterations tol dt gamma gamma_theta K
        (drawn_positions (threads ! i)) (drawn_phases (threads ! i)) (drawn_frequencies (threads ! i))
        = Inr (fst (results ! i), fst (snd (results ! i)), fst (snd (snd (results ! i))),
               fst (snd (snd (snd (results ! i)))), snd (snd (snd (snd (results ! i)))))"
      by simp
    from simulate_negative_tol[OF S tol]
    show ?thesis using i lr by (simp add: ps tes)
  qed
  have lf: "length futures = ?m" by (simp add: futures_def lt)
  have fi: "futures ! i = simulate ?A iterations tol dt gamma gamma_theta K
        (drawn_positions (threads ! i)) (drawn_phases (threads ! i)) (drawn_frequencies (threads ! i))"
    if "i < ?m" for i
    using that lt by (simp add: futures_def)
  have D1: "\<exists>ps phs pes kes tes.
           HONE_kuramoto_ensemble gen g0 sched G dim' iterations ensemble_size tol dt gamma gamma_theta K
             = Inr (ps, phs, pes, kes, tes) \<and>
           length ps = ?m \<and>
           (\<forall>i<?m.
              simulate ?A iterations tol dt gamma gamma_theta K
                (drawn_positions (threads ! i)) (drawn_phases (threads ! i))
                (drawn_frequencies (threads ! i))
                = Inr (ps ! i, phs ! i, pes ! i, kes ! i, tes ! i))"
    if ok: "\<forall>i<?m. \<exists>r.
           simulate ?A iterations tol dt gamma gamma_theta K
             (drawn_positions (threads ! i)) (drawn_phases (threads ! i))
             (drawn_frequencies (threads ! i)) = Inr r"
  proof -
    have "\<forall>i<length futures. \<exists>r. futures ! i = Inr r" using ok fi lf by simp
    then obtain results where J: "join_futures futures = Inr results"
      using join_futures_all_Inr by blast
    have lr: "length results = ?m" using join_futures_length[OF J] lf by simp
    have ri: "simulate ?A iterations tol dt gamma gamma_theta K
                (drawn_positions (threads ! i)) (drawn_phases (threads ! i))
                (drawn_frequencies (threads ! i))
                = Inr (map (\<lambda>result. fst result) results ! i,
                       map (\<lambda>result. fst (snd result)) results ! i,
                       map (\<lambda>result. fst (snd (snd result))) results ! i,
                       map (\<lambda>result. fst (snd (snd (snd result)))) results ! i,
                       map (\<lambda>result. snd (snd (snd (snd result)))) results ! i)" if "i < ?m" for i
    proof -
      have "futures ! i = Inr (results ! i)" using join_futures_nth[OF J] that lf by simp
      then show ?thesis using fi[OF that] that lr by simp
    qed
    show ?thesis
      unfolding E J using lr ri
      by (intro exI[of _ "map (\<lambda>result. fst result) results"]
                exI[of _ "map (\<lambda>result. fst (snd result)) results"]
                exI[of _ "map (\<lambda>result. fst (snd (snd result))) results"]
                exI[of _ "map (\<lambda>result. fst (snd (snd (snd result)))) results"]
                exI[of _ "map (\<lambda>result. snd (snd (snd (snd result)))) results"]) simp
  qed
  have D2: "\<exists>i<?m. simulate ?A iterations tol dt gamma gamma_theta K
              (drawn_positions (threads ! i)) (drawn_phases (threads ! i))
              (drawn_frequencies (threads ! i)) = Inl e"
    if "HONE_kuramoto_ensemble gen g0 sched G dim' iterations ensemble_size tol dt gamma gamma_theta K
           = Inl e" for e
  proof -
    from that have "join_futures futures = Inl e" unfolding E by (auto split: sum.splits)
    then obtain i where "i < length futures" "futures ! i = Inl e"
      using join_futures_Inl by blast
    then show ?thesis using fi lf by auto
  qed
  have W: "adjacency_of G ! i ! j =
        (if is_weighted G \<or> to_numpy_array G ! i ! j \<le> 0 then to_numpy_array G ! i ! j else 1)"
    if "i < length (to_numpy_array G)" "j < length (to_numpy_array G ! i)" for i j
    using that by (simp add: adjacency_of_def)
  show ?thesis using A B C D1 D2 W unfolding threads_def by blast
qed

theorem ensemble_no_validation_witness:
  "HONE_kuramoto_ensemble
     \<lparr> rng_seed = (\<lambda>s. ()), rng_rand = (\<lambda>n d g. ([[0, 0], [3, 4]], g)),
       rng_uniform = (\<lambda>n g. ([0, 1], g)), rng_normal = (\<lambda>n g. ([5, 7], g)) \<rparr> () []
     \<lparr> is_weighted = True, to_numpy_array = [[0, 2], [2, 0]] \<rparr>
     2 100 0 (1 / 10000) (1 / 100) 1 (1 / 10) (1 / 2)
   = Inr ([], [], [], [], [])
   \<and> (\<exists>ps phs. length ps = 3 \<and> length phs = 3 \<and>
        HONE_kuramoto_ensemble
          \<lparr> rng_seed = (\<lambda>s. ()), rng_rand = (\<lambda>n d g. ([[0, 0], [3, 4]], g)),
            rng_uniform = (\<lambda>n g. ([0, 1], g)), rng_normal = (\<lambda>n g. ([5, 7], g)) \<rparr> () []
          \<lparr> is_weighted = True, to_numpy_array = [[0, 2], [2, 0]] \<rparr>
          2 0 3 (1 / 10000) (1 / 100) 1 (1 / 10) (1 / 2)
        = Inr (map (\<lambda>p. [p]) ps, map (\<lambda>p. [p]) phs, [[], [], []], [[], [], []], [[], [], []]))
   \<and> (\<exists>ps phs pes kes tes.
        HONE_kuramoto_ensemble
          \<lparr> rng_seed = (\<lambda>s. ()), rng_rand = (\<lambda>n d g. ([[0, 0], [3, 4]], g)),
            rng_uniform = (\<lambda>n g. ([0, 1], g)), rng_normal = (\<lambda>n g. ([5, 7], g)) \<rparr> () []
          \<lparr> is_weighted = True, to_numpy_array = [[0, - 2], [- 2, 0]] \<rparr>
          2 1 1 (- 1) (- (1 / 2)) 1 (1 / 10) 0
        = Inr (ps, phs, pes, kes, tes) \<and>
        length ps = 1 \<and> length (ps ! 0) = 2 \<and> length (tes ! 0) = 1 \<and>
        simulate [[0, - 2], [- 2, 0]] 1 (- 1) (- (1 / 2)) 1 (1 / 10) 0 [[0, 0], [3, 4]] [0, 1] [5, 7]
          = Inr (ps ! 0, phs ! 0, pes ! 0, kes ! 0, tes ! 0))
   \<and> HONE_kuramoto_ensemble
     \<lparr> rng_seed = (\<lambda>s. ()), rng_rand = (\<lambda>n d g. ([[1, 2]], g)),
       rng_uniform = (\<lambda>n g. ([0], g)), rng_normal = (\<lambda>n g. ([5], g)) \<rparr> () []
     \<lparr> is_weighted = True, to_numpy_array = [[0]] \<rparr>
     2 1 1 (1 / 10000) (1 / 100) 1 (1 / 10) (1 / 2)
   = Inl ValueError
   \<and> simulate [[0]] 1 (1 / 10000) (1 / 100) 1 (1 / 10) (1 / 2) [[1, 2]] [0] [5] = Inl ValueError
   \<and> adjacency_of \<lparr> is_weighted = False, to_numpy_array = [[0, - 2], [3, 0]] \<rparr> ! 0 ! 1 = - 2
   \<and> adjacency_of \<lparr> is_weighted = False, to_numpy_array = [[0, - 2], [3, 0]] \<rparr> ! 1 ! 0 = 1"
proof -
  let ?gen = "\<lparr> rng_seed = (\<lambda>s. ()), rng_rand = (\<lambda>n d g. ([[0, 0], [3, 4 :: real]], g)),
       rng_uniform = (\<lambda>n g. ([0, 1 :: real], g)), rng_normal = (\<lambda>n g. ([5, 7 :: real], g)) \<rparr>"
  let ?gen1 = "\<lparr> rng_seed = (\<lambda>s. ()), rng_rand = (\<lambda>n d g. ([[1, 2 :: real]], g)),
       rng_uniform = (\<lambda>n g. ([0 :: real], g)), rng_normal = (\<lambda>n g. ([5 :: real], g)) \<rparr>"
  let ?G = "\<lparr> is_weighted = True, to_numpy_array = [[0, 2], [2, 0 :: real]] \<rparr>"
  let ?N = "\<lparr> is_weighted = True, to_numpy_array = [[0, - 2], [- 2, 0 :: real]] \<rparr>"
  let ?S = "\<lparr> is_weighted = True, to_numpy_array = [[0 :: real]] \<rparr>"
  let ?U = "\<lparr> is_weighted = False, to_numpy_array = [[0, - 2], [3, 0 :: real]] \<rparr>"
  note T1 = ensemble_no_validation[where ensemble_size = 0 and gen = ?gen and ?g0.0 = "()" and sched = "[]"
        and G = ?G and dim' = 2 and iterations = 100 and tol = "1 / 10000" and dt = "1 / 100"
        and gamma = 1 and gamma_theta = "1 / 10" and K = "1 / 2"]
  note T2 = ensemble_no_validation[where ensemble_size = 3 and gen = ?gen and ?g0.0 = "()" and sched = "[]"
        and G = ?G and dim' = 2 and iterations = 0 and tol = "1 / 10000" and dt = "1 / 100"
        and gamma = 1 and gamma_theta = "1 / 10" and K = "1 / 2"]
  note T3 = ensemble_no_validation[where ensemble_size = 1 and gen = ?gen and ?g0.0 = "()" and sched = "[]"
        and G = ?N and dim' = 2 and iterations = 1 and tol = "- 1" and dt = "- (1 / 2)"
        and gamma = 1 and gamma_theta = "1 / 10" and K = 0]
  note T4 = ensemble_no_validation[where ensemble_size = 1 and gen = ?gen1 and ?g0.0 = "()" and sched = "[]"
        and G = ?S and dim' = 2 and iterations = 1 and tol = "1 / 10000" and dt = "1 / 100"
        and gamma = 1 and gamma_theta = "1 / 10" and K = "1 / 2"]
  note T5 = ensemble_no_validation[where ensemble_size = 1 and gen = ?gen and ?g0.0 = "()" and sched = "[]"
        and G = ?U and dim' = 2 and iterations = 1 and tol = "1 / 10000" and dt = "1 / 100"
        and gamma = 1 and gamma_theta = "1 / 10" and K = "1 / 2"]
  have 1: "HONE_kuramoto_ensemble ?gen () [] ?G 2 100 0 (1 / 10000) (1 / 100) 1 (1 / 10) (1 / 2)
             = Inr ([], [], [], [], [])"
    using conjunct1[OF T1] by simp
  have 2: "\<exists>ps phs. length ps = 3 \<and> length phs = 3 \<and>
        HONE_kuramoto_ensemble ?gen () [] ?G 2 0 3 (1 / 10000) (1 / 100) 1 (1 / 10) (1 / 2)
        = Inr (map (\<lambda>p. [p]) ps, map (\<lambda>p. [p]) phs, [[], [], []], [[], [], []], [[], [], []])"
    using conjunct1[OF conjunct2[OF T2]] by (simp add: eval_nat_numeral)
  have ok: "\<forall>i<nat 1. \<exists>r.
           simulate (adjacency_of ?N) 1 (- 1) (- (1 / 2)) 1 (1 / 10) 0
             (drawn_positions (snd (run_schedule ?gen (length (adjacency_of ?N)) 2
                      (complete_schedule (nat 1) []) ((), replicate (nat 1) fresh_thread)) ! i))
             (drawn_phases (snd (run_schedule ?gen (length (adjacency_of ?N)) 2
                      (complete_schedule (nat 1) []) ((), replicate (nat 1) fresh_thread)) ! i))
             (drawn_frequencies (snd (run_schedule ?gen (length (adjacency_of ?N)) 2
                      (complete_schedule (nat 1) []) ((), replicate (nat 1) fresh_thread)) ! i)) = Inr r"
    by (simp add: adjacency_of_def stub_one_worker simulate_negative_eval)
  from conjunct1[OF conjunct2[OF conjunct2[OF conjunct2[OF T3]]]]
  have "(\<forall>i<nat 1. \<exists>r.
           simulate (adjacency_of ?N) 1 (- 1) (- (1 / 2)) 1 (1 / 10) 0
             (drawn_positions (snd (run_schedule ?gen (length (adjacency_of ?N)) 2
                      (complete_schedule (nat 1) []) ((), replicate (nat 1) fresh_thread)) ! i))
             (drawn_phases (snd (run_schedule ?gen (length (adjacency_of ?N)) 2
                      (complete_schedule (nat 1) []) ((), replicate (nat 1) fresh_thread)) ! i))
             (drawn_frequencies (snd (run_schedule ?gen (length (adjacency_of ?N)) 2
                      (complete_schedule (nat 1) []) ((), replicate (nat 1) fresh_thread)) ! i)) = Inr r) \<longrightarrow>
       (\<exists>ps phs pes kes tes.
           HONE_kuramoto_ensemble ?gen () [] ?N 2 1 1 (- 1) (- (1 / 2)) 1 (1 / 10) 0
             = Inr (ps, phs, pes, kes, tes) \<and>
           length ps = nat 1 \<and>
           (\<forall>i<nat 1.
              simulate (adjacency_of ?N) 1 (- 1) (- (1 / 2)) 1 (1 / 10) 0
                (drawn_positions (snd (run_schedule ?gen (length (adjacency_of ?N)) 2
                      (complete_schedule (nat 1) []) ((), replicate (nat 1) fresh_thread)) ! i))
                (drawn_phases (snd (run_schedule ?gen (length (adjacency_of ?N)) 2
                      (complete_schedule (nat 1) []) ((), replicate (nat 1) fresh_thread)) ! i))
                (drawn_frequencies (snd (run_schedule ?gen (length (adjacency_of ?N)) 2
                      (complete_schedule (nat 1) []) ((), replicate (nat 1) fresh_thread)) ! i))
                = Inr (ps ! i, phs ! i, pes ! i, kes ! i, tes ! i)))"
    by blast
  from this[rule_format, OF ok[rule_format]] obtain ps phs pes kes tes where
    R: "HONE_kuramoto_ensemble ?gen () [] ?N 2 1 1 (- 1) (- (1 / 2)) 1 (1 / 10) 0
             = Inr (ps, phs, pes, kes, tes)"
    and lps: "length ps = nat 1"
    and S: "\<forall>i<nat 1.
              simulate (adjacency_of ?N) 1 (- 1) (- (1 / 2)) 1 (1 / 10) 0
                (drawn_positions (snd (run_schedule ?gen (length (adjacency_of ?N)) 2
                      (complete_schedule (nat 1) []) ((), replicate (nat 1) fresh_thread)) ! i))
                (drawn_phases (snd (run_schedule ?gen (length (adjacency_of ?N)) 2
                      (complete_schedule (nat 1) []) ((), replicate (nat 1) fresh_thread)) ! i))
                (drawn_frequencies (snd (run_schedule ?gen (length (adjacency_of ?N)) 2
                      (complete_schedule (nat 1) []) ((), replicate (nat 1) fresh_thread)) ! i))
                = Inr (ps ! i, phs ! i, pes ! i, kes ! i, tes ! i)"
    by blast
  have S0: "simulate [[0, - 2], [- 2, 0]] 1 (- 1) (- (1 / 2)) 1 (1 / 10) 0 [[0, 0], [3, 4]] [0, 1] [5, 7]
          = Inr (ps ! 0, phs ! 0, pes ! 0, kes ! 0, tes ! 0)"
    using S by (simp add: adjacency_of_def stub_one_worker)
  from conjunct1[OF conjunct2[OF conjunct2[OF T3]]] R
  have L: "length (ps ! 0) = 2 \<and> length (tes ! 0) = 1" by simp
  have 3: "\<exists>ps phs pes kes tes.
        HONE_kuramoto_ensemble ?gen () [] ?N 2 1 1 (- 1) (- (1 / 2)) 1 (1 / 10) 0
        = Inr (ps, phs, pes, kes, tes) \<and>
        length ps = 1 \<and> length (ps ! 0) = 2 \<and> length (tes ! 0) = 1 \<and>
        simulate [[0, - 2], [- 2, 0]] 1 (- 1) (- (1 / 2)) 1 (1 / 10) 0 [[0, 0], [3, 4]] [0, 1] [5, 7]
          = Inr (ps ! 0, phs ! 0, pes ! 0, kes ! 0, tes ! 0)"
    using R lps L S0 by auto
  have 4: "HONE_kuramoto_ensemble ?gen1 () [] ?S 2 1 1 (1 / 10000) (1 / 100) 1 (1 / 10) (1 / 2)
             = Inl ValueError"
    by (rule ensemble_single_node_eval)
  from conjunct1[OF conjunct2[OF conjunct2[OF conjunct2[OF T4]]]] 4
  have 5: "simulate [[0]] 1 (1 / 10000) (1 / 100) 1 (1 / 10) (1 / 2) [[1, 2]] [0] [5] = Inl ValueError"
    by (simp add: adjacency_of_def stub_one_worker)
  from conjunct2[OF conjunct2[OF conjunct2[OF conjunct2[OF T5]]]]
  have 6: "adjacency_of ?U ! 0 ! 1 = - 2" "adjacency_of ?U ! 1 ! 0 = 1"
    by simp_all
  from 1 2 3 4 5 6 show ?thesis by (intro conjI)
qed

theorem ensemble_no_validation_counterexample:
  "HONE_kuramoto_ensemble
     \<lparr> rng_seed = (\<lambda>s. ()), rng_rand = (\<lambda>n d g. ([[0, 0], [3, 4]], g)),
       rng_uniform = (\<lambda>n g. ([0, 1], g)), rng_normal = (\<lambda>n g. ([5, 7], g)) \<rparr> () []
     \<lparr> is_weighted = True, to_numpy_array = [[0, - 2], [- 2, 0]] \<rparr>
     2 1 1 (- 1) (- (1 / 2)) 1 (1 / 10) 0
   = Inr ([[[[0, 0], [3, 4]], [[- (3 / 10), - (2 / 5)], [33 / 10, 22 / 5]]]],
          [[[0, 1], [5 / 4, 11 / 4]]], [[- 36]], [[1]], [[- 35]])
   \<and> HONE_kuramoto_ensemble
     \<lparr> rng_seed = (\<lambda>s. ()), rng_rand = (\<lambda>n d g. ([[0, 0], [3, 4]], g)),
       rng_uniform = (\<lambda>n g. ([0, 1], g)), rng_normal = (\<lambda>n g. ([5, 7], g)) \<rparr> () []
     \<lparr> is_weighted = True, to_numpy_array = [[0, 2], [2, 0]] \<rparr>
     2 100 0 (1 / 10000) (1 / 100) 1 (1 / 10) (1 / 2)
   = Inr ([], [], [], [], [])
   \<and> HONE_kuramoto_ensemble
     \<lparr> rng_seed = (\<lambda>s. ()), rng_rand = (\<lambda>n d g. ([[0, 0], [3, 4]], g)),
       rng_uniform = (\<lambda>n g. ([0, 1], g)), rng_normal = (\<lambda>n g. ([5, 7], g)) \<rparr> () []
     \<lparr> is_weighted = True, to_numpy_array = [[0, 2], [2, 0]] \<rparr>
     2 0 1 (1 / 10000) (1 / 100) 1 (1 / 10) (1 / 2)
   = Inr ([[[[0, 0], [3, 4]]]], [[[0, 1]]], [[]], [[]], [[]])"
  using ensemble_negative_eval
  by (simp add: HONE_kuramoto_ensemble_def adjacency_of_def stub_one_worker
        simulate_no_iterations complete_schedule_none)

subsection \<open>Reproducibility of the ensemble\<close>

text \<open>
  C4.  The claim: two runs of the ensemble with the same arguments give the same histories
  for every seed, each realization's draws being a function of its seed alone.
  The code: the workers run in threads of one pool and all call the one process-wide
  generator; \<^verbatim>\<open>np.random.seed(seed)\<close> and the three draws after it are four separate calls,
  and another worker may reach the generator between them.  Take two workers.  When
  worker 0 makes its four calls before worker 1 does, slot 0 starts from the positions
  drawn after seeding with 0 and slot 1 from those drawn after seeding with 1.  When
  worker 1 seeds the generator after worker 0 has seeded it and before worker 0 draws,
  slot 0 starts from the positions drawn after seeding with 1: the histories of seed 0
  depend on the order of the calls, not on the seed alone.  The slots themselves are
  assigned in the order of the seeds in both runs.  The instance after the theorem runs
  both orders on a small generator whose draws show its state: slot 0 starts at \<open>0\<close> in one
  run and at \<open>10\<close> in the other.
\<close>

theorem ensemble_schedule_race:
  assumes seq: "HONE_kuramoto_ensemble gen g0 [] G dim' iterations 2 tol dt gamma gamma_theta K
                  = Inr (ps, phs, pes, kes, tes)"
    and racy: "HONE_kuramoto_ensemble gen g0 [0, 1] G dim' iterations 2 tol dt gamma gamma_theta K
                  = Inr (ps', phs', pes', kes', tes')"
  shows "ps ! 0 ! 0 = fst (rng_rand gen (length (adjacency_of G)) dim' (rng_seed gen 0)) \<and>
         ps ! 1 ! 0 = fst (rng_rand gen (length (adjacency_of G)) dim' (rng_seed gen 1)) \<and>
         ps' ! 0 ! 0 = fst (rng_rand gen (length (adjacency_of G)) dim' (rng_seed gen 1))"
proof -
  let ?n = "length (adjacency_of G)"
  define S where "S = snd (run_schedule gen ?n dim' (complete_schedule (nat 2) [])
                            (g0, replicate (nat 2) fresh_thread))"
  define R where "R = snd (run_schedule gen ?n dim' (complete_schedule (nat 2) [0, 1])
                            (g0, replicate (nat 2) fresh_thread))"
  have two: "nat 2 = Suc (Suc 0)" by simp
  have lS: "length S = 2" and lR: "length R = 2"
    by (simp_all add: S_def R_def run_schedule_length)
  have mS: "map drawn_positions S
              = [fst (rng_rand gen ?n dim' (rng_seed gen 0)), fst (rng_rand gen ?n dim' (rng_seed gen (Suc 0)))]"
    unfolding S_def two using sequential_draws[of gen ?n dim' g0] by simp
  have mR: "map drawn_positions R
   = [fst (rng_rand gen ?n dim' (rng_seed gen (Suc 0))),
      fst (rng_rand gen ?n dim'
             (snd (rng_normal gen ?n (snd (rng_uniform gen ?n
                (snd (rng_rand gen ?n dim' (rng_seed gen (Suc 0)))))))))]"
    unfolding R_def two using racy_draws[of gen ?n dim' g0] by simp
  have S0: "drawn_positions (S ! 0) = fst (rng_rand gen ?n dim' (rng_seed gen 0))"
    using nth_map[of 0 S drawn_positions] lS unfolding mS by simp
  have S1: "drawn_positions (S ! 1) = fst (rng_rand gen ?n dim' (rng_seed gen 1))"
    using nth_map[of 1 S drawn_positions] lS unfolding mS by simp
  have R0: "drawn_positions (R ! 0) = fst (rng_rand gen ?n dim' (rng_seed gen 1))"
    using nth_map[of 0 R drawn_positions] lR unfolding mR by simp
  have i0: "0 < nat 2" and i1: "1 < nat 2" by simp_all
  have "ps ! 0 ! 0 = drawn_positions (S ! 0)"
    using simulate_first_snapshot[OF ensemble_slots[OF seq i0]] unfolding S_def .
  moreover have "ps ! 1 ! 0 = drawn_positions (S ! 1)"
    using simulate_first_snapshot[OF ensemble_slots[OF seq i1]] unfolding S_def .
  moreover have "ps' ! 0 ! 0 = drawn_positions (R ! 0)"
    using simulate_first_snapshot[OF ensemble_slots[OF racy i0]] unfolding R_def .
  ultimately show ?thesis using S0 S1 R0 by simp
qed

theorem ensemble_schedule_race_witness:
  "HONE_kuramoto_ensemble
     \<lparr> rng_seed = (\<lambda>s. 10 * s), rng_rand = (\<lambda>n d g. ([[real g]], Suc g)),
       rng_uniform = (\<lambda>n g. ([real g], Suc g)), rng_normal = (\<lambda>n g. ([real g], Suc g)) \<rparr> 0 []
     \<lparr> is_weighted = True, to_numpy_array = [[0]] \<rparr>
     1 0 2 (1 / 10000) (1 / 100) 1 (1 / 10) (1 / 2)
   = Inr ([[[[0]]], [[[10]]]], [[[1]], [[11]]], [[], []], [[], []], [[], []])
   \<and> HONE_kuramoto_ensemble
     \<lparr> rng_seed = (\<lambda>s. 10 * s), rng_rand = (\<lambda>n d g. ([[real g]], Suc g)),
       rng_uniform = (\<lambda>n g. ([real g], Suc g)), rng_normal = (\<lambda>n g. ([real g], Suc g)) \<rparr> 0 [0, 1]
     \<lparr> is_weighted = True, to_numpy_array = [[0]] \<rparr>
     1 0 2 (1 / 10000) (1 / 100) 1 (1 / 10) (1 / 2)
   = Inr ([[[[10]]], [[[13]]]], [[[11]], [[14]]], [[], []], [[], []], [[], []])
   \<and> [[[[0]]], [[[10 :: real]]]] ! 0 ! 0
       = fst (rng_rand \<lparr> rng_seed = (\<lambda>s. 10 * s), rng_rand = (\<lambda>n d g. ([[real g]], Suc g)),
                rng_uniform = (\<lambda>n g. ([real g], Suc g)), rng_normal = (\<lambda>n g. ([real g], Suc g)) \<rparr>
              (length (adjacency_of \<lparr> is_weighted = True, to_numpy_array = [[0]] \<rparr>)) 1
              (rng_seed \<lparr> rng_seed = (\<lambda>s. 10 * s), rng_rand = (\<lambda>n d g. ([[real g]], Suc g)),
                rng_uniform = (\<lambda>n g. ([real g], Suc g)), rng_normal = (\<lambda>n g. ([real g], Suc g)) \<rparr> 0))
   \<and> [[[[0]]], [[[10 :: real]]]] ! 1 ! 0
       = fst (rng_rand \<lparr> rng_seed = (\<lambda>s. 10 * s), rng_rand = (\<lambda>n d g. ([[real g]], Suc g)),
                rng_uniform = (\<lambda>n g. ([real g], Suc g)), rng_normal = (\<lambda>n g. ([real g], Suc g)) \<rparr>
              (length (adjacency_of \<lparr> is_weighted = True, to_numpy_array = [[0]] \<rparr>)) 1
              (rng_seed \<lparr> rng_seed = (\<lambda>s. 10 * s), rng_rand = (\<lambda>n d g. ([[real g]], Suc g)),
                rng_uniform = (\<lambda>n g. ([real g], Suc g)), rng_normal = (\<lambda>n g. ([real g], Suc g)) \<rparr> 1))
   \<and> [[[[10]]], [[[13 :: real]]]] ! 0 ! 0
       = fst (rng_rand \<lparr> rng_seed = (\<lambda>s. 10 * s), rng_rand = (\<lambda>n d g. ([[real g]], Suc g)),
                rng_uniform = (\<lambda>n g. ([real g], Suc g)), rng_normal = (\<lambda>n g. ([real g], Suc g)) \<rparr>
              (length (adjacency_of \<lparr> is_weighted = True, to_numpy_array = [[0]] \<rparr>)) 1
              (rng_seed \<lparr> rng_seed = (\<lambda>s. 10 * s), rng_rand = (\<lambda>n d g. ([[real g]], Suc g)),
                rng_uniform = (\<lambda>n g. ([real g], Suc g)), rng_normal = (\<lambda>n g. ([real g], Suc g)) \<rparr> 1))"
  using toy_sequential_eval toy_racy_eval
    ensemble_schedule_race[OF toy_sequential_eval toy_racy_eval]
  by (intro conjI) blast+

subsection \<open>History entries are independent copies\<close>

text \<open>
  C10.  In the model that keeps the arrays as objects in a store, take the loop from any
  state whose references are in order (the state before the first step is one, and every
  step keeps it so) and run any number of steps.  Then the run gives the result of the
  loop on values: the same error, or a state whose variables and history entries, read
  through their references, are those of the value model.  When it returns, every
  history entry that was recorded before is still there, at the same place of its list,
  and the object it refers to holds what it held: the in-place updates of \<^verbatim>\<open>velocities\<close>
  and \<^verbatim>\<open>phase_velocities\<close> and the later allocations have not touched it.  For a whole
  realization, the histories read from the store at the end are those of the value model,
  the sequence of the states as they were at each step.
\<close>

theorem history_snapshots_independent:
  assumes wf: "obj_wf s"
  shows "map_sum id obj_abs (obj_loop adj_matrix tol dt gamma gamma_theta K freqs n s)
           = sim_loop adj_matrix tol dt gamma gamma_theta K freqs n (obj_abs s) \<and>
         (\<forall>s'. obj_loop adj_matrix tol dt gamma gamma_theta K freqs n s = Inr s' \<longrightarrow>
            obj_wf s' \<and>
            take (length (r_positions_history s)) (r_positions_history s') = r_positions_history s \<and>
            take (length (r_phase_history s)) (r_phase_history s') = r_phase_history s \<and>
            (\<forall>r \<in> set (r_positions_history s) \<union> set (r_phase_history s).
               cells (mem s') r = cells (mem s) r)) \<and>
         map_sum id (\<lambda>s'. result_of (obj_abs s'))
           (obj_loop adj_matrix tol dt gamma gamma_theta K freqs (nat iterations)
              (obj_initial positions0 phases0))
           = simulate adj_matrix iterations tol dt gamma gamma_theta K positions0 phases0 freqs"
proof -
  have E: "map_sum id obj_abs (obj_loop adj_matrix tol dt gamma gamma_theta K freqs (nat iterations)
              (obj_initial positions0 phases0))
          = sim_loop adj_matrix tol dt gamma gamma_theta K freqs (nat iterations)
              (initial_state positions0 phases0)"
    using obj_loop_sound[OF obj_initial_wf, of adj_matrix tol dt gamma gamma_theta K freqs
        "nat iterations" positions0 phases0]
    by (simp add: obj_initial_abs)
  have "map_sum id (\<lambda>s'. result_of (obj_abs s'))
           (obj_loop adj_matrix tol dt gamma gamma_theta K freqs (nat iterations)
              (obj_initial positions0 phases0))
           = simulate adj_matrix iterations tol dt gamma gamma_theta K positions0 phases0 freqs"
    unfolding simulate_def E[symmetric]
    by (cases "obj_loop adj_matrix tol dt gamma gamma_theta K freqs (nat iterations)
              (obj_initial positions0 phases0)") simp_all
  then show ?thesis
    using obj_loop_sound[OF wf, of adj_matrix tol dt gamma gamma_theta K freqs n] by blast
qed

theorem history_snapshots_independent_witness:
  "\<exists>s'. obj_loop [[0, 2], [2, 0]] (1 / 10) (1 / 2) (1 / 4) (1 / 10) 0 [5, 7] (nat 1)
            (obj_initial [[0, 0], [3, 4]] [0, 1]) = Inr s' \<and>
         result_of (obj_abs s')
           = ([[[0, 0], [3, 4]], [[3 / 10, 2 / 5], [27 / 10, 18 / 5]]],
              [[0, 1], [5 / 4, 11 / 4]], [16], [1], [17]) \<and>
         take 1 (r_positions_history s') = [4] \<and> take 1 (r_phase_history s') = [5] \<and>
         cells (mem s') 4 = Arr2 [[0, 0], [3, 4]] \<and> cells (mem s') 5 = Arr1 [0, 1]"
proof -
  let ?A = "[[0, 2], [2, 0 :: real]]"
  let ?P = "[[0, 0], [3, 4 :: real]]"
  let ?s = "obj_initial ?P [0, 1]"
  note T = history_snapshots_independent[OF obj_initial_wf[of ?P "[0, 1]"],
      where adj_matrix = ?A and tol = "1 / 10" and dt = "1 / 2" and gamma = "1 / 4"
        and gamma_theta = "1 / 10" and K = 0 and freqs = "[5, 7]" and n = "nat 1"
        and iterations = 1 and ?positions0.0 = ?P and ?phases0.0 = "[0, 1]"]
  from conjunct2[OF conjunct2[OF T]] have
    "map_sum id (\<lambda>s'. result_of (obj_abs s'))
       (obj_loop ?A (1 / 10) (1 / 2) (1 / 4) (1 / 10) 0 [5, 7] (nat 1) ?s)
     = Inr ([[[0, 0], [3, 4]], [[3 / 10, 2 / 5], [27 / 10, 18 / 5]]],
            [[0, 1], [5 / 4, 11 / 4]], [16], [1], [17])"
    unfolding simulate_pair_eval .
  then obtain s' where
    L: "obj_loop ?A (1 / 10) (1 / 2) (1 / 4) (1 / 10) 0 [5, 7] (nat 1) ?s = Inr s'"
    and R: "result_of (obj_abs s')
           = ([[[0, 0], [3, 4]], [[3 / 10, 2 / 5], [27 / 10, 18 / 5]]],
              [[0, 1], [5 / 4, 11 / 4]], [16], [1], [17])"
    by (cases "obj_loop ?A (1 / 10) (1 / 2) (1 / 4) (1 / 10) 0 [5, 7] (nat 1) ?s") auto
  from conjunct1[OF conjunct2[OF T]] L have
    F: "take (length (r_positions_history ?s)) (r_positions_history s') = r_positions_history ?s"
       "take (length (r_phase_history ?s)) (r_phase_history s') = r_phase_history ?s"
       "\<forall>r \<in> set (r_positions_history ?s) \<union> set (r_phase_history ?s).
               cells (mem s') r = cells (mem ?s) r"
    by blast+
  have "take 1 (r_positions_history s') = [4]" "take 1 (r_phase_history s') = [5]"
    "cells (mem s') 4 = Arr2 ?P" "cells (mem s') 5 = Arr1 [0, 1]"
    using F by (simp_all add: obj_initial_fields)
  with L R show ?thesis by blast
qed

end
